(* ===== verification/Py_Float.thy ===== *)
theory Py_Float
  imports Complex_Main
begin

text \<open>
  Python floats (IEEE binary64) as the gateway uses them: a finite value is the rational it
  denotes, beside the two infinities and NaN. The arithmetic the sources perform
  (\<open>now - last_heartbeat_at\<close>, \<open>(current_ms - ts_ms) / 1000.0\<close>, \<open>total_seconds() * 1000\<close>) is the
  exact result rounded to the nearest double, ties to even, by \<open>fl\<close>. The sign of zero is not
  kept. The lemmas show that rounding is monotone and exact on short integers, which is all the
  comparisons with a time window need.
\<close>

datatype pyfloat = FFin rat | FInf bool | FNan

section \<open>The binary exponent of a positive rational\<close>

fun ilog2 :: "nat \<Rightarrow> nat" where
  "ilog2 n = (if n < 2 then 0 else Suc (ilog2 (n div 2)))"

declare ilog2.simps [simp del]

lemma ilog2_bounds: "0 < n \<Longrightarrow> 2 ^ ilog2 n \<le> n \<and> n < 2 ^ Suc (ilog2 n)"
proof (induction n rule: ilog2.induct)
  case (1 n)
  show ?case
  proof (cases "n < 2")
    case True
    with 1 show ?thesis by (auto simp: ilog2.simps [of n])
  next
    case False
    with 1 have "2 ^ ilog2 (n div 2) \<le> n div 2 \<and> n div 2 < 2 ^ Suc (ilog2 (n div 2))" by simp
    with False show ?thesis by (auto simp: ilog2.simps [of n])
  qed
qed

definition elog :: "rat \<Rightarrow> int" where
  "elog x = (if 1 \<le> x then int (ilog2 (nat \<lfloor>x\<rfloor>))
             else - int (ilog2 (nat (\<lceil>1 / x\<rceil> - 1))) - 1)"

lemma elog_bounds:
  assumes "0 < x"
  shows "2 powi elog x \<le> x \<and> x < 2 powi (elog x + 1)"
proof (cases "1 \<le> x")
  case True
  define n where "n = nat \<lfloor>x\<rfloor>"
  have n: "0 < n" using True by (simp add: n_def)
  have nx: "of_nat n \<le> x" "x < of_nat n + 1"
    using True floor_correct [of x] by (auto simp: n_def of_nat_nat)
  have "(2::rat) ^ ilog2 n \<le> of_nat n" "of_nat n + 1 \<le> (2::rat) ^ Suc (ilog2 n)"
    using ilog2_bounds [OF n] by (auto simp flip: of_nat_power of_nat_Suc simp del: power_Suc)
       (metis Suc_leI of_nat_Suc of_nat_le_iff of_nat_numeral of_nat_power add.commute)
  with nx have "(2::rat) ^ ilog2 n \<le> x \<and> x < (2::rat) ^ Suc (ilog2 n)" by linarith
  moreover have "elog x = int (ilog2 n)" using True by (simp add: elog_def n_def)
  moreover have "(2::rat) powi (int (ilog2 n) + 1) = 2 ^ Suc (ilog2 n)"
    by (metis of_nat_Suc power_int_of_nat add.commute)
  ultimately show ?thesis by simp
next
  case False
  define y where "y = 1 / x"
  have y: "1 < y" using False assms by (simp add: y_def)
  define m where "m = nat (\<lceil>y\<rceil> - 1)"
  have m: "0 < m" using y by (simp add: m_def)
  have my: "of_nat m < y" "y \<le> of_nat m + 1"
    using y ceiling_correct [of y] by (auto simp: m_def of_nat_nat)
  have "(2::rat) ^ ilog2 m \<le> of_nat m" "of_nat m + 1 \<le> (2::rat) ^ Suc (ilog2 m)"
    using ilog2_bounds [OF m] by (auto simp flip: of_nat_power of_nat_Suc simp del: power_Suc)
       (metis Suc_leI of_nat_Suc of_nat_le_iff of_nat_numeral of_nat_power add.commute)
  with my have b: "(2::rat) ^ ilog2 m < y \<and> y \<le> (2::rat) ^ Suc (ilog2 m)" by linarith
  have e: "elog x = - int (ilog2 m) - 1" using False by (simp add: elog_def m_def y_def)
  have p1: "(2::rat) powi elog x = 1 / 2 ^ Suc (ilog2 m)"
    by (simp add: e power_int_diff power_int_minus field_simps)
  have p2: "(2::rat) powi (elog x + 1) = 1 / 2 ^ ilog2 m"
    by (simp add: e power_int_minus field_simps)
  have x: "x = 1 / y" by (simp add: y_def)
  have "1 / 2 ^ Suc (ilog2 m) \<le> 1 / y" "1 / y < 1 / 2 ^ ilog2 m"
    using b y by (auto simp: divide_simps)
  then show ?thesis unfolding p1 p2 unfolding x by simp
qed

section \<open>Rounding\<close>

definition round_he :: "rat \<Rightarrow> int" where
  "round_he x = (let f = \<lfloor>x\<rfloor>; d = x - of_int f in
     if d < 1/2 then f else if d > 1/2 then f + 1 else if even f then f else f + 1)"

lemma round_he_of_int [simp]: "round_he (of_int k) = k"
  by (simp add: round_he_def Let_def)

lemma round_he_mono: "x \<le> y \<Longrightarrow> round_he x \<le> round_he y"
proof -
  assume le: "x \<le> y"
  have f: "\<lfloor>x\<rfloor> \<le> \<lfloor>y\<rfloor>" using le by (rule floor_mono)
  have b: "\<lfloor>z\<rfloor> \<le> round_he z \<and> round_he z \<le> \<lfloor>z\<rfloor> + 1" for z by (simp add: round_he_def Let_def)
  show ?thesis
  proof (cases "\<lfloor>x\<rfloor> = \<lfloor>y\<rfloor>")
    case True
    then show ?thesis using le by (auto simp: round_he_def Let_def)
  next
    case False
    with f b [of x] b [of y] show ?thesis by linarith
  qed
qed

lemma round_he_le: "x \<le> of_int k \<Longrightarrow> round_he x \<le> k"
  using round_he_mono [of x "of_int k"] by simp

lemma round_he_ge: "of_int k \<le> x \<Longrightarrow> k \<le> round_he x"
  using round_he_mono [of "of_int k" x] by simp

definition ulp_exp :: "rat \<Rightarrow> int" where
  "ulp_exp x = max (elog x - 52) (- 1074)"

definition fl_mag :: "rat \<Rightarrow> rat" where
  "fl_mag x = (if x = 0 then 0
     else of_int (round_he (x / 2 powi ulp_exp x)) * 2 powi ulp_exp x)"

definition float_top :: rat where
  "float_top = 2 ^ 1024"

definition fl :: "rat \<Rightarrow> pyfloat" where
  "fl x = (let m = fl_mag \<bar>x\<bar> in
     if float_top \<le> m then FInf (x < 0) else FFin (if x < 0 then - m else m))"

lemma elog_mono: "0 < x \<Longrightarrow> x \<le> y \<Longrightarrow> elog x \<le> elog y"
proof (rule ccontr)
  assume x: "0 < x" "x \<le> y" and "\<not> elog x \<le> elog y"
  then have "(2::rat) powi (elog y + 1) \<le> 2 powi elog x" by (intro power_int_increasing) auto
  with elog_bounds [of x] elog_bounds [of y] x show False by linarith
qed

lemma ulp_exp_mono: "0 < x \<Longrightarrow> x \<le> y \<Longrightarrow> ulp_exp x \<le> ulp_exp y"
  using elog_mono [of x y] by (auto simp: ulp_exp_def)

lemma fl_mag_nonneg: "0 \<le> x \<Longrightarrow> 0 \<le> fl_mag x"
  using round_he_ge [of 0 "x / 2 powi ulp_exp x"] by (auto simp: fl_mag_def)

lemma fl_mag_upper:
  assumes "0 < x"
  shows "fl_mag x \<le> 2 powi (ulp_exp x + 53)"
proof -
  have "x \<le> 2 powi (elog x + 1)" using elog_bounds [OF assms] by simp
  also have "\<dots> \<le> 2 powi (ulp_exp x + 53)" by (intro power_int_increasing) (auto simp: ulp_exp_def)
  finally have "x / 2 powi ulp_exp x \<le> of_int (2 ^ 53)"
    by (simp add: power_int_add field_simps)
  then have "round_he (x / 2 powi ulp_exp x) \<le> 2 ^ 53" by (rule round_he_le)
  then have "rat_of_int (round_he (x / 2 powi ulp_exp x)) \<le> rat_of_int (2 ^ 53)"
    by (simp only: of_int_le_iff)
  then have "rat_of_int (round_he (x / 2 powi ulp_exp x)) * 2 powi ulp_exp x
      \<le> rat_of_int (2 ^ 53) * 2 powi ulp_exp x"
    by (intro mult_right_mono) auto
  with assms show ?thesis by (simp add: fl_mag_def power_int_add mult.commute)
qed

lemma fl_mag_lower:
  assumes "0 < y" "ulp_exp y = elog y - 52"
  shows "2 powi (ulp_exp y + 52) \<le> fl_mag y"
proof -
  have "2 powi (ulp_exp y + 52) \<le> y" using elog_bounds [OF assms(1)] assms(2) by simp
  then have "of_int (2 ^ 52) \<le> y / 2 powi ulp_exp y" by (simp add: power_int_add field_simps)
  then have "2 ^ 52 \<le> round_he (y / 2 powi ulp_exp y)" by (rule round_he_ge)
  then have "rat_of_int (2 ^ 52) \<le> rat_of_int (round_he (y / 2 powi ulp_exp y))"
    by (simp only: of_int_le_iff)
  then have "rat_of_int (2 ^ 52) * 2 powi ulp_exp y
      \<le> rat_of_int (round_he (y / 2 powi ulp_exp y)) * 2 powi ulp_exp y"
    by (intro mult_right_mono) auto
  moreover have "fl_mag y = rat_of_int (round_he (y / 2 powi ulp_exp y)) * 2 powi ulp_exp y"
    using assms(1) by (simp add: fl_mag_def)
  moreover have "(2::rat) powi (ulp_exp y + 52) = rat_of_int (2 ^ 52) * 2 powi ulp_exp y"
    by (simp add: power_int_add)
  ultimately show ?thesis by simp
qed

lemma fl_mag_mono:
  assumes "0 \<le> x" "x \<le> y"
  shows "fl_mag x \<le> fl_mag y"
proof (cases "x = 0")
  case True
  with assms fl_mag_nonneg [of y] show ?thesis by (simp add: fl_mag_def)
next
  case False
  with assms have x: "0 < x" "0 < y" by auto
  have u: "ulp_exp x \<le> ulp_exp y" using x(1) assms(2) by (rule ulp_exp_mono)
  show ?thesis
  proof (cases "ulp_exp x = ulp_exp y")
    case True
    have "x / 2 powi ulp_exp y \<le> y / 2 powi ulp_exp y"
      using assms by (intro divide_right_mono) auto
    then have "round_he (x / 2 powi ulp_exp y) \<le> round_he (y / 2 powi ulp_exp y)"
      by (rule round_he_mono)
    with x True show ?thesis by (simp add: fl_mag_def)
  next
    case False
    with u have lt: "ulp_exp x < ulp_exp y" by simp
    then have ey: "ulp_exp y = elog y - 52" by (auto simp: ulp_exp_def)
    have "fl_mag x \<le> 2 powi (ulp_exp x + 53)" by (rule fl_mag_upper [OF x(1)])
    also have "\<dots> \<le> 2 powi (ulp_exp y + 52)" using lt by (intro power_int_increasing) auto
    also have "\<dots> \<le> fl_mag y" by (rule fl_mag_lower [OF x(2) ey])
    finally show ?thesis .
  qed
qed

text \<open>A value with at most 53 significant bits rounds to itself.\<close>

lemma fl_mag_dyadic:
  assumes "0 < k" "k < 2 ^ 53" "- 1074 \<le> e"
  shows "fl_mag (of_int k * 2 powi e) = of_int k * 2 powi e"
proof -
  define x :: rat where "x = of_int k * 2 powi e"
  have x: "0 < x" using assms by (simp add: x_def)
  have "elog x < 53 + e"
  proof (rule ccontr)
    assume "\<not> elog x < 53 + e"
    then have "(2::rat) powi (53 + e) \<le> 2 powi elog x" by (intro power_int_increasing) auto
    then have "rat_of_int (2 ^ 53) * 2 powi e \<le> 2 powi elog x" by (simp add: power_int_add)
    with elog_bounds [OF x] have "rat_of_int (2 ^ 53) * 2 powi e \<le> x" by linarith
    then have "rat_of_int (2 ^ 53) * 2 powi e \<le> rat_of_int k * 2 powi e" by (simp only: x_def)
    then have "rat_of_int (2 ^ 53) \<le> rat_of_int k"
      by (simp only: mult_le_cancel_right_pos zero_less_power_int zero_less_numeral)
    with assms show False by (simp only: of_int_le_iff)
  qed
  then obtain u where u: "u = ulp_exp x" "u \<le> e" using assms(3) by (simp add: ulp_exp_def)
  define j where "j = nat (e - u)"
  have "e = int j + u" using u(2) by (simp add: j_def)
  then have "(2::rat) powi e = 2 ^ j * 2 powi u" by (simp add: power_int_add)
  then have xk: "x = of_int (k * 2 ^ j) * 2 powi u" by (simp add: x_def)
  then have "x / 2 powi u = of_int (k * 2 ^ j)" by simp
  then have "round_he (x / 2 powi u) = k * 2 ^ j" by (metis round_he_of_int)
  with x have "fl_mag x = of_int (k * 2 ^ j) * 2 powi u"
    by (simp add: fl_mag_def u(1) [symmetric])
  then have "fl_mag x = x" by (simp only: xk [symmetric])
  then show ?thesis by (simp add: x_def)
qed

lemma fl_mag_int: "0 < n \<Longrightarrow> n < 2 ^ 53 \<Longrightarrow> fl_mag (of_int n) = of_int n"
  using fl_mag_dyadic [of n 0] by simp

section \<open>The operations the sources use\<close>

text \<open>An integer operand of a float operation is converted first; one too large to convert raises
  OverflowError, which is \<open>None\<close> here.\<close>

definition float_of_int :: "int \<Rightarrow> pyfloat option" where
  "float_of_int n = (case fl (of_int n) of FFin r \<Rightarrow> Some (FFin r) | _ \<Rightarrow> None)"

fun fsub :: "pyfloat \<Rightarrow> pyfloat \<Rightarrow> pyfloat" where
  "fsub (FFin a) (FFin b) = fl (a - b)"
| "fsub FNan _ = FNan"
| "fsub _ FNan = FNan"
| "fsub (FInf a) (FInf b) = (if a = b then FNan else FInf a)"
| "fsub (FInf a) (FFin _) = FInf a"
| "fsub (FFin _) (FInf b) = FInf (\<not> b)"

text \<open>Division and multiplication by a non-zero finite constant, the only uses.\<close>

fun fdiv_const :: "pyfloat \<Rightarrow> rat \<Rightarrow> pyfloat" where
  "fdiv_const (FFin a) c = fl (a / c)"
| "fdiv_const (FInf s) c = FInf (s \<noteq> (c < 0))"
| "fdiv_const FNan c = FNan"

fun fmul_const :: "pyfloat \<Rightarrow> rat \<Rightarrow> pyfloat" where
  "fmul_const (FFin a) c = fl (a * c)"
| "fmul_const (FInf s) c = FInf (s \<noteq> (c < 0))"
| "fmul_const FNan c = FNan"

fun fabs :: "pyfloat \<Rightarrow> pyfloat" where
  "fabs (FFin a) = FFin \<bar>a\<bar>"
| "fabs (FInf _) = FInf False"
| "fabs FNan = FNan"

text \<open>\<open>a < b\<close>: false whenever one side is NaN.\<close>

fun flt :: "pyfloat \<Rightarrow> pyfloat \<Rightarrow> bool" where
  "flt FNan _ = False"
| "flt _ FNan = False"
| "flt (FFin a) (FFin b) = (a < b)"
| "flt (FInf a) (FFin _) = a"
| "flt (FFin _) (FInf b) = (\<not> b)"
| "flt (FInf a) (FInf b) = (a \<and> \<not> b)"

text \<open>\<open>a <= b\<close> and \<open>max(a, b)\<close> (Python keeps the first operand unless the next is greater).\<close>

definition fle :: "pyfloat \<Rightarrow> pyfloat \<Rightarrow> bool" where
  "fle a b = (flt a b \<or> (a = b \<and> a \<noteq> FNan))"

definition fmax :: "pyfloat \<Rightarrow> pyfloat \<Rightarrow> pyfloat" where
  "fmax a b = (if flt a b then b else a)"

definition trunc :: "rat \<Rightarrow> int" where
  "trunc r = (if r < 0 then \<lceil>r\<rceil> else \<lfloor>r\<rfloor>)"

text \<open>A quotient exceeds a whole bound after rounding exactly when it does before: what makes the
  freshness and staleness comparisons exact.\<close>

lemma below_float_top: "n < 2 ^ 53 \<Longrightarrow> of_int n < float_top"
proof -
  assume "n < 2 ^ 53"
  then have "rat_of_int n < rat_of_int (2 ^ 53)" by (simp only: of_int_less_iff)
  also have "\<dots> = 2 ^ 53" by simp
  also have "(2::rat) ^ 53 < 2 ^ 1024" by (rule power_strict_increasing) auto
  finally show ?thesis by (simp add: float_top_def)
qed

lemma fl_int:
  assumes "0 < n" "n < 2 ^ 53"
  shows "fl (of_int n) = FFin (of_int n)"
  using assms fl_mag_int [OF assms] below_float_top [OF assms(2)] by (simp add: fl_def)

lemma flt_int_fl:
  assumes "flt (FFin (of_int n)) (fl q)" "0 \<le> q" "0 < n" "n < 2 ^ 53"
  shows "of_int n < q"
proof (rule ccontr)
  assume "\<not> of_int n < q"
  then have "fl_mag q \<le> fl_mag (of_int n)" using assms(2) by (intro fl_mag_mono) auto
  then have le: "fl_mag q \<le> of_int n" using fl_mag_int [OF assms(3,4)] by simp
  then have "fl q = FFin (fl_mag q)"
    using below_float_top [OF assms(4)] assms(2) by (simp add: fl_def)
  with assms(1) le show False by simp
qed

lemma fl_above:
  assumes "of_int n + 1 / 1024 \<le> q" "0 \<le> n" "n < 2 ^ 42"
  shows "flt (FFin (of_int n)) (fl q)"
proof -
  define r :: rat where "r = of_int n + 1 / 1024"
  have r: "r = of_int (n * 1024 + 1) * 2 powi (- 10)"
    by (simp add: r_def power_int_minus field_simps)
  have "fl_mag r = r" unfolding r by (rule fl_mag_dyadic) (use assms in auto)
  moreover have "0 \<le> r" using assms(2) by (simp add: r_def)
  then have "fl_mag r \<le> fl_mag q" using assms(1) by (intro fl_mag_mono) (auto simp: r_def)
  ultimately have m: "of_int n < fl_mag q" by (simp add: r_def)
  have q: "0 \<le> q" using assms(1) \<open>0 \<le> r\<close> by (simp add: r_def)
  show ?thesis
  proof (cases "float_top \<le> fl_mag q")
    case True
    with q show ?thesis by (simp add: fl_def)
  next
    case False
    with q m show ?thesis by (simp add: fl_def)
  qed
qed

end
