(* ===== verification/Py_Prelude.thy ===== *)
theory Py_Prelude
  imports Py_Float "HOL-Library.AList" "HOL-Library.Char_ord" "HOL-Library.List_Lexorder"
begin

text \<open>
  The Python values and built-ins the gateway's modules share: JSON values, dicts as association
  lists with \<open>dict.get\<close>, item assignment and \<open>**\<close>-merging, truth values, raised exceptions as
  values, and the string methods the sources call. A str is its list of characters; the model is
  of ASCII text (\<open>str.upper\<close>, \<open>str.strip\<close>, \<open>isspace\<close> and \<open>len\<close> on other text are not modelled), and a
  bytes value is a string too, one \<open>char\<close> per byte, so encoding text is the identity.
\<close>

section \<open>Exceptions\<close>

text \<open>The exceptions the modelled statements raise; \<open>OtherError c m\<close> is one raised by code outside
  the repository, of class \<open>c\<close> with message \<open>m\<close>.\<close>

datatype exc =
    AttributeError | TypeError | KeyError | IndexError | OverflowError
  | ValueError | BinasciiError | UnicodeDecodeError
  | OSError string | RuntimeError string | LookupError string | OtherError string string

text \<open>\<open>except ValueError\<close> also catches the subclasses of ValueError.\<close>

fun is_value_error :: "exc \<Rightarrow> bool" where
  "is_value_error ValueError = True"
| "is_value_error BinasciiError = True"
| "is_value_error UnicodeDecodeError = True"
| "is_value_error _ = False"

fun is_os_error :: "exc \<Rightarrow> bool" where
  "is_os_error (OSError _) = True"
| "is_os_error _ = False"

section \<open>JSON values and dicts\<close>

datatype json =
    JNull | JBool bool | JInt int | JFloat pyfloat | JStr string
  | JArr "json list" | JObj "(string \<times> json) list"

type_synonym dict = "(string \<times> json) list"

abbreviation JOpt :: "string option \<Rightarrow> json" where
  "JOpt x \<equiv> (case x of None \<Rightarrow> JNull | Some s \<Rightarrow> JStr s)"

text \<open>\<open>d.get(k)\<close> and \<open>d.get(k, x)\<close> on a dict; \<open>d[k] = v\<close> is \<open>AList.update\<close>, which keeps a present key's
  position and appends a new one.\<close>

definition get_def :: "dict \<Rightarrow> string \<Rightarrow> json \<Rightarrow> json" where
  "get_def d k x = (case map_of d k of None \<Rightarrow> x | Some v \<Rightarrow> v)"

abbreviation get :: "dict \<Rightarrow> string \<Rightarrow> json" where
  "get d k \<equiv> get_def d k JNull"

text \<open>\<open>v.get(k)\<close> on a value that need not be a dict.\<close>

fun py_get :: "json \<Rightarrow> string \<Rightarrow> exc + json" where
  "py_get (JObj d) k = Inr (get d k)"
| "py_get _ _ = Inl AttributeError"

text \<open>\<open>v[k]\<close> for a str \<open>k\<close>.\<close>

fun item :: "json \<Rightarrow> string \<Rightarrow> exc + json" where
  "item (JObj d) k = (case map_of d k of None \<Rightarrow> Inl KeyError | Some v \<Rightarrow> Inr v)"
| "item _ k = Inl TypeError"

text \<open>A list or a dict cannot be looked up in a set or a dict: \<open>TypeError\<close>.\<close>

fun hashable :: "json \<Rightarrow> bool" where
  "hashable (JArr _) = False"
| "hashable (JObj _) = False"
| "hashable _ = True"

text \<open>What \<open>for x in v\<close> goes through.\<close>

fun items_of :: "json \<Rightarrow> exc + json list" where
  "items_of (JArr xs) = Inr xs"
| "items_of (JObj d) = Inr (map (\<lambda>(k, v). JStr k) d)"
| "items_of (JStr s) = Inr (map (\<lambda>c. JStr [c]) s)"
| "items_of _ = Inl TypeError"

text \<open>The truth value of \<open>v\<close> in a condition.\<close>

fun truthy :: "json \<Rightarrow> bool" where
  "truthy JNull = False"
| "truthy (JBool b) = b"
| "truthy (JInt i) = (i \<noteq> 0)"
| "truthy (JFloat f) = (f \<noteq> FFin 0)"
| "truthy (JStr s) = (s \<noteq> [])"
| "truthy (JArr xs) = (xs \<noteq> [])"
| "truthy (JObj d) = (d \<noteq> [])"

text \<open>\<open>a or b\<close>.\<close>

definition py_or :: "json \<Rightarrow> json \<Rightarrow> json" where
  "py_or a b = (if truthy a then a else b)"

fun is_str :: "json \<Rightarrow> bool" where
  "is_str (JStr _) = True"
| "is_str _ = False"

definition str_or_none :: "json \<Rightarrow> string option" where
  "str_or_none v = (case v of JStr s \<Rightarrow> Some s | _ \<Rightarrow> None)"

text \<open>A number as a float; \<open>bool\<close> is a subclass of \<open>int\<close>, and Python compares an int with a float
  by their exact values.\<close>

fun num_of :: "json \<Rightarrow> pyfloat option" where
  "num_of (JInt i) = Some (FFin (of_int i))"
| "num_of (JBool b) = Some (FFin (if b then 1 else 0))"
| "num_of (JFloat f) = Some f"
| "num_of _ = None"

lemma get_def_update [simp]:
  "get_def (AList.update k v d) k' x = (if k' = k then v else get_def d k' x)"
  by (simp add: get_def_def update_conv)

lemma get_def_Cons [simp]: "get_def ((k, v) # d) k' x = (if k' = k then v else get_def d k' x)"
  by (simp add: get_def_def)

lemma get_def_Nil [simp]: "get_def [] k x = x"
  by (simp add: get_def_def)

section \<open>Strings\<close>

definition py_isspace :: "char \<Rightarrow> bool" where
  "py_isspace c = (let n = of_char c :: nat in n = 32 \<or> (9 \<le> n \<and> n \<le> 13) \<or> (28 \<le> n \<and> n \<le> 31))"

definition is_digit :: "char \<Rightarrow> bool" where
  "is_digit c = (let n = of_char c :: nat in 48 \<le> n \<and> n \<le> 57)"

definition is_alpha :: "char \<Rightarrow> bool" where
  "is_alpha c = (let n = of_char c :: nat in (65 \<le> n \<and> n \<le> 90) \<or> (97 \<le> n \<and> n \<le> 122))"

definition is_alnum :: "char \<Rightarrow> bool" where
  "is_alnum c = (is_digit c \<or> is_alpha c)"

definition upper_char :: "char \<Rightarrow> char" where
  "upper_char c = (let n = of_char c :: nat in if 97 \<le> n \<and> n \<le> 122 then char_of (n - 32) else c)"

definition lower_char :: "char \<Rightarrow> char" where
  "lower_char c = (let n = of_char c :: nat in if 65 \<le> n \<and> n \<le> 90 then char_of (n + 32) else c)"

definition upper :: "string \<Rightarrow> string" where
  "upper s = map upper_char s"

definition lower :: "string \<Rightarrow> string" where
  "lower s = map lower_char s"

definition lstrip :: "string \<Rightarrow> string" where
  "lstrip s = dropWhile py_isspace s"

definition rstrip :: "string \<Rightarrow> string" where
  "rstrip s = rev (dropWhile py_isspace (rev s))"

definition strip :: "string \<Rightarrow> string" where
  "strip s = rstrip (lstrip s)"

definition rstrip_char :: "char \<Rightarrow> string \<Rightarrow> string" where
  "rstrip_char c s = rev (dropWhile (\<lambda>x. x = c) (rev s))"

definition startswith :: "string \<Rightarrow> string \<Rightarrow> bool" where
  "startswith s p = (take (length p) s = p)"

definition endswith :: "string \<Rightarrow> string \<Rightarrow> bool" where
  "endswith s p = (length p \<le> length s \<and> drop (length s - length p) s = p)"

text \<open>\<open>s.split(c)\<close> for a one-character separator.\<close>

fun split_on :: "char \<Rightarrow> string \<Rightarrow> string list" where
  "split_on c [] = [[]]"
| "split_on c (x # xs) =
     (if x = c then [] # split_on c xs
      else case split_on c xs of [] \<Rightarrow> [[x]] | y # ys \<Rightarrow> (x # y) # ys)"

text \<open>\<open>s.partition(c)\<close>: what is before and after the first \<open>c\<close>.\<close>

definition partition_on :: "char \<Rightarrow> string \<Rightarrow> string \<times> string" where
  "partition_on c s = (takeWhile (\<lambda>x. x \<noteq> c) s, drop 1 (dropWhile (\<lambda>x. x \<noteq> c) s))"

text \<open>\<open>s.find(p, i)\<close>, -1 (here \<open>None\<close>) when \<open>p\<close> does not occur from \<open>i\<close> on.\<close>

fun find_sub :: "string \<Rightarrow> string \<Rightarrow> nat option" where
  "find_sub p [] = (if p = [] then Some 0 else None)"
| "find_sub p (x # xs) =
     (if startswith (x # xs) p then Some 0 else map_option Suc (find_sub p xs))"

definition find_from :: "string \<Rightarrow> string \<Rightarrow> nat \<Rightarrow> nat option" where
  "find_from p s i = (if length s < i then None else map_option (\<lambda>n. n + i) (find_sub p (drop i s)))"

text \<open>\<open>s.replace(p, r)\<close> for a non-empty \<open>p\<close>.\<close>

function replace :: "string \<Rightarrow> string \<Rightarrow> string \<Rightarrow> string" where
  "replace p r s = (if p = [] then s else
     case s of [] \<Rightarrow> []
     | x # xs \<Rightarrow> if startswith s p then r @ replace p r (drop (length p) s)
                 else x # replace p r xs)"
  by pat_completeness auto
termination
  by (relation "measure (\<lambda>(p, r, s). length s)") auto

declare replace.simps [simp del]

definition join :: "string \<Rightarrow> string list \<Rightarrow> string" where
  "join sep xs = concat (case xs of [] \<Rightarrow> [] | y # ys \<Rightarrow> y # map (\<lambda>z. sep @ z) ys)"

lemma join_simps [simp]:
  "join sep [] = []" "join sep [x] = x" "join sep (x # y # ys) = x @ sep @ join sep (y # ys)"
  by (simp_all add: join_def)

lemma char_eq_iff_code: "c = d \<longleftrightarrow> (of_char c :: nat) = of_char d"
  by (metis char_of_char)

lemma startswith_simps [simp]:
  "startswith s []" "\<not> startswith [] (d # p)" "startswith (c # s) (d # p) \<longleftrightarrow> c = d \<and> startswith s p"
  by (auto simp: startswith_def)

lemma startswith_append [simp]: "startswith (p @ s) p"
  by (simp add: startswith_def)

lemma startswith_iff: "startswith s p \<longleftrightarrow> (\<exists>t. s = p @ t)"
  unfolding startswith_def by (metis append_eq_conv_conj append_take_drop_id)

lemma split_on_nonempty [simp]: "split_on c s \<noteq> []"
  by (induction s) (auto split: list.splits)

lemma split_on_free: "c \<notin> set s \<Longrightarrow> split_on c s = [s]"
  by (induction s) (auto split: list.splits)

lemma split_on_sep: "c \<notin> set a \<Longrightarrow> split_on c (a @ c # s) = a # split_on c s"
  by (induction a) (auto split: list.splits)

lemma hd_split_on: "hd (split_on c (a @ c # s)) = hd (split_on c a)"
  by (induction a) (auto split: list.splits)

section \<open>Integers as text\<close>

definition digit :: "nat \<Rightarrow> char" where
  "digit n = char_of (48 + n)"

fun nat_str :: "nat \<Rightarrow> string" where
  "nat_str n = (if n < 10 then [digit n] else nat_str (n div 10) @ [digit (n mod 10)])"

declare nat_str.simps [simp del]

definition int_str :: "int \<Rightarrow> string" where
  "int_str i = (if i < 0 then ''-'' @ nat_str (nat (- i)) else nat_str (nat i))"

definition digit_val :: "char \<Rightarrow> nat" where
  "digit_val c = of_char c - 48"

definition digits_val :: "string \<Rightarrow> nat" where
  "digits_val ds = foldl (\<lambda>n c. 10 * n + digit_val c) 0 ds"

lemma digit_props [simp]:
  "n < 10 \<Longrightarrow> is_digit (digit n)" "n < 10 \<Longrightarrow> digit_val (digit n) = n"
  by (simp_all add: is_digit_def digit_def digit_val_def Let_def of_char_of)

lemma digits_val_snoc: "digits_val (ds @ [c]) = 10 * digits_val ds + digit_val c"
  by (simp add: digits_val_def)

lemma nat_str_digits: "\<forall>c \<in> set (nat_str n). is_digit c"
proof (induction n rule: nat_str.induct)
  case (1 n)
  then show ?case by (cases "n < 10") (auto simp: nat_str.simps [of n])
qed

lemma digits_val_nat_str [simp]: "digits_val (nat_str n) = n"
proof (induction n rule: nat_str.induct)
  case (1 n)
  show ?case
  proof (cases "n < 10")
    case True
    then show ?thesis by (simp add: nat_str.simps [of n] digits_val_def)
  next
    case False
    with 1 show ?thesis by (simp add: nat_str.simps [of n] digits_val_snoc)
  qed
qed

lemma nat_str_nonempty [simp]: "nat_str n \<noteq> []"
  by (simp add: nat_str.simps [of n])

lemma digit_code [simp]: "n < 10 \<Longrightarrow> of_char (digit n) = 48 + n"
  by (simp add: digit_def of_char_of)

lemma nat_str_leading: "hd (nat_str n) = CHR ''0'' \<longleftrightarrow> n = 0"
proof (induction n rule: nat_str.induct)
  case (1 n)
  show ?case
  proof (cases "n < 10")
    case True
    then show ?thesis by (simp add: nat_str.simps [of n] char_eq_iff_code)
  next
    case False
    with 1 show ?thesis by (simp add: nat_str.simps [of n])
  qed
qed

text \<open>\<open>int(s)\<close>: surrounding white space, an optional sign, digits with single underscores between
  them, and at most 4300 digits (\<open>sys.int_info.default_max_str_digits\<close>).\<close>

fun udigits :: "bool \<Rightarrow> string \<Rightarrow> string option" where
  "udigits p [] = (if p then Some [] else None)"
| "udigits p (c # cs) =
     (if is_digit c then map_option (\<lambda>ds. c # ds) (udigits True cs)
      else if c = CHR ''_'' \<and> p then udigits False cs else None)"

definition int_of_str :: "string \<Rightarrow> exc + int" where
  "int_of_str s = (let t = strip s;
       neg = startswith t ''-'';
       u = (if neg \<or> startswith t ''+'' then drop 1 t else t) in
     case udigits False u of
       None \<Rightarrow> Inl ValueError
     | Some ds \<Rightarrow> if 4300 < length ds then Inl ValueError
                  else Inr (if neg then - int (digits_val ds) else int (digits_val ds)))"

text \<open>\<open>int(v)\<close> on a JSON value.\<close>

fun py_int :: "json \<Rightarrow> exc + int" where
  "py_int (JInt i) = Inr i"
| "py_int (JBool b) = Inr (if b then 1 else 0)"
| "py_int (JFloat (FFin r)) = Inr (trunc r)"
| "py_int (JFloat (FInf _)) = Inl OverflowError"
| "py_int (JFloat FNan) = Inl ValueError"
| "py_int (JStr s) = int_of_str s"
| "py_int _ = Inl TypeError"

lemma strip_digits: "\<forall>c \<in> set t. is_digit c \<Longrightarrow> strip t = t"
proof -
  assume d: "\<forall>c \<in> set t. is_digit c"
  have drop: "dropWhile py_isspace u = u" if "\<forall>c \<in> set u. is_digit c" for u
    using that by (cases u) (auto simp: py_isspace_def is_digit_def Let_def)
  from drop [OF d] drop [of "rev t"] d show ?thesis by (simp add: strip_def lstrip_def rstrip_def)
qed

lemma udigits_digits: "\<forall>c \<in> set s. is_digit c \<Longrightarrow> udigits p s = (if s = [] \<and> \<not> p then None else Some s)"
  by (induction s arbitrary: p) auto

lemma length_nat_str: "n < 10 ^ k \<Longrightarrow> 0 < k \<Longrightarrow> length (nat_str n) \<le> k"
proof (induction k arbitrary: n)
  case (Suc k)
  show ?case
  proof (cases "n < 10")
    case True
    then show ?thesis by (simp add: nat_str.simps [of n])
  next
    case False
    with Suc.prems have "n div 10 < 10 ^ k" "0 < k" by (auto simp: less_mult_imp_div_less mult.commute intro: Suc_leI gr0I)
    with Suc.IH [of "n div 10"] False show ?thesis by (simp add: nat_str.simps [of n])
  qed
qed simp

section \<open>Formatting\<close>

text \<open>\<open>repr\<close> of a str: single quotes unless the text holds one and no double quote; backslash, the
  quote, and characters outside 32..126 are escaped.\<close>

definition hex_digit :: "nat \<Rightarrow> char" where
  "hex_digit n = (if n < 10 then char_of (48 + n) else char_of (87 + n))"

definition repr_char :: "char \<Rightarrow> char \<Rightarrow> string" where
  "repr_char q c = (let n = of_char c :: nat in
     if c = q \<or> n = 92 then [CHR 0x5C, c]
     else if n = 10 then [CHR 0x5C, CHR ''n'']
     else if n = 13 then [CHR 0x5C, CHR ''r'']
     else if n = 9 then [CHR 0x5C, CHR ''t'']
     else if n < 32 \<or> 126 < n then [CHR 0x5C, CHR ''x'', hex_digit (n div 16), hex_digit (n mod 16)]
     else [c])"

definition repr_str :: "string \<Rightarrow> string" where
  "repr_str s = (let q = (if CHR 0x27 \<in> set s \<and> CHR 0x22 \<notin> set s then CHR 0x22 else CHR 0x27) in
     q # concat (map (repr_char q) s) @ [q])"

definition repr_strs :: "string list \<Rightarrow> string" where
  "repr_strs xs = ''['' @ join '', '' (map repr_str xs) @ '']''"

text \<open>\<open>f"{x:.1f}"\<close> and \<open>f"{x:.0f}"\<close> of a finite float: the exact value rounded to the digits shown,
  ties to even.\<close>

definition fixed_str :: "nat \<Rightarrow> rat \<Rightarrow> string" where
  "fixed_str k r = (let n = nat (round_he (\<bar>r\<bar> * 10 ^ k));
       sgn = (if r < 0 then ''-'' else []);
       whole = nat_str (n div 10 ^ k);
       frac = nat_str (n mod 10 ^ k) in
     sgn @ whole @ (if k = 0 then [] else ''.'' @ replicate (k - length frac) (CHR ''0'') @ frac))"

fun fmt_fixed :: "nat \<Rightarrow> pyfloat \<Rightarrow> string" where
  "fmt_fixed k (FFin r) = fixed_str k r"
| "fmt_fixed k (FInf s) = (if s then ''-inf'' else ''inf'')"
| "fmt_fixed k FNan = ''nan''"

lemma find_SomeD: "find P xs = Some x \<Longrightarrow> x \<in> set xs \<and> P x"
  by (induction xs) (auto split: if_splits)

section \<open>Error values\<close>

text \<open>The next step of a computation that may raise, and its case rule.\<close>

definition bindE :: "'e + 'a \<Rightarrow> ('a \<Rightarrow> 'e + 'b) \<Rightarrow> 'e + 'b" where
  "bindE r f = (case r of Inl e \<Rightarrow> Inl e | Inr x \<Rightarrow> f x)"

lemma bindE_simps [simp]: "bindE (Inl e) f = Inl e" "bindE (Inr x) f = f x"
  by (simp_all add: bindE_def)

lemma bindE_Inr_iff: "bindE r f = Inr y \<longleftrightarrow> (\<exists>x. r = Inr x \<and> f x = Inr y)"
  by (cases r) auto

end
