(* ===== verification/Py_Json.thy ===== *)
theory Py_Json
  imports Py_Prelude
begin

text \<open>
  \<open>json.dumps(v, separators=(",", ":"), ensure_ascii=False)\<close> and \<open>json.loads\<close>, the two calls every
  evidence file of the gateway goes through. The printer's floats use \<open>float.__repr__\<close> (the shortest
  decimal that rounds back). The reader is the C scanner's grammar, NaN and Infinity included, with
  a nesting budget that the text's length always covers. The main lemma is the round trip
  \<open>loads_dumps\<close> for values without fractional floats.
\<close>

section \<open>Printing\<close>

definition esc_char :: "char \<Rightarrow> string" where
  "esc_char c = (let n = of_char c :: nat in
     if n = 34 \<or> n = 92 then [CHR 0x5C, c]
     else if n = 10 then [CHR 0x5C, CHR ''n''] else if n = 13 then [CHR 0x5C, CHR ''r'']
     else if n = 9 then [CHR 0x5C, CHR ''t''] else if n = 8 then [CHR 0x5C, CHR ''b'']
     else if n = 12 then [CHR 0x5C, CHR ''f'']
     else if n < 32 then [CHR 0x5C, CHR ''u'', CHR ''0'', CHR ''0'', hex_digit (n div 16), hex_digit (n mod 16)]
     else [c])"

definition dump_str :: "string \<Rightarrow> string" where
  "dump_str s = CHR 0x22 # concat (map esc_char s) @ [CHR 0x22]"

text \<open>Shortest repr: for each number of significant digits, the two neighbouring decimals that
  round back to \<open>x\<close>, nearest first; a double needs at most 17.\<close>

definition pow10 :: "int \<Rightarrow> rat" where
  "pow10 e = (if 0 \<le> e then 10 ^ nat e else 1 / 10 ^ nat (- e))"

fun dec_exp :: "nat \<Rightarrow> int \<Rightarrow> rat \<Rightarrow> int" where
  "dec_exp 0 e x = e"
| "dec_exp (Suc n) e x = (if x < pow10 e then dec_exp n (e - 1) x
     else if pow10 (e + 1) \<le> x then dec_exp n (e + 1) x else e)"

definition short_digits :: "nat \<Rightarrow> rat \<Rightarrow> (nat \<times> int) option" where
  "short_digits k x = (let e = dec_exp 700 0 x; u = e - int k + 1;
       lo = \<lfloor>x / pow10 u\<rfloor>; ok = (\<lambda>m. fl (of_int m * pow10 u) = FFin x);
       d = (\<lambda>m. \<bar>of_int m * pow10 u - x\<bar>) in
     if ok lo \<and> (\<not> ok (lo + 1) \<or> d lo \<le> d (lo + 1)) then Some (nat lo, u)
     else if ok (lo + 1) then Some (nat (lo + 1), u) else None)"

fun first_short :: "nat list \<Rightarrow> rat \<Rightarrow> nat \<times> int" where
  "first_short [] x = (0, 0)"
| "first_short (k # ks) x = (case short_digits k x of Some r \<Rightarrow> r | None \<Rightarrow> first_short ks x)"

definition layout_digits :: "string \<Rightarrow> int \<Rightarrow> string" where
  "layout_digits ds u = (let point = int (length ds) + u in
     if -4 < point \<and> point \<le> 16 then
       (if point \<le> 0 then ''0.'' @ replicate (nat (- point)) (CHR ''0'') @ ds
        else if int (length ds) \<le> point then ds @ replicate (nat (point - int (length ds))) (CHR ''0'') @ ''.0''
        else take (nat point) ds @ ''.'' @ drop (nat point) ds)
     else let e = point - 1; es = nat_str (nat \<bar>e\<bar>) in
       take 1 ds @ (if length ds = 1 then [] else ''.'' @ drop 1 ds) @ ''e'' @ (if e < 0 then ''-'' else ''+'')
       @ (if length es = 1 then ''0'' else []) @ es)"

fun float_repr :: "pyfloat \<Rightarrow> string" where
  "float_repr FNan = ''nan''"
| "float_repr (FInf s) = (if s then ''-inf'' else ''inf'')"
| "float_repr (FFin r) =
     (if r = 0 then ''0.0'' else
      let (m, u) = first_short [1..<18] \<bar>r\<bar>; ds = rstrip_char (CHR ''0'') (nat_str m) in
      (if r < 0 then ''-'' else []) @ layout_digits ds (u + int (length (nat_str m)) - int (length ds)))"

definition dump_float :: "pyfloat \<Rightarrow> string" where
  "dump_float f = (case f of FNan \<Rightarrow> ''NaN'' | FInf s \<Rightarrow> if s then ''-Infinity'' else ''Infinity''
     | FFin r \<Rightarrow> float_repr f)"

fun dumps :: "json \<Rightarrow> string" and dump_items :: "json list \<Rightarrow> string"
  and dump_members :: "dict \<Rightarrow> string" where
  "dumps JNull = ''null''"
| "dumps (JBool b) = (if b then ''true'' else ''false'')"
| "dumps (JInt i) = int_str i"
| "dumps (JFloat f) = dump_float f"
| "dumps (JStr s) = dump_str s"
| "dumps (JArr xs) = ''['' @ dump_items xs @ '']''"
| "dumps (JObj d) = ''{'' @ dump_members d @ ''}''"
| "dump_items [] = []"
| "dump_items (x # xs) = dumps x @ (if xs = [] then [] else '','' @ dump_items xs)"
| "dump_members [] = []"
| "dump_members ((k, v) # d) =
     dump_str k @ '':'' @ dumps v @ (if d = [] then [] else '','' @ dump_members d)"

text \<open>\<open>repr(v)\<close> and \<open>str(v)\<close> of a decoded JSON value.\<close>

fun py_repr :: "json \<Rightarrow> string" and repr_items :: "json list \<Rightarrow> string"
  and repr_members :: "dict \<Rightarrow> string" where
  "py_repr JNull = ''None''"
| "py_repr (JBool b) = (if b then ''True'' else ''False'')"
| "py_repr (JInt i) = int_str i"
| "py_repr (JFloat f) = float_repr f"
| "py_repr (JStr s) = repr_str s"
| "py_repr (JArr xs) = ''['' @ repr_items xs @ '']''"
| "py_repr (JObj d) = ''{'' @ repr_members d @ ''}''"
| "repr_items [] = []"
| "repr_items (x # xs) = py_repr x @ (if xs = [] then [] else '', '' @ repr_items xs)"
| "repr_members [] = []"
| "repr_members ((k, v) # d) =
     repr_str k @ '': '' @ py_repr v @ (if d = [] then [] else '', '' @ repr_members d)"

definition py_str :: "json \<Rightarrow> string" where
  "py_str v = (case v of JStr s \<Rightarrow> s | _ \<Rightarrow> py_repr v)"

section \<open>Reading\<close>

definition json_ws :: "string \<Rightarrow> string" where
  "json_ws s = dropWhile (\<lambda>c. c = CHR '' '' \<or> c = CHR 0x09 \<or> c = CHR 0x0A \<or> c = CHR 0x0D) s"

definition hex_val :: "char \<Rightarrow> nat option" where
  "hex_val c = (let n = of_char c in
     if 48 \<le> n \<and> n \<le> 57 then Some (n - 48) else if 97 \<le> n \<and> n \<le> 102 then Some (n - 87)
     else if 65 \<le> n \<and> n \<le> 70 then Some (n - 55) else None)"

definition hex4 :: "char \<Rightarrow> char \<Rightarrow> char \<Rightarrow> char \<Rightarrow> nat option" where
  "hex4 a b c d = (case (hex_val a, hex_val b, hex_val c, hex_val d) of
     (Some w, Some x, Some y, Some z) \<Rightarrow> Some (((w * 16 + x) * 16 + y) * 16 + z) | _ \<Rightarrow> None)"

definition utf8 :: "nat \<Rightarrow> string" where
  "utf8 n = (if n < 128 then [char_of n]
     else if n < 2048 then [char_of (192 + n div 64), char_of (128 + n mod 64)]
     else [char_of (224 + n div 4096), char_of (128 + n div 64 mod 64), char_of (128 + n mod 64)])"

definition simple_esc :: "char \<Rightarrow> char option" where
  "simple_esc c = (let n = of_char c :: nat in
     if n = 34 \<or> n = 92 \<or> n = 47 then Some c
     else if n = 98 then Some (CHR 0x08) else if n = 102 then Some (CHR 0x0C)
     else if n = 110 then Some (CHR 0x0A) else if n = 114 then Some (CHR 0x0D)
     else if n = 116 then Some (CHR 0x09) else None)"

definition pcons :: "string \<Rightarrow> (string \<times> string) option \<Rightarrow> (string \<times> string) option" where
  "pcons t r = map_option (\<lambda>(s, rest). (t @ s, rest)) r"

text \<open>A string body, up to its closing quote (\<open>strict\<close>: a control character is an error).\<close>

fun pstring :: "string \<Rightarrow> (string \<times> string) option" where
  "pstring [] = None"
| "pstring (c # cs) =
     (if c = CHR 0x22 then Some ([], cs)
      else if c = CHR 0x5C then
        (case cs of [] \<Rightarrow> None
         | e # r \<Rightarrow>
            if e = CHR ''u'' then
              (case r of a # b # x # y # r' \<Rightarrow>
                 (case hex4 a b x y of None \<Rightarrow> None | Some n \<Rightarrow> pcons (utf8 n) (pstring r'))
               | _ \<Rightarrow> None)
            else (case simple_esc e of None \<Rightarrow> None | Some x \<Rightarrow> pcons [x] (pstring r)))
      else if (of_char c :: nat) < 32 then None
      else pcons [c] (pstring cs))"

definition pfrac :: "string \<Rightarrow> string \<times> string" where
  "pfrac s = (case s of c # r \<Rightarrow>
       if c = CHR ''.'' \<and> takeWhile is_digit r \<noteq> [] then (takeWhile is_digit r, dropWhile is_digit r) else ([], s)
     | [] \<Rightarrow> ([], s))"

definition pexp :: "string \<Rightarrow> int option \<times> string" where
  "pexp s = (case s of c # r \<Rightarrow>
       if c = CHR ''e'' \<or> c = CHR ''E'' then
         (let neg = startswith r ''-''; r' = (if neg \<or> startswith r ''+'' then drop 1 r else r);
              ds = takeWhile is_digit r' in
          if ds = [] then (None, s)
          else (Some (if neg then - int (digits_val ds) else int (digits_val ds)), dropWhile is_digit r'))
       else (None, s)
     | [] \<Rightarrow> (None, s))"

text \<open>The integer part of a number: a single zero, or the whole run of digits.\<close>

definition int_run :: "string \<Rightarrow> string" where
  "int_run run = (if take 1 run = ''0'' then ''0'' else run)"

definition pnumber :: "string \<Rightarrow> (json \<times> string) option" where
  "pnumber s = (let neg = startswith s ''-''; t = (if neg then drop 1 s else s);
       ds = int_run (takeWhile is_digit t);
       r = drop (length ds) t;
       (fr, r') = pfrac r; (ex, r'') = pexp r' in
     if ds = [] then None
     else if fr = [] \<and> ex = None then
       (if 4300 < length ds then None
        else Some (JInt (if neg then - int (digits_val ds) else int (digits_val ds)), r))
     else let m = of_nat (digits_val (ds @ fr)) * pow10 ((case ex of None \<Rightarrow> 0 | Some e \<Rightarrow> e) - int (length fr)) in
       Some (JFloat (fl (if neg then - m else m)), r''))"

definition pconst :: "string \<Rightarrow> (json \<times> string) option" where
  "pconst s = (if startswith s ''null'' then Some (JNull, drop 4 s)
     else if startswith s ''true'' then Some (JBool True, drop 4 s)
     else if startswith s ''false'' then Some (JBool False, drop 5 s)
     else if startswith s ''NaN'' then Some (JFloat FNan, drop 3 s)
     else if startswith s ''Infinity'' then Some (JFloat (FInf False), drop 8 s)
     else if startswith s ''-Infinity'' then Some (JFloat (FInf True), drop 9 s)
     else pnumber s)"

text \<open>A repeated key keeps its first position and its last value, as \<open>dict(pairs)\<close> does.\<close>

definition dict_of_pairs :: "dict \<Rightarrow> dict" where
  "dict_of_pairs ps = fold (\<lambda>(k, v). AList.update k v) ps []"

fun pvalue :: "nat \<Rightarrow> string \<Rightarrow> (json \<times> string) option"
  and pitems :: "nat \<Rightarrow> string \<Rightarrow> (json list \<times> string) option"
  and pmembers :: "nat \<Rightarrow> string \<Rightarrow> (dict \<times> string) option" where
  "pvalue 0 s = None"
| "pvalue (Suc n) s = (case s of [] \<Rightarrow> None
     | c # cs \<Rightarrow>
        if c = CHR 0x22 then map_option (\<lambda>(t, r). (JStr t, r)) (pstring cs)
        else if c = CHR ''{'' then
          (if startswith (json_ws cs) ''}'' then Some (JObj [], drop 1 (json_ws cs))
           else map_option (\<lambda>(ps, r). (JObj (dict_of_pairs ps), r)) (pmembers n (json_ws cs)))
        else if c = CHR ''['' then
          (if startswith (json_ws cs) '']'' then Some (JArr [], drop 1 (json_ws cs))
           else map_option (\<lambda>(xs, r). (JArr xs, r)) (pitems n (json_ws cs)))
        else pconst s)"
| "pitems 0 s = None"
| "pitems (Suc n) s = (case pvalue n s of None \<Rightarrow> None
     | Some (v, r) \<Rightarrow> (case json_ws r of [] \<Rightarrow> None
        | c # r' \<Rightarrow> if c = CHR '']'' then Some ([v], r')
                   else if c = CHR '','' then map_option (\<lambda>(vs, q). (v # vs, q)) (pitems n (json_ws r'))
                   else None))"
| "pmembers 0 s = None"
| "pmembers (Suc n) s = (case s of [] \<Rightarrow> None
     | c # cs \<Rightarrow> if c \<noteq> CHR 0x22 then None else
        (case pstring cs of None \<Rightarrow> None
         | Some (k, r) \<Rightarrow> (case json_ws r of [] \<Rightarrow> None
            | c' # r1 \<Rightarrow> if c' \<noteq> CHR '':'' then None else
               (case pvalue n (json_ws r1) of None \<Rightarrow> None
                | Some (v, r2) \<Rightarrow> (case json_ws r2 of [] \<Rightarrow> None
                   | d # r3 \<Rightarrow> if d = CHR ''}'' then Some ([(k, v)], r3)
                      else if d = CHR '','' then map_option (\<lambda>(ps, q). ((k, v) # ps, q)) (pmembers n (json_ws r3))
                      else None)))))"

text \<open>Every nested call reads at least one character less, so twice the text's length is enough.\<close>

definition json_loads :: "string \<Rightarrow> json option" where
  "json_loads s = (case pvalue (2 * length s + 2) (json_ws s) of
       Some (v, r) \<Rightarrow> if json_ws r = [] then Some v else None
     | None \<Rightarrow> None)"

section \<open>Round trip\<close>

text \<open>The values that come back as they went out: no floats (canonical JSON writes whole floats as
  integers), no repeated keys, integers Python can convert back.\<close>

lemma size_member [termination_simp]:
  "(k, v) \<in> set d \<Longrightarrow> size v < Suc (size_list (size_prod (\<lambda>_. 0) size) d)"
  by (induction d) auto

lemma size_snd_member [termination_simp]:
  "kv \<in> set d \<Longrightarrow> size (snd kv) < Suc (size_list (size_prod (\<lambda>_. 0) size) d)"
  by (cases kv) (auto simp: size_member)

fun plain :: "json \<Rightarrow> bool" where
  "plain (JInt i) = (length (nat_str (nat \<bar>i\<bar>)) \<le> 4300)"
| "plain (JFloat _) = False"
| "plain (JArr xs) = (\<forall>x \<in> set xs. plain x)"
| "plain (JObj d) = (distinct (map fst d) \<and> (\<forall>kv \<in> set d. plain (snd kv)))"
| "plain _ = True"

text \<open>What may follow a value inside a document: anything a number cannot swallow.\<close>

definition ends_number :: "string \<Rightarrow> bool" where
  "ends_number r = (case r of [] \<Rightarrow> True
     | c # _ \<Rightarrow> \<not> is_digit c \<and> c \<noteq> CHR ''.'' \<and> c \<noteq> CHR ''e'' \<and> c \<noteq> CHR ''E'')"

lemma ends_number_simps [simp]:
  "ends_number []" "ends_number (CHR '']'' # r)" "ends_number (CHR ''}'' # r)" "ends_number (CHR '','' # r)"
  by (simp_all add: ends_number_def is_digit_def)

lemma hex_val_digit: "n < 16 \<Longrightarrow> hex_val (hex_digit n) = Some n"
  by (auto simp: hex_val_def hex_digit_def Let_def of_char_of)

lemma char_of_controls:
  "char_of (10 :: nat) = CHR 0x0A" "char_of (13 :: nat) = CHR 0x0D" "char_of (9 :: nat) = CHR 0x09"
  "char_of (8 :: nat) = CHR 0x08" "char_of (12 :: nat) = CHR 0x0C"
  by (simp_all add: char_eq_iff_code)

lemma pstring_esc: "pstring (esc_char c @ r) = pcons [c] (pstring r)"
proof -
  define n where "n = (of_char c :: nat)"
  have c: "c = char_of n" by (simp add: n_def)
  have n: "n < 256" by (simp add: n_def)
  consider "n = 34 \<or> n = 92" | "n = 10 \<or> n = 13 \<or> n = 9 \<or> n = 8 \<or> n = 12"
    | "n < 32" "n \<noteq> 10" "n \<noteq> 13" "n \<noteq> 9" "n \<noteq> 8" "n \<noteq> 12" | "32 \<le> n" "n \<noteq> 34" "n \<noteq> 92" by linarith
  then show ?thesis
  proof cases
    case 3
    then have e: "esc_char c = [CHR 0x5C, CHR ''u'', CHR ''0'', CHR ''0'', hex_digit (n div 16), hex_digit (n mod 16)]"
      by (simp add: esc_char_def n_def Let_def)
    have "hex_val (CHR ''0'') = Some 0" by (simp add: hex_val_def Let_def)
    moreover have "n div 16 < 16" using 3 by simp
    ultimately have h: "hex4 (CHR ''0'') (CHR ''0'') (hex_digit (n div 16)) (hex_digit (n mod 16)) = Some n"
      by (simp add: hex4_def hex_val_digit)
    have "utf8 n = [c]" using 3 by (simp add: utf8_def c)
    then show ?thesis by (simp add: e h)
  qed (use n in \<open>auto simp: esc_char_def simple_esc_def c Let_def char_eq_iff_code char_of_controls\<close>)
qed

lemma pstring_dump: "pstring (concat (map esc_char s) @ CHR 0x22 # r) = Some (s, r)"
  by (induction s) (simp_all add: pstring_esc pcons_def)

lemma span_digits:
  assumes "\<forall>c \<in> set ds. is_digit c" "ends_number r"
  shows "takeWhile is_digit (ds @ r) = ds"
proof -
  have "takeWhile is_digit r = []" using assms(2) by (cases r) (auto simp: ends_number_def)
  with assms(1) show ?thesis by simp
qed

lemma pfrac_pexp_end: "ends_number r \<Longrightarrow> pfrac r = ([], r)" "ends_number r \<Longrightarrow> pexp r = (None, r)"
  by (auto simp: pfrac_def pexp_def ends_number_def split: list.splits)

lemma nat_str_first: "\<exists>c cs. nat_str n = c # cs \<and> is_digit c"
  using nat_str_digits [of n] nat_str_nonempty [of n] by (cases "nat_str n") auto

lemma not_minus_digit: "is_digit c \<Longrightarrow> c \<noteq> CHR ''-''"
  by (auto simp: is_digit_def)

lemma int_run_nat_str [simp]: "int_run (nat_str n) = nat_str n"
proof (cases "take 1 (nat_str n) = ''0''")
  case False
  then show ?thesis by (simp add: int_run_def)
next
  assume "take 1 (nat_str n) = ''0''"
  then have "hd (nat_str n) = CHR ''0''" by (cases "nat_str n") auto
  then have "n = 0" by (simp add: nat_str_leading)
  then show ?thesis by (simp add: int_run_def nat_str.simps [of 0] char_eq_iff_code)
qed

lemma pnumber_int:
  assumes "ends_number r" "length (nat_str (nat \<bar>i\<bar>)) \<le> 4300"
  shows "pnumber (int_str i @ r) = Some (JInt i, r)"
proof -
  define n where "n = nat \<bar>i\<bar>"
  obtain c cs where c: "nat_str n = c # cs" "is_digit c" using nat_str_first [of n] by blast
  have tw: "takeWhile is_digit (nat_str n @ r) = nat_str n"
    using nat_str_digits assms(1) by (intro span_digits) auto
  have len: "length (nat_str n) \<le> 4300" using assms(2) by (simp add: n_def)
  show ?thesis
  proof (cases "i < 0")
    case True
    then have "int_str i = CHR ''-'' # nat_str n" "- int n = i" by (auto simp: int_str_def n_def)
    with assms(1) len show ?thesis
      by (simp add: pnumber_def Let_def tw pfrac_pexp_end)
  next
    case False
    then have "int_str i = nat_str n" "int n = i" by (auto simp: int_str_def n_def)
    moreover have "\<not> startswith (nat_str n @ r) ''-''"
      using c not_minus_digit by (auto simp: startswith_def)
    ultimately show ?thesis using assms(1) len
      by (simp add: pnumber_def Let_def tw pfrac_pexp_end)
  qed
qed

lemma json_ws_stop:
  assumes "s = c # cs" "of_char c \<noteq> (32 :: nat)" "of_char c \<noteq> (9 :: nat)"
    "of_char c \<noteq> (10 :: nat)" "of_char c \<noteq> (13 :: nat)"
  shows "json_ws s = s"
  using assms by (auto simp: json_ws_def char_eq_iff_code)

lemma json_ws_simps [simp]:
  "json_ws [] = []" "json_ws (CHR 0x22 # r) = CHR 0x22 # r" "json_ws (CHR '']'' # r) = CHR '']'' # r"
  "json_ws (CHR ''}'' # r) = CHR ''}'' # r" "json_ws (CHR '','' # r) = CHR '','' # r"
  "json_ws (CHR '':'' # r) = CHR '':'' # r"
  by (simp_all add: json_ws_def)

lemma int_str_first: "\<exists>c cs. int_str i = c # cs \<and> (is_digit c \<or> c = CHR ''-'' \<and> (\<exists>d ds. cs = d # ds \<and> is_digit d))"
  using nat_str_first [of "nat i"] nat_str_first [of "nat (- i)"] by (auto simp: int_str_def)

lemma dumps_first:
  assumes "plain j"
  shows "\<exists>c cs. dumps j = c # cs \<and> of_char c \<notin> {32, 9, 10, 13, 93, 125 :: nat}"
proof (cases j)
  case (JInt i)
  then show ?thesis using int_str_first [of i] by (auto simp: is_digit_def Let_def)
qed (use assms in \<open>auto simp: dump_str_def\<close>)

lemma dumps_ws: "plain j \<Longrightarrow> json_ws (dumps j @ r) = dumps j @ r"
  using dumps_first [of j] by (auto intro!: json_ws_stop)

lemma dumps_nonempty: "plain j \<Longrightarrow> dumps j \<noteq> []"
  using dumps_first [of j] by auto

lemma digit_neq: "is_digit c \<Longrightarrow> c \<noteq> CHR ''-'' \<and> c \<noteq> CHR ''I'' \<and> c \<notin> set ''ntfNI'' \<and> c \<notin> set [CHR 0x22, CHR ''{'', CHR ''['']"
  by (auto simp: is_digit_def)

lemma int_not_infinity:
  assumes "is_digit c \<or> c = CHR ''-'' \<and> (\<exists>d ds. cs = d # ds \<and> is_digit d)"
  shows "c \<notin> set ''ntfNI''" "\<not> startswith (c # cs @ r) (CHR ''-'' # CHR ''I'' # s)"
    "c \<notin> set [CHR 0x22, CHR ''{'', CHR ''['']"
  using assms by (auto dest: digit_neq)

lemma pconst_int:
  assumes "ends_number r" "length (nat_str (nat \<bar>i\<bar>)) \<le> 4300"
  shows "pconst (int_str i @ r) = Some (JInt i, r)"
proof -
  obtain c cs where c: "int_str i = c # cs"
    "is_digit c \<or> c = CHR ''-'' \<and> (\<exists>d ds. cs = d # ds \<and> is_digit d)" using int_str_first [of i] by blast
  then have p: "\<not> startswith (c # cs @ r) (x # t)" if "x \<in> set ''ntfNI''" for x t
    using that int_not_infinity(1) by auto
  have q: "\<not> startswith (c # cs @ r) ''-Infinity''" by (rule int_not_infinity(2) [OF c(2)])
  have "pconst (c # cs @ r) = pnumber (c # cs @ r)"
    using p q by (simp add: pconst_def del: startswith_simps)
  then show ?thesis using pnumber_int [OF assms] c(1) by simp
qed

lemma pvalue_int:
  assumes "ends_number r" "length (nat_str (nat \<bar>i\<bar>)) \<le> 4300"
  shows "pvalue (Suc n) (int_str i @ r) = Some (JInt i, r)"
proof -
  obtain c cs where c: "int_str i = c # cs"
    "is_digit c \<or> c = CHR ''-'' \<and> (\<exists>d ds. cs = d # ds \<and> is_digit d)" using int_str_first [of i] by blast
  with pconst_int [OF assms] int_not_infinity(3) [OF c(2)] show ?thesis by simp
qed

lemma dict_of_pairs_distinct: "distinct (map fst ps) \<Longrightarrow> dict_of_pairs ps = ps"
proof -
  have upd: "k \<notin> fst ` set d \<Longrightarrow> AList.update k v d = d @ [(k, v)]" for k v and d :: dict
    by (induction d) auto
  have "distinct (map fst (d @ ps)) \<Longrightarrow> fold (\<lambda>(k, v). AList.update k v) ps d = d @ ps" for d
  proof (induction ps arbitrary: d)
    case (Cons kv ps)
    then show ?case by (cases kv) (auto simp: upd image_iff)
  qed simp
  then show "distinct (map fst ps) \<Longrightarrow> dict_of_pairs ps = ps"
    by (fastforce simp: dict_of_pairs_def)
qed

lemma dump_items_ws:
  "\<forall>x \<in> set xs. plain x \<Longrightarrow> xs \<noteq> [] \<Longrightarrow> json_ws (dump_items xs @ r) = dump_items xs @ r"
  by (cases xs) (auto simp: dumps_ws)

lemma dump_items_not_close:
  "\<forall>x \<in> set xs. plain x \<Longrightarrow> xs \<noteq> [] \<Longrightarrow> \<not> startswith (dump_items xs @ r) '']''"
  using dumps_first [of "hd xs"] by (cases xs) auto

lemma dump_members_head:
  "d \<noteq> [] \<Longrightarrow> \<exists>t. dump_members d = CHR 0x22 # t"
  by (cases d) (auto simp: dump_str_def)

lemma parse_dump:
  shows "plain j \<Longrightarrow> 2 * length (dumps j) \<le> n \<Longrightarrow> ends_number r \<Longrightarrow>
      pvalue n (dumps j @ r) = Some (j, r)"
    and "\<forall>x \<in> set xs. plain x \<Longrightarrow> xs \<noteq> [] \<Longrightarrow> 2 * length (dump_items xs) + 1 \<le> n \<Longrightarrow>
      pitems n (dump_items xs @ '']'' @ r) = Some (xs, r)"
    and "\<forall>kv \<in> set d. plain (snd kv) \<Longrightarrow> d \<noteq> [] \<Longrightarrow> 2 * length (dump_members d) + 1 \<le> n \<Longrightarrow>
      pmembers n (dump_members d @ ''}'' @ r) = Some (d, r)"
proof (induction j and xs and d arbitrary: n r and n r and n r rule: dumps_dump_items_dump_members.induct)
  case 1
  then obtain m where "n = Suc m" by (cases n) auto
  then show ?case by (simp add: pconst_def)
next
  case (2 b)
  then obtain m where "n = Suc m" by (cases n) (auto split: if_splits)
  then show ?case by (simp add: pconst_def)
next
  case (3 i)
  then obtain m where "n = Suc m" using dumps_nonempty [of "JInt i"] by (cases n) auto
  with 3 pvalue_int show ?case by simp
next
  case (5 s)
  then obtain m where "n = Suc m" by (cases n) (auto simp: dump_str_def)
  then show ?case by (simp add: dump_str_def pstring_dump)
next
  case (6 xs)
  then obtain m where n: "n = Suc m" by (cases n) auto
  show ?case
  proof (cases "xs = []")
    case False
    with 6 n dump_items_ws [of xs "'']'' @ r"] dump_items_not_close [of xs "'']'' @ r"] show ?thesis by simp
  qed (simp add: n)
next
  case (7 d)
  then obtain m where n: "n = Suc m" by (cases n) auto
  show ?case
  proof (cases "d = []")
    case False
    then obtain t where t: "dump_members d = CHR 0x22 # t" using dump_members_head by blast
    have "pmembers m (dump_members d @ ''}'' @ r) = Some (d, r)"
      using 7 n False by (intro "7.IH") auto
    with t n 7 show ?thesis by (simp add: dict_of_pairs_distinct)
  qed (simp add: n)
next
  case (9 x xs)
  then obtain m where n: "n = Suc m" by (cases n) auto
  show ?case
  proof (cases "xs = []")
    case True
    with 9 n show ?thesis by simp
  next
    case False
    with 9 n dump_items_ws [of xs "'']'' @ r"] show ?thesis by simp
  qed
next
  case (11 k v d)
  then obtain m where n: "n = Suc m" by (cases n) auto
  show ?case
  proof (cases "d = []")
    case True
    with 11 n show ?thesis by (simp add: dump_str_def pstring_dump dumps_ws)
  next
    case False
    then obtain t where t: "dump_members d = CHR 0x22 # t" using dump_members_head by blast
    with 11 n False show ?thesis by (simp add: dump_str_def pstring_dump dumps_ws)
  qed
qed simp_all

lemma loads_dumps [simp]:
  assumes "plain j"
  shows "json_loads (dumps j) = Some j"
proof -
  have "pvalue (2 * length (dumps j) + 2) (dumps j @ []) = Some (j, [])"
    using assms by (intro parse_dump) auto
  moreover have "json_ws (dumps j) = dumps j" using dumps_ws [OF assms, of "[]"] by simp
  ultimately show ?thesis by (simp add: json_loads_def)
qed

end
