(* ===== verification/Cert_Report.thy ===== *)
theory Cert_Report
  imports Py_Json
begin

text \<open>
  \<open>cert/report.py\<close>: the process-wide list of cert-property observations. The mutable global
  \<open>_GLOBAL_REPORT\<close> is a state passed through every gate; the clock that stamps a record is a field
  of that state, read once per record. The locale \<open>cert_gate\<close> is the contract the gates owe the
  report: a refusal or an error is never filed as a pass and an acceptance never as a fail.
\<close>

record property_record =
  pr_id :: string
  pr_outcome :: string
  pr_evidence :: dict
  pr_recorded_at :: string

record cert_report =
  rep_repo :: string
  rep_sha :: string
  rep_schema_version :: string
  rep_properties :: "property_record list"
  rep_clock :: "nat \<Rightarrow> string"

definition initial_report :: "(nat \<Rightarrow> string) \<Rightarrow> cert_report" where
  "initial_report clock = \<lparr>rep_repo = ''robot-md-gateway'', rep_sha = ''HEAD'',
     rep_schema_version = ''0.1'', rep_properties = [], rep_clock = clock\<rparr>"

definition record_entry :: "string \<Rightarrow> string \<Rightarrow> dict \<Rightarrow> cert_report \<Rightarrow> cert_report" where
  "record_entry pid out ev r = r\<lparr>rep_properties := rep_properties r @
     [\<lparr>pr_id = pid, pr_outcome = out, pr_evidence = ev,
       pr_recorded_at = rep_clock r (length (rep_properties r))\<rparr>]\<rparr>"

definition record_property_pass :: "string \<Rightarrow> dict \<Rightarrow> cert_report \<Rightarrow> cert_report" where
  "record_property_pass pid ev r = record_entry pid ''pass'' ev r"

definition record_property_fail :: "string \<Rightarrow> dict \<Rightarrow> cert_report \<Rightarrow> cert_report" where
  "record_property_fail pid ev r = record_entry pid ''fail'' ev r"

text \<open>The caller computes the outcome; anything but pass and fail raises.\<close>

definition record_property :: "string \<Rightarrow> string \<Rightarrow> dict \<Rightarrow> cert_report \<Rightarrow> exc + cert_report" where
  "record_property pid out ev r =
     (if out \<notin> {''pass'', ''fail''} then Inl ValueError else Inr (record_entry pid out ev r))"

definition serialize :: "string \<Rightarrow> string \<Rightarrow> cert_report \<Rightarrow> dict" where
  "serialize repo sha r =
     [(''schema_version'', JStr (rep_schema_version r)), (''repo'', JStr repo), (''sha'', JStr sha),
      (''track'', JStr ''gateway-authority''),
      (''properties'', JArr (map (\<lambda>p. JObj
         [(''property_id'', JStr (pr_id p)), (''outcome'', JStr (pr_outcome p)),
          (''evidence'', JObj (pr_evidence p)), (''recorded_at'', JStr (pr_recorded_at p))])
         (rep_properties r)))]"

definition reset :: "cert_report \<Rightarrow> cert_report" where
  "reset r = r\<lparr>rep_properties := []\<rparr>"

section \<open>What a gate adds to the report\<close>

text \<open>\<open>filed v r r'\<close>: \<open>r'\<close> is \<open>r\<close> with more records, all of outcome \<open>v\<close>.\<close>

definition filed :: "string \<Rightarrow> cert_report \<Rightarrow> cert_report \<Rightarrow> bool" where
  "filed v r r' \<longleftrightarrow> (\<exists>new. r' = r\<lparr>rep_properties := rep_properties r @ new\<rparr> \<and>
     (\<forall>p \<in> set new. pr_outcome p = v))"

abbreviation verdict :: "bool \<Rightarrow> string" where
  "verdict ok \<equiv> (if ok then ''pass'' else ''fail'')"

named_theorems report_simps

lemma filed_refl [simp]: "filed v r r"
  by (simp add: filed_def exI [of _ "[]"])

lemma filed_record [simp]: "filed v r (record_entry pid v ev r)"
  unfolding filed_def record_entry_def by (rule exI) (rule conjI, rule refl, simp)

lemma filed_trans: "filed v r s \<Longrightarrow> filed v s t \<Longrightarrow> filed v r t"
proof -
  assume "filed v r s" "filed v s t"
  then obtain a b where "s = r\<lparr>rep_properties := rep_properties r @ a\<rparr>"
      "t = s\<lparr>rep_properties := rep_properties s @ b\<rparr>" "\<forall>p \<in> set a. pr_outcome p = v"
      "\<forall>p \<in> set b. pr_outcome p = v"
    unfolding filed_def by blast
  then have "t = r\<lparr>rep_properties := rep_properties r @ (a @ b)\<rparr> \<and> (\<forall>p \<in> set (a @ b). pr_outcome p = v)"
    by auto
  then show "filed v r t" unfolding filed_def by blast
qed

lemma record_property_pass_filed [simp]: "filed ''pass'' r (record_property_pass pid ev r)"
  and record_property_fail_filed [simp]: "filed ''fail'' r (record_property_fail pid ev r)"
  by (simp_all add: record_property_pass_def record_property_fail_def)

declare record_property_pass_def [report_simps] record_property_fail_def [report_simps]

text \<open>The interface between a gate and the report. A gate answers, or raises.\<close>

locale cert_gate =
  fixes gate :: "'x \<Rightarrow> cert_report \<Rightarrow> (exc + bool \<times> string) \<times> cert_report"
  assumes decided: "gate x r = (Inr (ok, why), r') \<Longrightarrow> filed (verdict ok) r r'"
    and raised: "gate x r = (Inl e, r') \<Longrightarrow> filed ''fail'' r r'"
begin

text \<open>A refusal or an error adds no pass, an acceptance no fail.\<close>

lemma refusal_files_no_pass:
  assumes "gate x r = (res, r')" "\<not> (\<exists>why. res = Inr (True, why))"
    "p \<in> set (drop (length (rep_properties r)) (rep_properties r'))"
  shows "pr_outcome p = ''fail''"
proof (cases res)
  case (Inl e)
  with assms raised [of x r e r'] show ?thesis by (auto simp: filed_def)
next
  case (Inr a)
  with assms obtain why where "res = Inr (False, why)" by (cases a) auto
  with assms decided [of x r False why r'] show ?thesis by (auto simp: filed_def)
qed

lemma acceptance_files_only_passes:
  "gate x r = (Inr (True, why), r') \<Longrightarrow> filed ''pass'' r r'"
  using decided [of x r True why r'] by simp

lemma keeps_history: "gate x r = (res, r') \<Longrightarrow> \<exists>new. rep_properties r' = rep_properties r @ new"
proof (cases res)
  case (Inl e)
  then show "gate x r = (res, r') \<Longrightarrow> ?thesis" using raised [of x r e r'] by (auto simp: filed_def)
next
  case (Inr a)
  then show "gate x r = (res, r') \<Longrightarrow> ?thesis"
    using decided [of x r "fst a" "snd a" r'] by (auto simp: filed_def)
qed

end

end
