(* ===== verification/Policy.thy ===== *)
theory Policy
  imports Cert_Report
begin

text \<open>
  \<open>cert/policy.py\<close>: the tool allowlist (GW-002), the tier policy (GW-003), the per-tool tier binding,
  the rule that a motion is invoked under an actuation scope, and the startup audit that finds an
  actuator the gateway can move and not stop. A frozenset is a list, read through its members; a
  scope is any JSON value, since the functions branch on \<open>isinstance(scope, str)\<close>.
\<close>

type_synonym gate_answer = "(exc + bool \<times> string) \<times> cert_report"

abbreviation pass :: "cert_report \<Rightarrow> gate_answer" where
  "pass r \<equiv> (Inr (True, ''ok''), r)"

abbreviation refuse :: "string \<Rightarrow> cert_report \<Rightarrow> gate_answer" where
  "refuse why r \<equiv> (Inr (False, why), r)"

record tool_allowlist =
  allowed_tools :: "string list"

definition is_allowed :: "tool_allowlist \<Rightarrow> string \<Rightarrow> bool" where
  "is_allowed al tool = (tool \<in> set (allowed_tools al))"

definition sorted_strs :: "string list \<Rightarrow> string list" where
  "sorted_strs xs = sort (remdups xs)"

text \<open>What an actuator declares in \<open>motion_capabilities\<close> or \<open>stop_capabilities\<close>: nothing, one bare
  string, an iterable (its members as str), or an object that cannot be iterated.\<close>

datatype declared = NotDeclared | BareName string | Names "string list" | NotIterable

fun as_tool_set :: "declared \<Rightarrow> string list" where
  "as_tool_set NotDeclared = []"
| "as_tool_set (BareName s) = [s]"
| "as_tool_set (Names ts) = ts"
| "as_tool_set NotIterable = []"

record capabilities =
  motion_capabilities :: declared
  stop_capabilities :: declared

definition ALLOWLIST_HAS_NO_STOP :: string where
  "ALLOWLIST_HAS_NO_STOP = ''allowlist_has_no_stop''"

fun audit_allowlist_for_stop ::
    "tool_allowlist \<Rightarrow> (string \<times> 'a capabilities_scheme) list \<Rightarrow> dict list" where
  "audit_allowlist_for_stop al [] = []"
| "audit_allowlist_for_stop al ((name, act) # rest) =
     (let motion = as_tool_set (motion_capabilities act);
          stop = as_tool_set (stop_capabilities act);
          allowed_motion = sort [t \<leftarrow> allowed_tools al. t \<in> set motion];
          allowed_stop = sort [t \<leftarrow> allowed_tools al. t \<in> set stop] in
      if motion = [] then audit_allowlist_for_stop al rest
      else if allowed_motion \<noteq> [] \<and> allowed_stop = [] then
        [(''reason'', JStr ALLOWLIST_HAS_NO_STOP), (''actuator'', JStr name),
         (''allowed_motion_tools'', JArr (map JStr allowed_motion)),
         (''stop_tools_declared'', JArr (map JStr (sorted_strs stop)))]
        # audit_allowlist_for_stop al rest
      else audit_allowlist_for_stop al rest)"

definition check_tool :: "string \<Rightarrow> tool_allowlist \<Rightarrow> json \<Rightarrow> cert_report \<Rightarrow> gate_answer" where
  "check_tool tool al msg_id r =
     (if is_allowed al tool then
        pass (record_entry ''GW-002'' ''pass''
          [(''tool_name'', JStr tool), (''msg_id'', msg_id), (''outcome'', JStr ''allowed'')] r)
      else
        refuse (''tool '' @ tool @ '' not in operator allowlist'')
          (record_entry ''GW-002'' ''fail''
            [(''tool_name'', JStr tool), (''msg_id'', msg_id),
             (''outcome'', JStr ''denied (not in allowlist)'')] r))"

definition ACTUATION_SCOPES :: "string list" where
  "ACTUATION_SCOPES = [''MANIPULATE'', ''NAVIGATE'', ''ACTUATE'', ''EXECUTE'', ''COMMISSION'']"

definition NON_ACTUATING_TIERS :: "string list" where
  "NON_ACTUATING_TIERS = [''read'', ''anon'']"

definition MOTION_SCOPES :: "string list" where
  "MOTION_SCOPES = [''MANIPULATE'', ''NAVIGATE'', ''ACTUATE'', ''EXECUTE'']"

text \<open>\<open>requirements\<close> maps a tool to the tiers that may invoke it; a tool it omits is unconstrained.\<close>

definition check_tool_tier ::
    "string \<Rightarrow> string \<Rightarrow> (string \<times> string list) list \<Rightarrow> cert_report \<Rightarrow> gate_answer" where
  "check_tool_tier tool tier requirements r =
     (case map_of requirements tool of
        None \<Rightarrow> pass r
      | Some required \<Rightarrow>
          if tier \<in> set required then pass r
          else refuse (tier @ ''-tier principal cannot invoke tool '' @ tool @ '' (requires one of ''
                 @ repr_strs (sorted_strs required) @ '')'') r)"

text \<open>\<open>scope.upper() if isinstance(scope, str) else scope\<close>.\<close>

fun scope_key :: "json \<Rightarrow> json" where
  "scope_key (JStr s) = JStr (upper s)"
| "scope_key v = v"

definition is_actuation_scope :: "json \<Rightarrow> bool" where
  "is_actuation_scope scope =
     (case scope of JStr s \<Rightarrow> upper s \<in> set ACTUATION_SCOPES | _ \<Rightarrow> False)"

definition check_tool_scope :: "string \<Rightarrow> json \<Rightarrow> string list \<Rightarrow> cert_report \<Rightarrow> gate_answer" where
  "check_tool_scope tool scope motion_tools r =
     (if tool \<in> set motion_tools \<and> \<not> is_actuation_scope scope then
        refuse (''tool '' @ tool @ '' moves the robot, and scope '' @ py_repr scope
          @ '' does not say so (motion needs one of '' @ repr_strs (sorted_strs ACTUATION_SCOPES)
          @ '')'') r
      else pass r)"

definition check_tier :: "string \<Rightarrow> json \<Rightarrow> json \<Rightarrow> cert_report \<Rightarrow> gate_answer" where
  "check_tier tier scope msg_id r =
     (let key = scope_key scope;
          ev = (\<lambda>out. [(''tier'', JStr tier), (''scope'', scope), (''msg_id'', msg_id), (''outcome'', JStr out)]) in
      if tier \<in> set NON_ACTUATING_TIERS \<and> \<not> hashable key then (Inl TypeError, r)
      else if tier \<in> set NON_ACTUATING_TIERS \<and> is_actuation_scope key then
        refuse (tier @ ''-tier principal cannot invoke '' @ py_str scope)
          (record_entry ''GW-003'' ''fail'' (ev ''denied'') r)
      else if key = JStr ''COMMISSION'' \<and> tier \<noteq> ''commission'' then
        refuse (''scope COMMISSION requires the '' @ repr_str ''commission'' @ '' tier, not '' @ repr_str tier)
          (record_entry ''GW-003'' ''fail'' (ev ''denied (commission tier required)'') r)
      else pass (record_entry ''GW-003'' ''pass'' (ev ''allowed'') r))"

section \<open>Lemmas\<close>

text \<open>Accepted: what a gate's answer must be for a request to go on.\<close>

fun accepts :: "gate_answer \<Rightarrow> bool" where
  "accepts (Inr (True, _), _) = True"
| "accepts _ = False"

lemma accepts_iff: "accepts a \<longleftrightarrow> (\<exists>why r. a = (Inr (True, why), r))"
  by (cases a rule: accepts.cases) auto

lemma upper_char_idem [simp]: "upper_char (upper_char c) = upper_char c"
  by (auto simp: upper_char_def Let_def of_char_of)

lemma upper_idem [simp]: "upper (upper s) = upper s"
  by (simp add: upper_def)

lemma is_actuation_scope_key [simp]: "is_actuation_scope (scope_key s) = is_actuation_scope s"
  by (cases s) (simp_all add: is_actuation_scope_def)

lemma commission_key: "scope_key s = JStr ''COMMISSION'' \<Longrightarrow> is_actuation_scope s"
  by (cases s) (auto simp: is_actuation_scope_def ACTUATION_SCOPES_def)

lemma check_tool_accepts [simp]: "accepts (check_tool tool al m r) \<longleftrightarrow> is_allowed al tool"
  by (simp add: check_tool_def)

lemma check_tool_tier_accepts [simp]:
  "accepts (check_tool_tier tool tier reqs r) \<longleftrightarrow>
     (\<forall>required. map_of reqs tool = Some required \<longrightarrow> tier \<in> set required)"
  by (auto simp: check_tool_tier_def split: option.splits)

lemma check_tool_scope_accepts [simp]:
  "accepts (check_tool_scope tool scope ms r) \<longleftrightarrow> (tool \<in> set ms \<longrightarrow> is_actuation_scope scope)"
  by (simp add: check_tool_scope_def)

lemma check_tier_accepts:
  "accepts (check_tier tier scope m r) \<longleftrightarrow>
     (tier \<in> set NON_ACTUATING_TIERS \<longrightarrow> hashable scope \<and> \<not> is_actuation_scope scope) \<and>
     (scope_key scope = JStr ''COMMISSION'' \<longrightarrow> tier = ''commission'')"
  by (cases scope) (auto simp: check_tier_def Let_def is_actuation_scope_def)

lemma sort_filter_empty [simp]: "sort (filter P xs) = [] \<longleftrightarrow> (\<forall>x \<in> set xs. \<not> P x)"
  by (metis filter_empty_conv set_empty set_sort)

text \<open>The findings are exactly the actuators with an allowlisted motion tool and no allowlisted stop.\<close>

lemma audit_allowlist_complete:
  "(\<exists>f \<in> set (audit_allowlist_for_stop al acts). get f ''actuator'' = JStr name) \<longleftrightarrow>
   (\<exists>act. (name, act) \<in> set acts \<and>
     (\<exists>t \<in> set (as_tool_set (motion_capabilities act)). is_allowed al t) \<and>
     (\<forall>t \<in> set (as_tool_set (stop_capabilities act)). \<not> is_allowed al t))"
proof (induction al acts rule: audit_allowlist_for_stop.induct)
  case (2 al n act rest)
  then show ?case by (auto simp: Let_def is_allowed_def)
qed simp

interpretation tool_gate: cert_gate "\<lambda>(tool, al, m) r. check_tool tool al m r"
  by unfold_locales (auto simp: check_tool_def split: if_splits)

interpretation tool_tier_gate: cert_gate "\<lambda>(tool, tier, reqs) r. check_tool_tier tool tier reqs r"
  by unfold_locales (auto simp: check_tool_tier_def split: option.splits if_splits)

interpretation tool_scope_gate: cert_gate "\<lambda>(tool, scope, ms) r. check_tool_scope tool scope ms r"
  by unfold_locales (auto simp: check_tool_scope_def split: if_splits)

interpretation tier_gate: cert_gate "\<lambda>(tier, scope, m) r. check_tier tier scope m r"
  by unfold_locales (auto simp: check_tier_def Let_def split: if_splits)

section \<open>Properties\<close>

text \<open>The tier policy: a read or anon principal passes no actuation scope, whatever its spelling, only the
  commission tier passes COMMISSION, everything else passes; and the report gets exactly one GW-003
  record, of the outcome that was decided (none when a scope is no dict key and the check raises).\<close>

theorem tier_policy_exact:
  "accepts (check_tier tier scope m r) = ((tier \<in> {''read'', ''anon''} \<longrightarrow> hashable scope \<and> \<not> is_actuation_scope scope) \<and>
     (scope_key scope = JStr ''COMMISSION'' \<longrightarrow> tier = ''commission'')) \<and>
   (case fst (check_tier tier scope m r) of
      Inl e \<Rightarrow> snd (check_tier tier scope m r) = r
    | Inr (ok, why) \<Rightarrow> \<exists>ev. snd (check_tier tier scope m r) = record_entry ''GW-003'' (verdict ok) ev r)"
  unfolding check_tier_accepts by (auto simp: check_tier_def Let_def NON_ACTUATING_TIERS_def)

theorem tier_policy_exact_witness:
  "accepts (check_tier ''read'' (JStr ''manipulate'') JNull (initial_report (\<lambda>_. []))) =
     ((''read'' \<in> {''read'', ''anon''} \<longrightarrow> hashable (JStr ''manipulate'') \<and> \<not> is_actuation_scope (JStr ''manipulate'')) \<and>
     (scope_key (JStr ''manipulate'') = JStr ''COMMISSION'' \<longrightarrow> ''read'' = ''commission'')) \<and>
   (case fst (check_tier ''read'' (JStr ''manipulate'') JNull (initial_report (\<lambda>_. []))) of
      Inl e \<Rightarrow> snd (check_tier ''read'' (JStr ''manipulate'') JNull (initial_report (\<lambda>_. []))) = initial_report (\<lambda>_. [])
    | Inr (ok, why) \<Rightarrow> \<exists>ev. snd (check_tier ''read'' (JStr ''manipulate'') JNull (initial_report (\<lambda>_. []))) =
        record_entry ''GW-003'' (verdict ok) ev (initial_report (\<lambda>_. [])))"
  by (rule tier_policy_exact)

end
