(* ===== verification/Gates.thy ===== *)
theory Gates
  imports Policy
begin

text \<open>
  \<open>cert/gates.py\<close>: the confidence gate (RC-003) and the human-in-the-loop gate (RC-004). Both read the
  raw envelope, so every value of every type is a case: a missing method is \<open>AttributeError\<close>, a
  comparison of a str with a float \<open>TypeError\<close>, and so on. The lemmas give the exact accept
  condition of each gate and what a motion's relabelling can and cannot buy.
\<close>

text \<open>The next step of a gate that may raise: the report stays as it is.\<close>

definition attempt :: "exc + 'a \<Rightarrow> cert_report \<Rightarrow> ('a \<Rightarrow> gate_answer) \<Rightarrow> gate_answer" where
  "attempt x r f = (case x of Inl e \<Rightarrow> (Inl e, r) | Inr v \<Rightarrow> f v)"

lemma attempt_simps [simp]: "attempt (Inl e) r f = (Inl e, r)" "attempt (Inr v) r f = f v"
  by (simp_all add: attempt_def)

lemma attempt_accepts: "accepts (attempt x r f) \<longleftrightarrow> (\<exists>v. x = Inr v \<and> accepts (f v))"
  by (cases x) simp_all

section \<open>Confidence\<close>

record confidence_policy =
  thresholds :: "(string \<times> pyfloat) list"

definition default_confidence :: confidence_policy where
  "default_confidence = \<lparr>thresholds = [(''READ'', fl (1 / 2)), (''NAVIGATE'', fl (85 / 100)),
     (''MANIPULATE'', fl (90 / 100)), (''ESTOP'', fl (1 / 2))]\<rparr>"

definition DEFAULT_STRICT :: pyfloat where
  "DEFAULT_STRICT = fl (95 / 100)"

definition listed_threshold :: "confidence_policy \<Rightarrow> string \<Rightarrow> pyfloat" where
  "listed_threshold p k = (case map_of (thresholds p) k of None \<Rightarrow> DEFAULT_STRICT | Some t \<Rightarrow> t)"

definition threshold_for :: "confidence_policy \<Rightarrow> json \<Rightarrow> bool \<Rightarrow> exc + pyfloat" where
  "threshold_for p scope motion =
     (let key = scope_key scope in
      if \<not> hashable key then Inl TypeError
      else let threshold = (case key of JStr k \<Rightarrow> listed_threshold p k | _ \<Rightarrow> DEFAULT_STRICT) in
        Inr (if motion then foldl fmax threshold (map (listed_threshold p) MOTION_SCOPES)
             else threshold))"

text \<open>\<open>confidence < threshold\<close>.\<close>

definition below :: "json \<Rightarrow> pyfloat \<Rightarrow> exc + bool" where
  "below v t = (case num_of v of None \<Rightarrow> Inl TypeError | Some c \<Rightarrow> Inr (flt c t))"

definition check_confidence ::
    "dict \<Rightarrow> confidence_policy \<Rightarrow> bool \<Rightarrow> cert_report \<Rightarrow> gate_answer" where
  "check_confidence env p motion r =
     (let ev = (\<lambda>x out. [(''msg_id'', get env ''msg_id''), (''scope'', get env ''scope'')] @ x
                 @ [(''outcome'', JStr out)]) in
      attempt (py_get (get_def env ''payload'' (JObj [])) ''inference_confidence'') r (\<lambda>confidence.
      if confidence = JNull then
        refuse ''envelope payload missing inference_confidence''
          (record_entry ''RC-003'' ''fail'' (ev [] ''denied (missing inference_confidence)'') r)
      else
        attempt (threshold_for p (get_def env ''scope'' (JStr ''UNKNOWN'')) motion) r (\<lambda>threshold.
        attempt (below confidence threshold) r (\<lambda>low.
        let both = [(''confidence'', confidence), (''threshold'', JFloat threshold)] in
        if low then
          refuse (''confidence '' @ py_str confidence @ '' below threshold '' @ float_repr threshold
              @ '' for scope '' @ py_str (get env ''scope''))
            (record_entry ''RC-003'' ''fail'' (ev both ''denied (below threshold)'') r)
        else pass (record_entry ''RC-003'' ''pass'' (ev both ''allowed'') r)))))"

section \<open>Human in the loop\<close>

definition MANIFEST_GATE_SCOPE_MAP :: "(string \<times> string list) list" where
  "MANIFEST_GATE_SCOPE_MAP = [(''destructive'', [''MANIPULATE'']),
     (''system'', [''EXECUTE'', ''ACTUATE'']), (''commission'', [''COMMISSION''])]"

record hitl_policy =
  required_for_scopes :: "string list"

definition default_hitl :: hitl_policy where
  "default_hitl = \<lparr>required_for_scopes = [''MANIPULATE'']\<rparr>"

definition requires :: "hitl_policy \<Rightarrow> json \<Rightarrow> bool \<Rightarrow> exc + bool" where
  "requires p scope motion =
     (let key = scope_key scope in
      if \<not> hashable key then Inl TypeError
      else if (case key of JStr k \<Rightarrow> k \<in> set (required_for_scopes p) | _ \<Rightarrow> False) then Inr True
      else Inr (motion \<and> (\<exists>s \<in> set (required_for_scopes p). s \<in> set MOTION_SCOPES)))"

text \<open>The loop of \<open>from_manifest_gates\<close>.\<close>

fun gate_scopes :: "json list \<Rightarrow> exc + string list" where
  "gate_scopes [] = Inr []"
| "gate_scopes (JObj g # gs) =
     (if \<not> truthy (get g ''require_auth'') then gate_scopes gs
      else let s = get_def g ''scope'' (JStr []) in
        if \<not> hashable s then Inl TypeError
        else bindE (gate_scopes gs) (\<lambda>rest.
          Inr ((case s of JStr k \<Rightarrow> (case map_of MANIFEST_GATE_SCOPE_MAP k of None \<Rightarrow> [] | Some xs \<Rightarrow> xs)
                | _ \<Rightarrow> []) @ rest)))"
| "gate_scopes (_ # gs) = Inl AttributeError"

definition from_manifest_gates :: "json \<Rightarrow> exc + hitl_policy" where
  "from_manifest_gates gates =
     bindE (items_of (py_or gates (JArr []))) (\<lambda>gs.
     bindE (gate_scopes gs) (\<lambda>scopes. Inr \<lparr>required_for_scopes = scopes\<rparr>))"

text \<open>\<open>chain[-1]\<close> of a truthy value.\<close>

fun last_item :: "json \<Rightarrow> exc + json" where
  "last_item (JArr xs) = Inr (last xs)"
| "last_item (JStr s) = Inr (JStr [last s])"
| "last_item (JObj d) = Inl KeyError"
| "last_item _ = Inl TypeError"

definition same_scope :: "json \<Rightarrow> json \<Rightarrow> bool" where
  "same_scope a b = (case (a, b) of (JStr s, JStr t) \<Rightarrow> upper s = upper t | _ \<Rightarrow> False)"

text \<open>The not-equal sign of the message, in UTF-8.\<close>

definition neq_sign :: string where
  "neq_sign = [CHR 0xE2, CHR 0x89, CHR 0xA0]"

definition check_hitl :: "dict \<Rightarrow> hitl_policy \<Rightarrow> bool \<Rightarrow> cert_report \<Rightarrow> gate_answer" where
  "check_hitl env p motion r =
     (let scope = get_def env ''scope'' (JStr []);
          ev = (\<lambda>x out. [(''msg_id'', get env ''msg_id''), (''scope'', scope)] @ x
                 @ [(''outcome'', JStr out)]);
          deny = (\<lambda>x why out. refuse why (record_entry ''RC-004'' ''fail'' (ev x out) r)) in
      attempt (requires p scope motion) r (\<lambda>needed.
      if \<not> needed then
        (Inr (True, ''ok (not required)''), record_entry ''RC-004'' ''pass'' (ev [] ''not required'') r)
      else let chain = get_def env ''delegation_chain'' (JArr []) in
        if \<not> truthy chain then
          deny [] (''scope '' @ py_str scope @ '' requires HiTL but envelope has no delegation_chain'')
            ''denied (no HiTL chain)''
        else attempt (last_item chain) r (\<lambda>link.
        attempt (py_get link ''scope'') r (\<lambda>last_scope.
        if \<not> same_scope last_scope scope then
          deny [(''chain_final_scope'', last_scope)]
            (''HiTL delegation_chain final scope '' @ py_str last_scope @ '' '' @ neq_sign
              @ '' requested scope '' @ py_str scope)
            ''denied (delegation_chain final scope mismatch)''
        else attempt (py_get link ''human_subject'') r (\<lambda>human.
          if \<not> truthy human then
            deny [] ''HiTL delegation_chain missing human_subject''
              ''denied (delegation_chain missing human_subject)''
          else pass (record_entry ''RC-004'' ''pass'' (ev [(''human'', human)] ''allowed'') r))))))"

section \<open>What the gates accept\<close>

lemma check_confidence_accepts:
  "accepts (check_confidence env p motion r) \<longleftrightarrow>
     (\<exists>payload v c t. get_def env ''payload'' (JObj []) = JObj payload \<and>
        get payload ''inference_confidence'' = v \<and> num_of v = Some c \<and>
        threshold_for p (get_def env ''scope'' (JStr ''UNKNOWN'')) motion = Inr t \<and> \<not> flt c t)"
proof (cases "get_def env ''payload'' (JObj [])")
  case (JObj payload)
  then show ?thesis
    by (auto simp: check_confidence_def Let_def attempt_accepts below_def split: if_splits option.splits)
qed (simp_all add: check_confidence_def Let_def)

lemma check_hitl_accepts:
  "accepts (check_hitl env p motion r) \<longleftrightarrow>
     (let scope = get_def env ''scope'' (JStr []); chain = get_def env ''delegation_chain'' (JArr []) in
      requires p scope motion = Inr False \<or>
      requires p scope motion = Inr True \<and>
        (\<exists>links link. chain = JArr links \<and> links \<noteq> [] \<and> last links = JObj link \<and>
           same_scope (get link ''scope'') scope \<and> truthy (get link ''human_subject'')))"
proof (cases "requires p (get_def env ''scope'' (JStr [])) motion")
  case (Inl e)
  then show ?thesis by (simp add: check_hitl_def Let_def)
next
  case needed: (Inr needed)
  show ?thesis
  proof (cases "get_def env ''delegation_chain'' (JArr [])")
    case (JArr links)
    then show ?thesis
      using needed by (cases needed; cases "last links") (simp_all add: check_hitl_def Let_def)
  qed (use needed in \<open>simp_all add: check_hitl_def Let_def\<close>)
qed

interpretation confidence_gate: cert_gate "\<lambda>(env, p, motion) r. check_confidence env p motion r"
  by unfold_locales
    (auto simp: check_confidence_def Let_def attempt_def split: if_splits sum.splits)

interpretation hitl_gate: cert_gate "\<lambda>(env, p, motion) r. check_hitl env p motion r"
  by unfold_locales (auto simp: check_hitl_def Let_def attempt_def split: if_splits sum.splits)

section \<open>Properties\<close>

lemma flt_below_up: "flt a b \<Longrightarrow> \<not> flt c b \<Longrightarrow> \<not> flt c a"
  by (cases a; cases b; cases c; simp)

lemma flt_below_down: "\<not> flt a b \<Longrightarrow> \<not> flt c a \<Longrightarrow> c \<noteq> FNan \<Longrightarrow> a \<noteq> FNan \<Longrightarrow> b \<noteq> FNan \<Longrightarrow> \<not> flt c b"
  by (cases a; cases b; cases c; force)

lemma fmax_below: "\<not> flt c (fmax a b) \<Longrightarrow> c \<noteq> FNan \<Longrightarrow> a \<noteq> FNan \<Longrightarrow> b \<noteq> FNan \<Longrightarrow> \<not> flt c a \<and> \<not> flt c b"
proof (cases "flt a b")
  case True
  then show "\<not> flt c (fmax a b) \<Longrightarrow> ?thesis" using flt_below_up [OF True] by (simp add: fmax_def)
next
  case False
  then show "\<not> flt c (fmax a b) \<Longrightarrow> c \<noteq> FNan \<Longrightarrow> a \<noteq> FNan \<Longrightarrow> b \<noteq> FNan \<Longrightarrow> ?thesis"
    using flt_below_down [OF False] by (simp add: fmax_def)
qed

lemma foldl_fmax:
  assumes "\<not> flt c (foldl fmax t ts)" "c \<noteq> FNan" "t \<noteq> FNan" "FNan \<notin> set ts"
  shows "\<not> flt c t \<and> (\<forall>x \<in> set ts. \<not> flt c x)"
  using assms
proof (induction ts arbitrary: t)
  case (Cons x ts)
  have num: "x \<noteq> FNan" "fmax t x \<noteq> FNan" using Cons.prems(3,4) by (auto simp: fmax_def)
  have ts: "\<not> flt c (fmax t x) \<and> (\<forall>y \<in> set ts. \<not> flt c y)"
    by (rule Cons.IH) (use Cons.prems num in simp_all)
  with fmax_below [of c t x] Cons.prems(2,3) num(1) show ?case by simp
qed simp

lemma DEFAULT_STRICT_number: "DEFAULT_STRICT \<noteq> FNan"
  by (simp add: DEFAULT_STRICT_def fl_def Let_def)

text \<open>A motion is not let through on a lower threshold by calling it something else: whatever scope the
  envelope names, a passing confidence that is a number is at least the threshold of every motion
  scope and of the scope named.\<close>

theorem motion_confidence_strict:
  assumes "accepts (check_confidence env p True r)" "\<forall>k. listed_threshold p k \<noteq> FNan"
    and "get_def env ''payload'' (JObj []) = JObj payload" "num_of (get payload ''inference_confidence'') = Some c" "c \<noteq> FNan"
  shows "\<forall>k. k \<in> set MOTION_SCOPES \<or> scope_key (get_def env ''scope'' (JStr ''UNKNOWN'')) = JStr k \<longrightarrow>
    \<not> flt c (listed_threshold p k)"
proof -
  let ?key = "scope_key (get_def env ''scope'' (JStr ''UNKNOWN''))"
  define t0 where "t0 = (case ?key of JStr k \<Rightarrow> listed_threshold p k | _ \<Rightarrow> DEFAULT_STRICT)"
  obtain t where t: "threshold_for p (get_def env ''scope'' (JStr ''UNKNOWN'')) True = Inr t" "\<not> flt c t"
    using assms(1,3,4) unfolding check_confidence_accepts by auto
  then have "t = foldl fmax t0 (map (listed_threshold p) MOTION_SCOPES)"
    by (simp add: threshold_for_def Let_def t0_def split: if_splits)
  moreover have "t0 \<noteq> FNan" using assms(2) DEFAULT_STRICT_number by (simp add: t0_def split: json.split)
  ultimately have "\<not> flt c t0 \<and> (\<forall>x \<in> set (map (listed_threshold p) MOTION_SCOPES). \<not> flt c x)"
    using t(2) assms(2,5) by (intro foldl_fmax) (auto dest: sym)
  then show ?thesis by (auto simp: t0_def)
qed

theorem motion_confidence_strict_witness:
  "\<exists>p env. accepts (check_confidence env p True (initial_report (\<lambda>_. []))) \<and>
     (\<forall>k. k \<in> set MOTION_SCOPES \<or> scope_key (get_def env ''scope'' (JStr ''UNKNOWN'')) = JStr k \<longrightarrow>
        \<not> flt (FFin 1) (listed_threshold p k))"
proof (intro exI conjI)
  let ?env = "[(''scope'', JStr ''OBSERVE''), (''payload'', JObj [(''inference_confidence'', JInt 1)])]"
  let ?p = "\<lparr>thresholds = [(''OBSERVE'', FFin 0), (''NAVIGATE'', FFin 1), (''MANIPULATE'', FFin 1),
    (''ACTUATE'', FFin 0), (''EXECUTE'', FFin 0)]\<rparr>"
  show a: "accepts (check_confidence ?env ?p True (initial_report (\<lambda>_. [])))"
    unfolding check_confidence_accepts by (simp add: threshold_for_def MOTION_SCOPES_def listed_threshold_def fmax_def
      upper_def upper_char_def Let_def)
  show "\<forall>k. k \<in> set MOTION_SCOPES \<or> scope_key (get_def ?env ''scope'' (JStr ''UNKNOWN'')) = JStr k \<longrightarrow>
        \<not> flt (FFin 1) (listed_threshold ?p k)"
    by (rule motion_confidence_strict [OF a]) (auto simp: listed_threshold_def DEFAULT_STRICT_number split: option.split)
qed

text \<open>The human-in-the-loop gate is exact, and a motion needs a human as soon as any motion scope does: the
  gate passes just when the policy asks for nothing or the last link of a non-empty delegation chain has
  the requested scope (up to case) and a human subject.\<close>

theorem hitl_gate_exact:
  "accepts (check_hitl env p motion r) \<longleftrightarrow>
     (let scope = get_def env ''scope'' (JStr []) in
      hashable scope \<and>
      (scope_key scope \<notin> JStr ` set (required_for_scopes p) \<and>
         \<not> (motion \<and> set (required_for_scopes p) \<inter> set MOTION_SCOPES \<noteq> {}) \<or>
       (\<exists>links link. get_def env ''delegation_chain'' (JArr []) = JArr links \<and> links \<noteq> [] \<and> last links = JObj link \<and>
          same_scope (get link ''scope'') scope \<and> truthy (get link ''human_subject''))))"
proof -
  have h: "hashable (scope_key s) = hashable s" for s by (cases s) simp_all
  have req: "requires p s motion = (if \<not> hashable s then Inl TypeError else
      Inr (scope_key s \<in> JStr ` set (required_for_scopes p) \<or>
        motion \<and> set (required_for_scopes p) \<inter> set MOTION_SCOPES \<noteq> {}))" for s
    unfolding requires_def Let_def h by (cases s) auto
  show ?thesis unfolding check_hitl_accepts Let_def req by auto
qed

text \<open>A NaN confidence compares below nothing, so it passes every threshold; so does \<open>true\<close>, as 1.\<close>

lemma nan_confidence_passes:
  "hashable (get_def env ''scope'' (JStr ''UNKNOWN'')) \<Longrightarrow>
   get_def env ''payload'' (JObj []) = JObj payload \<Longrightarrow> get payload ''inference_confidence'' = JFloat FNan \<Longrightarrow>
   accepts (check_confidence env p motion r)"
  unfolding check_confidence_accepts
  by (cases "get_def env ''scope'' (JStr ''UNKNOWN'')") (auto simp: threshold_for_def Let_def)

end
