(* ===== verification/Py_Base64.thy ===== *)
theory Py_Base64
  imports Py_Prelude
begin

text \<open>
  \<open>base64.b64encode\<close> and \<open>base64.b64decode\<close>. The decoder is CPython's non-strict one: characters
  outside the alphabet are skipped, a complete padding ends the input, and a text that stops inside
  a group raises \<open>binascii.Error\<close>, which is what an attacker's malformed \<open>sig\<close> meets first. The main
  lemma is the round trip, which every signature the gateway attaches relies on.
\<close>

definition b64_char :: "nat \<Rightarrow> char" where
  "b64_char n = (if n < 26 then char_of (65 + n) else if n < 52 then char_of (71 + n)
     else if n < 62 then char_of (n - 4) else if n = 62 then CHR ''+'' else CHR ''/'')"

definition b64_val :: "char \<Rightarrow> nat option" where
  "b64_val c = (let n = of_char c in
     if 65 \<le> n \<and> n \<le> 90 then Some (n - 65) else if 97 \<le> n \<and> n \<le> 122 then Some (n - 71)
     else if 48 \<le> n \<and> n \<le> 57 then Some (n + 4) else if n = 43 then Some 62
     else if n = 47 then Some 63 else None)"

fun b64encode :: "string \<Rightarrow> string" where
  "b64encode [] = []"
| "b64encode [a] = (let x = of_char a in
     [b64_char (x div 4), b64_char (x mod 4 * 16), CHR ''='', CHR ''=''])"
| "b64encode [a, b] = (let x = of_char a; y = of_char b in
     [b64_char (x div 4), b64_char (x mod 4 * 16 + y div 16), b64_char (y mod 16 * 4), CHR ''=''])"
| "b64encode (a # b # c # r) = (let x = of_char a; y = of_char b; z = of_char c in
     [b64_char (x div 4), b64_char (x mod 4 * 16 + y div 16),
      b64_char (y mod 16 * 4 + z div 64), b64_char (z mod 64)] @ b64encode r)"

text \<open>\<open>q\<close> is the position in the group of four, \<open>left\<close> the bits not yet emitted.\<close>

definition emit :: "nat \<Rightarrow> exc + string \<Rightarrow> exc + string" where
  "emit n r = map_sum id (\<lambda>s. char_of n # s) r"

fun b64dec :: "nat \<Rightarrow> nat \<Rightarrow> nat \<Rightarrow> string \<Rightarrow> exc + string" where
  "b64dec q pads left [] = (if q = 0 then Inr [] else Inl BinasciiError)"
| "b64dec q pads left (c # cs) =
     (if c = CHR ''='' then
        (if 2 \<le> q \<and> 4 \<le> q + (pads + 1) then Inr []
         else b64dec q (if 2 \<le> q then pads + 1 else pads) left cs)
      else case b64_val c of
        None \<Rightarrow> b64dec q pads left cs
      | Some v \<Rightarrow>
          if q = 0 then b64dec 1 0 v cs
          else if q = 1 then emit (left * 4 + v div 16) (b64dec 2 0 (v mod 16) cs)
          else if q = 2 then emit (left * 16 + v div 4) (b64dec 3 0 (v mod 4) cs)
          else emit (left * 64 + v) (b64dec 0 0 0 cs))"

definition b64decode :: "string \<Rightarrow> exc + string" where
  "b64decode s = (if \<exists>c \<in> set s. 128 \<le> (of_char c :: nat) then Inl ValueError else b64dec 0 0 0 s)"

text \<open>\<open>base64.b64decode(v)\<close> on a JSON value: only a str is accepted.\<close>

definition b64decode_json :: "json \<Rightarrow> exc + string" where
  "b64decode_json v = (case v of JStr s \<Rightarrow> b64decode s | _ \<Rightarrow> Inl TypeError)"

section \<open>Round trip\<close>

lemma b64_char_props [simp]:
  assumes "n < 64"
  shows "b64_val (b64_char n) = Some n" "b64_char n \<noteq> CHR ''=''" "(of_char (b64_char n) :: nat) < 128"
  using assms by (auto simp: b64_val_def b64_char_def char_eq_iff_code of_char_of Let_def)

lemma char_parts [simp]:
  fixes a :: char
  shows "(of_char a :: nat) div 4 < 64" "(of_char a :: nat) div 16 < 16" "(of_char a :: nat) div 64 < 4"
  using nat_of_char_less_256 [of a] by (auto intro: less_mult_imp_div_less)

lemma group_bits [simp]:
  fixes k r :: nat
  shows "r < 16 \<Longrightarrow> (k * 16 + r) div 16 = k" "r < 16 \<Longrightarrow> (k * 16 + r) mod 16 = r"
    "r < 4 \<Longrightarrow> (k * 4 + r) div 4 = k" "r < 4 \<Longrightarrow> (k * 4 + r) mod 4 = r"
  by simp_all

lemma char_sextets [simp]:
  fixes a b :: char
  shows "(of_char a :: nat) mod 4 * 16 < 64" "(of_char a :: nat) mod 16 * 4 < 64"
    "(of_char a :: nat) mod 64 < 64"
    "(of_char a :: nat) mod 4 * 16 + of_char b div 16 < 64"
    "(of_char a :: nat) mod 16 * 4 + of_char b div 64 < 64"
proof -
  have "(of_char a :: nat) mod 4 < 4" "(of_char a :: nat) mod 16 < 16"
    "(of_char b :: nat) div 16 < 16" "(of_char b :: nat) div 64 < 4" by simp_all
  then show "(of_char a :: nat) mod 4 * 16 < 64" "(of_char a :: nat) mod 16 * 4 < 64"
    "(of_char a :: nat) mod 64 < 64"
    "(of_char a :: nat) mod 4 * 16 + of_char b div 16 < 64"
    "(of_char a :: nat) mod 16 * 4 + of_char b div 64 < 64" by linarith+
qed

lemma b64dec_encode: "b64dec 0 0 left (b64encode s) = Inr s"
proof (induction s arbitrary: left rule: b64encode.induct)
qed (simp_all add: Let_def emit_def mod_less [of "of_char _ div 16" 16])

lemma b64encode_ascii: "c \<in> set (b64encode s) \<Longrightarrow> (of_char c :: nat) < 128"
  by (induction s rule: b64encode.induct) (auto simp: Let_def)

lemma b64_round_trip [simp]: "b64decode (b64encode s) = Inr s"
  using b64encode_ascii [of _ s] by (auto simp: b64decode_def b64dec_encode not_le)

end
