(* ===== verification/Py_Sha256.thy ===== *)
theory Py_Sha256
  imports Py_Prelude "HOL-Library.Word"
begin

text \<open>
  \<open>hashlib.sha256(data).hexdigest()\<close> (FIPS 180-4) on 32-bit words. The chain theorems use only that
  it is a function into 64 hex digits; what they say of tampering names an explicit collision.
\<close>

unbundle bit_operations_syntax

text \<open>The standard's constants are the leading fractional bits of the roots of the first primes: cube
  roots for the rounds, square roots for the initial state. \<open>root_bits k n b\<close> finds the largest \<open>b\<close>-bit
  number whose \<open>k\<close>-th power is at most \<open>n\<close>.\<close>

fun root_bits :: "nat \<Rightarrow> nat \<Rightarrow> nat \<Rightarrow> nat \<Rightarrow> nat" where
  "root_bits k n 0 acc = acc"
| "root_bits k n (Suc b) acc =
     root_bits k n b (if (acc + 2 ^ b) ^ k \<le> n then acc + 2 ^ b else acc)"

definition primes_below :: "nat \<Rightarrow> nat list" where
  "primes_below m = [p \<leftarrow> [2..<m]. list_all (\<lambda>d. p mod d \<noteq> 0) [2..<p]]"

definition root_fraction :: "nat \<Rightarrow> nat \<Rightarrow> 32 word" where
  "root_fraction k p = word_of_nat (root_bits k (p * 2 ^ (32 * k)) 40 0 mod 2 ^ 32)"

definition sha_k :: "32 word list" where
  "sha_k = map (root_fraction 3) (primes_below 312)"

record sha_state =
  reg_a :: "32 word"
  reg_b :: "32 word"
  reg_c :: "32 word"
  reg_d :: "32 word"
  reg_e :: "32 word"
  reg_f :: "32 word"
  reg_g :: "32 word"
  reg_h :: "32 word"

definition sha_init :: sha_state where
  "sha_init = (let h = map (root_fraction 2) (primes_below 20) in
     \<lparr>reg_a = h ! 0, reg_b = h ! 1, reg_c = h ! 2, reg_d = h ! 3, reg_e = h ! 4, reg_f = h ! 5, reg_g = h ! 6, reg_h = h ! 7\<rparr>)"

definition rotr :: "nat \<Rightarrow> 32 word \<Rightarrow> 32 word" where
  "rotr n w = (drop_bit n w OR push_bit (32 - n) w)"

definition sha_round :: "sha_state \<Rightarrow> 32 word \<times> 32 word \<Rightarrow> sha_state" where
  "sha_round s kw = (let (k, w) = kw;
       s1 = rotr 6 (reg_e s) XOR rotr 11 (reg_e s) XOR rotr 25 (reg_e s);
       ch = (reg_e s AND reg_f s) XOR (NOT (reg_e s) AND reg_g s);
       t1 = reg_h s + s1 + ch + k + w;
       s0 = rotr 2 (reg_a s) XOR rotr 13 (reg_a s) XOR rotr 22 (reg_a s);
       maj = (reg_a s AND reg_b s) XOR (reg_a s AND reg_c s) XOR (reg_b s AND reg_c s) in
     \<lparr>reg_a = t1 + (s0 + maj), reg_b = reg_a s, reg_c = reg_b s, reg_d = reg_c s,
      reg_e = reg_d s + t1, reg_f = reg_e s, reg_g = reg_f s, reg_h = reg_g s\<rparr>)"

text \<open>The message schedule, latest word first.\<close>

fun sha_schedule :: "nat \<Rightarrow> 32 word list \<Rightarrow> 32 word list" where
  "sha_schedule 0 ws = ws"
| "sha_schedule (Suc n) ws = (let x = ws ! 1; y = ws ! 14;
       s1 = rotr 17 x XOR rotr 19 x XOR drop_bit 10 x;
       s0 = rotr 7 y XOR rotr 18 y XOR drop_bit 3 y in
     sha_schedule n ((s1 + ws ! 6 + s0 + ws ! 15) # ws))"

definition sha_block :: "sha_state \<Rightarrow> 32 word list \<Rightarrow> sha_state" where
  "sha_block h ws = (let s = foldl sha_round h (zip sha_k (rev (sha_schedule 48 (rev ws)))) in
     \<lparr>reg_a = reg_a h + reg_a s, reg_b = reg_b h + reg_b s, reg_c = reg_c h + reg_c s, reg_d = reg_d h + reg_d s,
      reg_e = reg_e h + reg_e s, reg_f = reg_f h + reg_f s, reg_g = reg_g h + reg_g s, reg_h = reg_h h + reg_h s\<rparr>)"

fun be_words :: "nat list \<Rightarrow> 32 word list" where
  "be_words (a # b # c # d # r) =
     word_of_nat (((a * 256 + b) * 256 + c) * 256 + d) # be_words r"
| "be_words _ = []"

definition sha_pad :: "nat list \<Rightarrow> nat list" where
  "sha_pad m = (let n = length m in
     m @ [128] @ replicate ((119 - n mod 64) mod 64) 0
     @ map (\<lambda>i. 8 * n div 256 ^ i mod 256) [7, 6, 5, 4, 3, 2, 1, 0])"

function sha_blocks :: "sha_state \<Rightarrow> 32 word list \<Rightarrow> sha_state" where
  "sha_blocks h ws = (if ws = [] then h else sha_blocks (sha_block h (take 16 ws)) (drop 16 ws))"
  by pat_completeness auto
termination
  by (relation "measure (\<lambda>(h, ws). length ws)") auto

declare sha_blocks.simps [simp del]

definition hex8 :: "32 word \<Rightarrow> string" where
  "hex8 w = map (\<lambda>i. hex_digit (unat w div 16 ^ i mod 16)) [7, 6, 5, 4, 3, 2, 1, 0]"

definition sha256 :: "string \<Rightarrow> string" where
  "sha256 s = (let h = sha_blocks sha_init (be_words (sha_pad (map of_char s))) in
     concat (map hex8 [reg_a h, reg_b h, reg_c h, reg_d h, reg_e h, reg_f h, reg_g h, reg_h h]))"

lemma sha256_length [simp]: "length (sha256 s) = 64"
  by (simp add: sha256_def hex8_def Let_def)

lemma sha256_nonempty [simp]: "sha256 s \<noteq> []"
  using sha256_length [of s] by force

end
