(* ===== verification/Crypto_Lib.thy ===== *)
theory Crypto_Lib
  imports Py_Base64 Py_Json Py_Sha256
begin

text \<open>
  The code the gateway calls and this repository does not contain: \<open>rcan.audit_bundle.canonical_json\<close>
  and the Ed25519 keys of the \<open>cryptography\<close> package. They are the fields of a record, an argument of
  every definition that uses them; what the documentation promises of them is \<open>signs_for\<close> and
  \<open>strips\<close>, which the theorems that need it name as hypotheses.
\<close>

datatype public_key = Ed25519PublicKey string | OtherKey

text \<open>\<open>serialization.load_pem_public_key\<close>: a key, a \<open>ValueError\<close> with its message, or another error.\<close>

datatype pem_load = PemKey public_key | PemValueError string | PemRaises exc

record crypto =
  canonical_json :: "string option \<Rightarrow> dict \<Rightarrow> exc + string"
  load_pem_public_key :: "string \<Rightarrow> pem_load"
  ed_sign :: "string \<Rightarrow> string \<Rightarrow> string"
  ed_verify :: "string \<Rightarrow> string \<Rightarrow> string \<Rightarrow> bool"

text \<open>\<open>serialization.load_pem_private_key(pem, password=None)\<close>: an Ed25519 key, or a key of another
  kind with whatever its \<open>sign(data)\<close> does.\<close>

datatype private_key = Ed25519PrivateKey string | OtherPrivateKey "string \<Rightarrow> exc + string"

fun sign_with :: "crypto \<Rightarrow> private_key \<Rightarrow> string \<Rightarrow> exc + string" where
  "sign_with C (Ed25519PrivateKey k) m = Inr (ed_sign C k m)"
| "sign_with C (OtherPrivateKey f) m = f m"

text \<open>Every signature of the private key verifies under the public one (RFC 8032).\<close>

definition signs_for :: "crypto \<Rightarrow> string \<Rightarrow> string \<Rightarrow> bool" where
  "signs_for C priv pub \<longleftrightarrow> (\<forall>m. ed_verify C pub (ed_sign C priv m) m)"

text \<open>\<open>canonical_json(d, exclude=k)\<close> is \<open>canonical_json\<close> of \<open>d\<close> without the key.\<close>

definition without :: "string \<Rightarrow> dict \<Rightarrow> dict" where
  "without k d = filter (\<lambda>(k', v). k' \<noteq> k) d"

definition strips :: "crypto \<Rightarrow> bool" where
  "strips C \<longleftrightarrow> (\<forall>k d. canonical_json C (Some k) d = canonical_json C None (without k d))"

lemma without_update [simp]: "without k (AList.update k v d) = without k d"
  by (induction d) (auto simp: without_def)

lemma without_fresh: "k \<notin> fst ` set d \<Longrightarrow> without k d = d"
  unfolding without_def by (induction d) (auto simp: image_iff)

lemma without_append [simp]: "without k (a @ b) = without k a @ without k b"
  by (simp add: without_def)

lemma without_Cons [simp]: "without k ((k', v) # d) = (if k' = k then without k d else (k', v) # without k d)"
  by (simp add: without_def)

lemma without_Nil [simp]: "without k [] = []"
  by (simp add: without_def)

text \<open>The canonical bytes are a one-line JSON text of the dict: they read back to the same keys and
  values (the keys may be in another order).\<close>

definition reads_back :: "crypto \<Rightarrow> bool" where
  "reads_back C \<longleftrightarrow> (\<forall>d b. canonical_json C None d = Inr b \<longrightarrow>
     startswith b ''{'' \<and> CHR 0x0A \<notin> set b \<and>
     (\<exists>d'. json_loads b = Some (JObj d') \<and> map_of d' = map_of d))"

text \<open>Different dicts have different canonical bytes.\<close>

definition injective_canon :: "crypto \<Rightarrow> bool" where
  "injective_canon C \<longleftrightarrow> (\<forall>d d' b. canonical_json C None d = Inr b \<longrightarrow>
     canonical_json C None d' = Inr b \<longrightarrow> map_of d = map_of d')"

lemma reads_back_injective: "reads_back C \<Longrightarrow> injective_canon C"
  unfolding reads_back_def injective_canon_def by (metis json.inject(6) option.inject)

text \<open>A concrete library that meets the laws, to instantiate the hypotheses: it prints the values whose
  text reads back exactly, and refuses the others.\<close>

definition demo_crypto :: crypto where
  "demo_crypto = \<lparr>canonical_json = (\<lambda>ex d. let d' = (case ex of None \<Rightarrow> d | Some k \<Rightarrow> without k d) in
       if plain (JObj d') then Inr (dumps (JObj d')) else Inl TypeError),
     load_pem_public_key = (\<lambda>pem. PemKey (Ed25519PublicKey pem)),
     ed_sign = (\<lambda>priv m. priv @ m), ed_verify = (\<lambda>pub s m. s = pub @ m)\<rparr>"

lemma hex_digit_code: "n < 16 \<Longrightarrow> 48 \<le> (of_char (hex_digit n) :: nat)"
  by (auto simp: hex_digit_def of_char_of)

lemma esc_no_newline: "CHR 0x0A \<notin> set (esc_char c)"
proof
  assume "CHR 0x0A \<in> set (esc_char c)"
  moreover have "(of_char c :: nat) div 16 < 16"
    using nat_of_char_less_256 [of c] by (auto intro: less_mult_imp_div_less)
  ultimately show False
    using hex_digit_code [of "of_char c div 16"] hex_digit_code [of "of_char c mod 16"]
    by (auto simp: esc_char_def Let_def char_eq_iff_code split: if_splits)
qed

lemma dump_str_no_newline: "CHR 0x0A \<notin> set (dump_str s)"
  using esc_no_newline by (auto simp: dump_str_def)

lemma int_str_no_newline: "CHR 0x0A \<notin> set (int_str i)"
proof -
  have "CHR 0x0A \<notin> set (nat_str n)" for n
    using nat_str_digits [of n] by (auto simp: is_digit_def)
  then show ?thesis by (auto simp: int_str_def)
qed

lemma dump_no_newline [simp]: "plain j \<Longrightarrow> CHR 0x0A \<notin> set (dumps j)"
  "\<forall>x \<in> set xs. plain x \<Longrightarrow> CHR 0x0A \<notin> set (dump_items xs)"
  "\<forall>kv \<in> set d. plain (snd kv) \<Longrightarrow> CHR 0x0A \<notin> set (dump_members d)"
proof (induction j and xs and d rule: dumps_dump_items_dump_members.induct)
qed (auto simp: dump_str_no_newline int_str_no_newline split: if_splits)

lemma demo_crypto_laws [simp]:
  "signs_for demo_crypto k k" "strips demo_crypto" "reads_back demo_crypto" "injective_canon demo_crypto"
proof -
  show "signs_for demo_crypto k k" "strips demo_crypto"
    by (auto simp: signs_for_def strips_def demo_crypto_def Let_def)
  show r: "reads_back demo_crypto"
    unfolding reads_back_def
  proof (intro allI impI)
    fix d b
    assume "canonical_json demo_crypto None d = Inr b"
    then have p: "plain (JObj d)" and b: "b = dumps (JObj d)"
      by (auto simp: demo_crypto_def Let_def simp del: plain.simps split: if_splits)
    from loads_dumps [OF p] dump_no_newline(1) [OF p]
    show "startswith b ''{'' \<and> CHR 0x0A \<notin> set b \<and> (\<exists>d'. json_loads b = Some (JObj d') \<and> map_of d' = map_of d)"
      by (simp add: b)
  qed
  then show "injective_canon demo_crypto" by (rule reads_back_injective)
qed

end
