(* ===== verification/Envelope.thy ===== *)
theory Envelope
  imports Gates Crypto_Lib
begin

text \<open>
  \<open>cert/envelope.py\<close>: the envelope's signature (RC-001), the replay window and the freshness window
  (RC-002). A key resolver is an operation on a state of its own (it may cache), and the locale
  \<open>key_resolver\<close> is the stability the gateway assumes of it. The lemmas: what acceptance means, that
  a signed envelope verifies, that the freshness test on floats is the exact integer one, and that
  the replay window forgets only its oldest ids.
\<close>

type_synonym 'rs resolver = "json \<Rightarrow> 'rs \<Rightarrow> (exc + string option) \<times> 'rs"

section \<open>Signature\<close>

record env_result =
  env_accepted :: bool
  env_kid :: json
  env_reason :: string

abbreviation rejected :: "json \<Rightarrow> string \<Rightarrow> exc + env_result" where
  "rejected kid why \<equiv> Inr \<lparr>env_accepted = False, env_kid = kid, env_reason = why\<rparr>"

text \<open>What follows once the resolver has answered \<open>pem\<close> for \<open>kid\<close>.\<close>

definition verify_with_pem :: "crypto \<Rightarrow> dict \<Rightarrow> dict \<Rightarrow> json \<Rightarrow> string option \<Rightarrow> exc + env_result" where
  "verify_with_pem C env sig kid pem =
     (case pem of None \<Rightarrow> rejected kid (''kid '' @ py_str kid @ '' not registered'')
      | Some p \<Rightarrow>
       (case load_pem_public_key C p of
          PemRaises e \<Rightarrow> Inl e
        | PemValueError msg \<Rightarrow> rejected kid (''bad PEM: '' @ msg)
        | PemKey OtherKey \<Rightarrow> rejected kid ''not Ed25519''
        | PemKey (Ed25519PublicKey pub) \<Rightarrow>
            bindE (case map_of sig ''sig'' of None \<Rightarrow> Inl KeyError | Some v \<Rightarrow> b64decode_json v) (\<lambda>raw.
            bindE (canonical_json C (Some ''envelope_signature'') env) (\<lambda>body.
            if ed_verify C pub raw body
            then Inr \<lparr>env_accepted = True, env_kid = kid, env_reason = ''ok''\<rparr>
            else rejected kid ''signature did not verify''))))"

definition verify_envelope :: "crypto \<Rightarrow> 'rs resolver \<Rightarrow> dict \<Rightarrow> cert_report \<Rightarrow> 'rs
    \<Rightarrow> (exc + env_result) \<times> cert_report \<times> 'rs" where
  "verify_envelope C resolve env r rs =
     (case get env ''envelope_signature'' of
        JNull \<Rightarrow> (rejected JNull ''no envelope_signature field'', r, rs)
      | JObj sig \<Rightarrow>
          (let kid = get sig ''kid'' in
           case resolve kid rs of
             (Inl e, rs') \<Rightarrow> (Inl e, r, rs')
           | (Inr pem, rs') \<Rightarrow>
               (let res = verify_with_pem C env sig kid pem in
                (res,
                 (case res of Inr v \<Rightarrow> if env_accepted v then record_entry ''RC-001'' ''pass''
                      [(''kid'', kid), (''msg_id'', get env ''msg_id'')] r else r
                  | Inl e \<Rightarrow> r),
                 rs')))
      | _ \<Rightarrow> (Inl AttributeError, r, rs))"

definition sign_envelope :: "crypto \<Rightarrow> string \<Rightarrow> dict \<Rightarrow> string \<Rightarrow> exc + dict" where
  "sign_envelope C priv body kid =
     bindE (canonical_json C None body) (\<lambda>canon.
       Inr (AList.update ''envelope_signature''
         (JObj [(''kid'', JStr kid), (''alg'', JStr ''Ed25519''),
                (''sig'', JStr (b64encode (ed_sign C priv canon)))]) body))"

section \<open>Replay window\<close>

text \<open>Equality of dict keys: numbers by value (\<open>True == 1 == 1.0\<close>), everything else by structure; the
  JSON scanner's NaN is one object, so it equals itself.\<close>

definition key_eq :: "json \<Rightarrow> json \<Rightarrow> bool" where
  "key_eq a b = (a = b \<or> num_of a \<noteq> None \<and> num_of a = num_of b)"

lemma key_eq_refl [simp]: "key_eq a a"
  by (simp add: key_eq_def)

lemma key_eq_sym: "key_eq a b \<Longrightarrow> key_eq b a"
  unfolding key_eq_def by metis

lemma key_eq_trans: "key_eq a b \<Longrightarrow> key_eq b c \<Longrightarrow> key_eq a c"
  unfolding key_eq_def by metis

lemma key_eq_cong: "key_eq a b \<Longrightarrow> key_eq x a = key_eq x b"
  using key_eq_sym key_eq_trans by blast

record replay_cache =
  replay_seen :: "json list"
  replay_max :: int

definition has_seen :: "json \<Rightarrow> replay_cache \<Rightarrow> bool" where
  "has_seen m c = (\<exists>x \<in> set (replay_seen c). key_eq x m)"

text \<open>\<open>while len(seen) >= max: seen.popitem(last=False)\<close>, oldest first; popping an empty dict raises.\<close>

fun evict :: "int \<Rightarrow> json list \<Rightarrow> exc + json list" where
  "evict mx [] = (if mx \<le> 0 then Inl KeyError else Inr [])"
| "evict mx (x # xs) = (if mx \<le> int (length (x # xs)) then evict mx xs else Inr (x # xs))"

definition record_seen :: "json \<Rightarrow> replay_cache \<Rightarrow> exc + replay_cache" where
  "record_seen m c =
     (if has_seen m c then Inr c
      else bindE (evict (replay_max c) (replay_seen c)) (\<lambda>xs. Inr (c\<lparr>replay_seen := xs @ [m]\<rparr>)))"

definition check_replay :: "dict \<Rightarrow> cert_report \<Rightarrow> replay_cache \<Rightarrow> gate_answer \<times> replay_cache" where
  "check_replay env r c =
     (let m = get env ''msg_id'' in
      if \<not> truthy m then (refuse ''missing msg_id'' r, c)
      else if \<not> hashable m then ((Inl TypeError, r), c)
      else if has_seen m c then
        (refuse (''replay rejected (msg_id '' @ py_str m @ '' already seen)'')
           (record_entry ''RC-002'' ''fail'' [(''msg_id'', m), (''outcome'', JStr ''denied (replay)'')] r), c)
      else case record_seen m c of
        Inl e \<Rightarrow> ((Inl e, r), c\<lparr>replay_seen := []\<rparr>)
      | Inr c' \<Rightarrow> (pass (record_entry ''RC-002'' ''pass''
           [(''msg_id'', m), (''outcome'', JStr ''accepted (fresh)'')] r), c'))"

section \<open>Freshness\<close>

record freshness_policy =
  max_skew_s :: pyfloat
  require_timestamp :: bool

definition default_freshness :: freshness_policy where
  "default_freshness = \<lparr>max_skew_s = FFin 300, require_timestamp = False\<rparr>"

definition STALE_TIMESTAMP :: string where
  "STALE_TIMESTAMP = ''stale_timestamp''"

definition MISSING_TIMESTAMP :: string where
  "MISSING_TIMESTAMP = ''missing_timestamp''"

text \<open>\<open>int(raw)\<close> under \<open>except (TypeError, ValueError)\<close>: an infinity's OverflowError is not caught.\<close>

definition check_freshness ::
    "dict \<Rightarrow> freshness_policy \<Rightarrow> int \<Rightarrow> cert_report \<Rightarrow> gate_answer" where
  "check_freshness env p now_ms r =
     (let raw = get env ''timestamp_ms''; msg_id = get env ''msg_id'' in
      if raw = JNull then
        (if \<not> require_timestamp p then (Inr (True, ''ok (no timestamp_ms; freshness not checked)''), r)
         else refuse (MISSING_TIMESTAMP @ '': envelope carries no timestamp_ms'')
           (record_entry ''RC-002'' ''fail''
              [(''msg_id'', msg_id), (''outcome'', JStr (''denied ('' @ MISSING_TIMESTAMP @ '')''))] r))
      else case py_int raw of
        Inl e \<Rightarrow> if e = TypeError \<or> is_value_error e then
            refuse (STALE_TIMESTAMP @ '': timestamp_ms '' @ py_repr raw @ '' is not an integer'')
              (record_entry ''RC-002'' ''fail'' [(''msg_id'', msg_id), (''timestamp_ms'', raw),
                 (''outcome'', JStr ''denied (timestamp_ms not an integer)'')] r)
          else (Inl e, r)
      | Inr ts \<Rightarrow>
         (case float_of_int (now_ms - ts) of
            None \<Rightarrow> (Inl OverflowError, r)
          | Some diff \<Rightarrow>
             let skew = fdiv_const diff 1000 in
             if flt (max_skew_s p) (fabs skew) then
               refuse (STALE_TIMESTAMP @ '': envelope timestamp_ms is '' @ fmt_fixed 1 skew
                   @ ''s from this gateway'' @ [CHR 0x27] @ ''s clock, outside the +/-''
                   @ fmt_fixed 0 (max_skew_s p) @ ''s window'')
                 (record_entry ''RC-002'' ''fail''
                   [(''msg_id'', msg_id), (''timestamp_ms'', JInt ts), (''skew_s'', JFloat skew),
                    (''max_skew_s'', JFloat (max_skew_s p)),
                    (''outcome'', JStr (''denied ('' @ STALE_TIMESTAMP @ '')''))] r)
             else pass r))"

section \<open>Signature: what acceptance means\<close>

lemma bindE_eq_iff: "bindE x f = Inr y \<longleftrightarrow> (\<exists>v. x = Inr v \<and> f v = Inr y)"
  by (cases x) auto

text \<open>Acceptance is one Ed25519 verification of the canonical envelope under the key the resolver
  answered for the kid it names.\<close>

definition envelope_ok :: "crypto \<Rightarrow> dict \<Rightarrow> dict \<Rightarrow> string \<Rightarrow> bool" where
  "envelope_ok C env sig pem =
     (case (load_pem_public_key C pem, map_of sig ''sig'') of
        (PemKey (Ed25519PublicKey pub), Some v) \<Rightarrow>
          (case (b64decode_json v, canonical_json C (Some ''envelope_signature'') env) of
             (Inr raw, Inr body) \<Rightarrow> ed_verify C pub raw body | _ \<Rightarrow> False)
      | _ \<Rightarrow> False)"

lemma verify_with_pem_accepts:
  "(\<exists>v. verify_with_pem C env sig kid pem = Inr v \<and> env_accepted v) \<longleftrightarrow>
     (\<exists>p. pem = Some p \<and> envelope_ok C env sig p)"
proof (cases pem)
  case (Some p)
  then show ?thesis
    by (auto simp: verify_with_pem_def envelope_ok_def bindE_def
        split: pem_load.split public_key.split sum.split option.split)
qed (simp add: verify_with_pem_def)

lemma verify_with_pem_kid: "verify_with_pem C env sig kid pem = Inr v \<Longrightarrow> env_kid v = kid"
  by (auto simp: verify_with_pem_def bindE_def
      split: option.splits pem_load.splits public_key.splits sum.splits if_splits)

lemma verify_envelope_accepts:
  "(\<exists>v r' rs'. verify_envelope C resolve env r rs = (Inr v, r', rs') \<and> env_accepted v) \<longleftrightarrow>
     (\<exists>sig pem rs'. get env ''envelope_signature'' = JObj sig \<and>
        resolve (get sig ''kid'') rs = (Inr (Some pem), rs') \<and> envelope_ok C env sig pem)"
proof (cases "get env ''envelope_signature''")
  case (JObj sig)
  obtain a rs' where res: "resolve (get sig ''kid'') rs = (a, rs')" by (meson surj_pair)
  show ?thesis
  proof (cases a)
    case (Inl e)
    with JObj res show ?thesis by (simp add: verify_envelope_def Let_def)
  next
    case (Inr pem)
    with JObj res verify_with_pem_accepts [of C env sig "get sig ''kid''" pem]
    show ?thesis by (auto simp: verify_envelope_def Let_def)
  qed
qed (simp_all add: verify_envelope_def)

text \<open>A body signed by \<open>sign_envelope\<close> passes, under any resolver that knows the key.\<close>

lemma signed_envelope_ok:
  assumes "signs_for C priv pub" "strips C" "load_pem_public_key C pem = PemKey (Ed25519PublicKey pub)"
    and "without ''envelope_signature'' body = body" and "sign_envelope C priv body kid = Inr env"
  shows "\<exists>sig. get env ''envelope_signature'' = JObj sig \<and> get sig ''kid'' = JStr kid \<and>
    envelope_ok C env sig pem"
  using assms
  by (auto simp: sign_envelope_def bindE_eq_iff envelope_ok_def strips_def signs_for_def b64decode_json_def)

section \<open>Freshness: the float test is the integer test\<close>

lemma fl_neg [simp]: "fl (- x) = (case fl x of FFin r \<Rightarrow> FFin (- r) | FInf s \<Rightarrow> FInf (\<not> s) | FNan \<Rightarrow> FNan)"
  if "x \<noteq> 0"
  using that by (auto simp: fl_def Let_def)

lemma fl_0 [simp]: "fl 0 = FFin 0"
  by (simp add: fl_def fl_mag_def float_top_def)

lemma fabs_fl [simp]: "fabs (fl x) = fl \<bar>x\<bar>"
  using fl_mag_nonneg [of "\<bar>x\<bar>"] by (auto simp: fl_def Let_def)

text \<open>The milliseconds as the float division sees them.\<close>

lemma float_of_int_bounds:
  assumes "float_of_int d = Some f" "0 < m" "m < 2 ^ 53"
  obtains x where "f = FFin x" "m \<le> \<bar>d\<bar> \<Longrightarrow> of_int m \<le> \<bar>x\<bar>" "\<bar>d\<bar> \<le> m \<Longrightarrow> \<bar>x\<bar> \<le> of_int m"
proof -
  obtain x where "fl (of_int d) = FFin x"
    using assms(1) by (cases "fl (of_int d)") (simp_all add: float_of_int_def)
  with assms(1) have x: "f = FFin x" "fl (of_int d) = FFin x" by (simp_all add: float_of_int_def)
  then have mag: "\<bar>x\<bar> = fl_mag \<bar>of_int d\<bar>"
    using fl_mag_nonneg [of "\<bar>of_int d\<bar>"] by (auto simp: fl_def Let_def split: if_splits)
  have m: "fl_mag (of_int m) = of_int m" using assms by (intro fl_mag_int)
  have "of_int m \<le> \<bar>x\<bar>" if "m \<le> \<bar>d\<bar>"
  proof -
    have "fl_mag (of_int m) \<le> fl_mag (of_int \<bar>d\<bar>)"
      using that assms by (intro fl_mag_mono) auto
    with m mag show ?thesis by simp
  qed
  moreover have "\<bar>x\<bar> \<le> of_int m" if "\<bar>d\<bar> \<le> m"
  proof -
    have "fl_mag (of_int \<bar>d\<bar>) \<le> fl_mag (of_int m)"
      using that assms by (intro fl_mag_mono) auto
    with m mag show ?thesis by simp
  qed
  ultimately show thesis using x that by blast
qed

lemma skew_exceeds_iff:
  assumes "float_of_int d = Some f" "0 < n" "n < 2 ^ 42"
  shows "flt (FFin (of_int n)) (fabs (fdiv_const f 1000)) \<longleftrightarrow> 1000 * n < \<bar>d\<bar>"
proof -
  have bounds: "1000 * n < 2 ^ 53" "1000 * n + 1 < 2 ^ 53" using assms(3) by simp_all
  obtain x where x: "f = FFin x" "1000 * n + 1 \<le> \<bar>d\<bar> \<Longrightarrow> of_int (1000 * n + 1) \<le> \<bar>x\<bar>"
    by (rule float_of_int_bounds [OF assms(1), of "1000 * n + 1"]) (use assms bounds in auto)
  obtain y where y: "f = FFin y" "\<bar>d\<bar> \<le> 1000 * n \<Longrightarrow> \<bar>y\<bar> \<le> of_int (1000 * n)"
    by (rule float_of_int_bounds [OF assms(1), of "1000 * n"]) (use assms bounds in auto)
  show ?thesis
  proof
    assume "flt (FFin (of_int n)) (fabs (fdiv_const f 1000))"
    with x have "flt (FFin (of_int n)) (fl (\<bar>x\<bar> / 1000))" by simp
    then have "of_int n < \<bar>x\<bar> / 1000" using assms by (intro flt_int_fl) auto
    with x y show "1000 * n < \<bar>d\<bar>" by (cases "\<bar>d\<bar> \<le> 1000 * n") auto
  next
    assume "1000 * n < \<bar>d\<bar>"
    with x have "of_int n + 1 / 1024 \<le> \<bar>x\<bar> / 1000" by auto
    then have "flt (FFin (of_int n)) (fl (\<bar>x\<bar> / 1000))" using assms by (intro fl_above) auto
    with x show "flt (FFin (of_int n)) (fabs (fdiv_const f 1000))" by simp
  qed
qed

lemma check_freshness_accepts:
  assumes "max_skew_s p = FFin (of_int n)" "0 < n" "n < 2 ^ 42"
  shows "accepts (check_freshness env p now r) \<longleftrightarrow>
    (get env ''timestamp_ms'' = JNull \<and> \<not> require_timestamp p \<or>
     (\<exists>ts f. get env ''timestamp_ms'' \<noteq> JNull \<and> py_int (get env ''timestamp_ms'') = Inr ts \<and>
        float_of_int (now - ts) = Some f \<and> \<bar>now - ts\<bar> \<le> 1000 * n))"
proof (cases "py_int (get env ''timestamp_ms'')")
  case (Inl e)
  then show ?thesis by (auto simp: check_freshness_def Let_def)
next
  case (Inr ts)
  show ?thesis
  proof (cases "float_of_int (now - ts)")
    case (Some f)
    with Inr assms skew_exceeds_iff [OF Some assms(2,3)] show ?thesis
      by (auto simp: check_freshness_def Let_def)
  qed (use Inr in \<open>auto simp: check_freshness_def Let_def\<close>)
qed

section \<open>Replay: a window that forgets only its oldest ids\<close>

text \<open>A service that lets messages through at most once per window: \<open>passed e s\<close> says that the step
  on \<open>e\<close> from \<open>s\<close> let it through. Only such a step must add the message's id, and a step that adds
  one drops nothing but the oldest.\<close>

locale replay_window =
  fixes step :: "'e \<Rightarrow> 's \<Rightarrow> 's"
    and passed :: "'e \<Rightarrow> 's \<Rightarrow> bool"
    and ident :: "'e \<Rightarrow> json"
    and ids :: "'s \<Rightarrow> json list"
    and bound :: "'s \<Rightarrow> int"
  assumes bound_step: "bound (step e s) = bound s"
    and ids_step: "0 < bound s \<Longrightarrow> ids (step e s) = ids s \<or>
      ids (step e s) = drop (Suc (length (ids s)) - nat (bound s)) (ids s) @ [ident e]"
    and passed_adds: "0 < bound s \<Longrightarrow> passed e s \<Longrightarrow>
      ids (step e s) = drop (Suc (length (ids s)) - nat (bound s)) (ids s) @ [ident e]"
    and passed_new: "0 < bound s \<Longrightarrow> passed e s \<Longrightarrow> \<not> (\<exists>x \<in> set (ids s). key_eq x (ident e))"
begin

lemma bound_run [simp]: "bound (fold step es s) = bound s"
  by (induction es arbitrary: s) (simp_all add: bound_step)

lemma tail_grows:
  assumes "0 < bound s" "ids s = a @ m # b" "int (length b) + 1 < bound s"
  obtains a' b' where "ids (step e s) = a' @ m # b'" "length b' \<le> Suc (length b)"
proof (cases "ids (step e s) = ids s")
  case True
  with assms that show ?thesis by auto
next
  case False
  define k where "k = Suc (length (ids s)) - nat (bound s)"
  have "k \<le> length a" using assms by (simp add: k_def)
  moreover have "ids (step e s) = drop k (ids s) @ [ident e]"
    using False ids_step [OF assms(1)] by (auto simp: k_def)
  ultimately have "ids (step e s) = drop k a @ m # (b @ [ident e])" using assms by simp
  with that show ?thesis by (metis length_append_singleton order_refl)
qed

lemma window_keeps:
  assumes "0 < bound s" "ids s = a @ m # b" "int (length b) + int (length es) < bound s"
  shows "m \<in> set (ids (fold step es s))"
  using assms
proof (induction es arbitrary: s a b)
  case (Cons e es)
  then have "int (length b) + 1 < bound s" by simp
  with Cons.prems(1,2) obtain a' b' where t: "ids (step e s) = a' @ m # b'" "length b' \<le> Suc (length b)"
    by (rule tail_grows)
  with Cons.prems show ?case by (auto intro: Cons.IH [OF _ t(1)] simp: bound_step)
qed simp

lemma passes_once:
  assumes "0 < bound s" "passed e s" "int (length es) < bound s" "key_eq (ident e) (ident e')"
  shows "\<not> passed e' (fold step es (step e s))"
proof
  assume p: "passed e' (fold step es (step e s))"
  have "ident e \<in> set (ids (fold step es (step e s)))"
    using passed_adds [OF assms(1,2)] assms
    by (auto intro!: window_keeps [where b = "[]"] simp: bound_step)
  with p assms passed_new [of "fold step es (step e s)" e'] show False by (auto simp: bound_step)
qed

end

lemma evict_positive: "0 < mx \<Longrightarrow> evict mx xs = Inr (drop (Suc (length xs) - nat mx) xs)"
proof (induction xs)
  case (Cons x xs)
  show ?case
  proof (cases "mx \<le> int (length (x # xs))")
    case True
    then have "Suc (length (x # xs)) - nat mx = Suc (Suc (length xs) - nat mx)" using Cons by auto
    with Cons True show ?thesis by simp
  qed (use Cons in simp)
qed simp

lemma check_replay_cases:
  assumes "0 < replay_max c"
  obtains (refused) r' why where "check_replay env r c = (refuse why r', c)"
    | (error) "check_replay env r c = ((Inl TypeError, r), c)"
    | (new) r' where "check_replay env r c = (pass r', c\<lparr>replay_seen :=
        drop (Suc (length (replay_seen c)) - nat (replay_max c)) (replay_seen c) @ [get env ''msg_id'']\<rparr>)"
        "\<not> has_seen (get env ''msg_id'') c" "truthy (get env ''msg_id'')"
proof (cases "truthy (get env ''msg_id'') \<and> hashable (get env ''msg_id'') \<and> \<not> has_seen (get env ''msg_id'') c")
  case True
  with assms new show ?thesis by (simp add: check_replay_def Let_def record_seen_def evict_positive)
next
  case False
  then consider "\<not> truthy (get env ''msg_id'')" | "\<not> hashable (get env ''msg_id'')" "truthy (get env ''msg_id'')"
    | "truthy (get env ''msg_id'')" "hashable (get env ''msg_id'')" "has_seen (get env ''msg_id'') c" by blast
  then show ?thesis
  proof cases
    case 1
    with refused [of "''missing msg_id''" r] show ?thesis by (simp add: check_replay_def)
  next
    case 2
    with error show ?thesis by (simp add: check_replay_def)
  next
    case 3
    then have "check_replay env r c = (refuse (''replay rejected (msg_id '' @ py_str (get env ''msg_id'')
        @ '' already seen)'') (record_entry ''RC-002'' ''fail'' [(''msg_id'', get env ''msg_id''),
          (''outcome'', JStr ''denied (replay)'')] r), c)"
      by (simp add: check_replay_def Let_def)
    then show ?thesis by (rule refused)
  qed
qed

definition replay_step :: "dict \<Rightarrow> cert_report \<times> replay_cache \<Rightarrow> cert_report \<times> replay_cache" where
  "replay_step env s = (let (a, c) = check_replay env (fst s) (snd s) in (snd a, c))"

interpretation gate_window: replay_window replay_step "\<lambda>env s. accepts (fst (check_replay env (fst s) (snd s)))"
  "\<lambda>env. get env ''msg_id''" "\<lambda>s. replay_seen (snd s)" "\<lambda>s. replay_max (snd s)"
proof unfold_locales
  fix env and s :: "cert_report \<times> replay_cache"
  show "replay_max (snd (replay_step env s)) = replay_max (snd s)"
    by (auto simp: replay_step_def check_replay_def record_seen_def Let_def bindE_eq_iff split: sum.splits)
next
  fix env and s :: "cert_report \<times> replay_cache"
  assume pos: "0 < replay_max (snd s)"
  let ?new = "drop (Suc (length (replay_seen (snd s))) - nat (replay_max (snd s))) (replay_seen (snd s))
    @ [get env ''msg_id'']"
  show "replay_seen (snd (replay_step env s)) = replay_seen (snd s) \<or>
      replay_seen (snd (replay_step env s)) = ?new"
    by (rule check_replay_cases [OF pos, of env "fst s"]) (auto simp: replay_step_def)
  assume ok: "accepts (fst (check_replay env (fst s) (snd s)))"
  then show "replay_seen (snd (replay_step env s)) = ?new"
    by (rule_tac check_replay_cases [OF pos, of env "fst s"]) (auto simp: replay_step_def)
  show "\<not> (\<exists>x \<in> set (replay_seen (snd s)). key_eq x (get env ''msg_id''))"
    using ok by (rule_tac check_replay_cases [OF pos, of env "fst s"]) (auto simp: has_seen_def)
qed

section \<open>The gates' contract\<close>

interpretation freshness_gate: cert_gate "\<lambda>(env, p, now) r. check_freshness env p now r"
  by unfold_locales (auto simp: check_freshness_def Let_def split: if_splits sum.splits option.splits)

interpretation replay_gate: cert_gate "\<lambda>(env, c) r. fst (check_replay env r c)"
  by unfold_locales (auto simp: check_replay_def Let_def split: if_splits sum.splits)

section \<open>Properties\<close>

text \<open>C12. A body that \<open>sign_envelope\<close> signed is accepted by \<open>verify_envelope\<close> wherever the resolver answers
  the signer's kid with the signer's key, and the result names that kid.\<close>

theorem sign_verify_round_trip:
  assumes "signs_for C priv pub" "strips C" "load_pem_public_key C pem = PemKey (Ed25519PublicKey pub)"
    and "without ''envelope_signature'' body = body" "sign_envelope C priv body kid = Inr env"
    and "resolve (JStr kid) rs = (Inr (Some pem), rs')"
  shows "\<exists>v r'. verify_envelope C resolve env r rs = (Inr v, r', rs') \<and> env_accepted v \<and> env_kid v = JStr kid"
proof -
  obtain sig where sig: "get env ''envelope_signature'' = JObj sig" "get sig ''kid'' = JStr kid" "envelope_ok C env sig pem"
    using signed_envelope_ok [OF assms(1-5)] by blast
  then obtain v where v: "verify_with_pem C env sig (JStr kid) (Some pem) = Inr v" "env_accepted v"
    using verify_with_pem_accepts [of C env sig "JStr kid" "Some pem"] by blast
  with sig assms(6) verify_with_pem_kid [OF v(1)] show ?thesis
    by (simp add: verify_envelope_def Let_def)
qed

definition demo_signed :: dict where
  "demo_signed = [(''msg_id'', JStr ''m''), (''envelope_signature'', JObj [(''kid'', JStr ''K''), (''alg'', JStr ''Ed25519''),
     (''sig'', JStr (b64encode (''P'' @ dumps (JObj [(''msg_id'', JStr ''m'')]))))])]"

theorem sign_verify_round_trip_witness:
  "\<exists>v r'. verify_envelope demo_crypto (\<lambda>k rs. (Inr (Some ''P''), rs)) demo_signed (initial_report (\<lambda>_. [])) () = (Inr v, r', ())
     \<and> env_accepted v \<and> env_kid v = JStr ''K''"
  by (rule sign_verify_round_trip [where priv = "''P''" and pub = "''P''" and body = "[(''msg_id'', JStr ''m'')]"])
    (simp_all add: demo_signed_def sign_envelope_def demo_crypto_def signs_for_def strips_def Let_def)

text \<open>C13. What an accepted envelope is: its signature field decodes to a signature that verifies, under the
  Ed25519 key the resolver answered for the named kid, over the canonical bytes of the envelope without
  that field. Any byte of the envelope that changes its canonical form needs another signature.\<close>

theorem envelope_acceptance_exact:
  "(\<exists>v r' rs'. verify_envelope C resolve env r rs = (Inr v, r', rs') \<and> env_accepted v) \<longleftrightarrow>
     (\<exists>sig pem pub s raw body. get env ''envelope_signature'' = JObj sig \<and>
        fst (resolve (get sig ''kid'') rs) = Inr (Some pem) \<and>
        load_pem_public_key C pem = PemKey (Ed25519PublicKey pub) \<and>
        map_of sig ''sig'' = Some s \<and> b64decode_json s = Inr raw \<and>
        canonical_json C (Some ''envelope_signature'') env = Inr body \<and> ed_verify C pub raw body)"
proof -
  have ok: "envelope_ok C env sig pem \<longleftrightarrow> (\<exists>pub s raw body. load_pem_public_key C pem = PemKey (Ed25519PublicKey pub) \<and>
        map_of sig ''sig'' = Some s \<and> b64decode_json s = Inr raw \<and>
        canonical_json C (Some ''envelope_signature'') env = Inr body \<and> ed_verify C pub raw body)" for sig pem
    by (auto simp: envelope_ok_def split: pem_load.splits public_key.splits option.splits sum.splits)
  have fst_ex: "(\<exists>rs'. resolve k rs = (a, rs')) \<longleftrightarrow> fst (resolve k rs) = a" for k a
    by (cases "resolve k rs") auto
  show ?thesis unfolding verify_envelope_accepts ok fst_ex [symmetric] by blast
qed

lemma float_of_int_small: "\<bar>d\<bar> < 2 ^ 53 \<Longrightarrow> \<exists>f. float_of_int d = Some f"
  using fl_int [of d] fl_int [of "- d"] fl_neg [of "of_int (- d)"]
  by (cases d "0 :: int" rule: linorder_cases) (auto simp: float_of_int_def)

text \<open>C14. The freshness test decides exactly the integer window: for a window of a whole number of seconds the
  float division and comparison accept a timestamp if and only if it is at most that many seconds, in
  milliseconds, away from the clock; no rounding lets a later one in or keeps an earlier one out.\<close>

theorem freshness_window_exact:
  assumes "max_skew_s p = FFin (of_int n)" "0 < n" "n < 2 ^ 42"
    and "py_int (get env ''timestamp_ms'') = Inr ts" "get env ''timestamp_ms'' \<noteq> JNull"
  shows "accepts (check_freshness env p now r) \<longleftrightarrow> \<bar>now - ts\<bar> \<le> 1000 * n"
proof -
  have "\<exists>f. float_of_int (now - ts) = Some f" if "\<bar>now - ts\<bar> \<le> 1000 * n"
    using that assms(3) by (intro float_of_int_small) simp
  with assms(4,5) check_freshness_accepts [OF assms(1-3), of env now r] show ?thesis by auto
qed

theorem freshness_window_exact_witness:
  "accepts (check_freshness [(''timestamp_ms'', JInt 1000)] default_freshness 301001 (initial_report (\<lambda>_. []))) \<longleftrightarrow>
     \<bar>301001 - (1000::int)\<bar> \<le> 1000 * 300"
  by (rule freshness_window_exact) (simp_all add: default_freshness_def)

end
