(* ===== verification/Revocation.thy ===== *)
theory Revocation
  imports Envelope
begin

text \<open>
  \<open>cert/revocation.py\<close>: the cache of revocation answers with its time to live (RR-001), and the
  registry round trip (RR-002). One call is a function of the clock reading and of what the resolver
  would answer; a run is a list of calls. The lemmas: no answer is made up (fail-closed), and an
  answer served from the cache was the resolver's own less than \<open>ttl_s\<close> ago.
\<close>

type_synonym revocation_entry = "json \<times> pyfloat \<times> bool"

record revocation_cache =
  ttl_s :: pyfloat
  rev_cache :: "revocation_entry list"

fun cached_for :: "revocation_entry list \<Rightarrow> json \<Rightarrow> (pyfloat \<times> bool) option" where
  "cached_for [] kid = None"
| "cached_for ((k, e) # es) kid = (if key_eq k kid then Some e else cached_for es kid)"

text \<open>\<open>cache[kid] = e\<close>: a present key keeps its place and its first spelling.\<close>

fun cache_put :: "revocation_entry list \<Rightarrow> json \<Rightarrow> pyfloat \<times> bool \<Rightarrow> revocation_entry list" where
  "cache_put [] kid e = [(kid, e)]"
| "cache_put ((k, e') # es) kid e =
     (if key_eq k kid then (k, e) # es else (k, e') # cache_put es kid e)"

fun exc_text :: "exc \<Rightarrow> string" where
  "exc_text (OSError m) = m"
| "exc_text (RuntimeError m) = m"
| "exc_text (LookupError m) = m"
| "exc_text (OtherError c m) = m"
| "exc_text _ = []"

definition unresolvable :: "json \<Rightarrow> exc" where
  "unresolvable kid = RuntimeError (''revocation resolver returned None for kid '' @ py_repr kid
     @ ''; cannot determine status (treat as failure to verify)'')"

definition revocation_text :: "bool \<Rightarrow> string" where
  "revocation_text b = (if b then ''denied (revoked)'' else ''allowed (not revoked)'')"

definition is_revoked :: "json \<Rightarrow> pyfloat \<Rightarrow> exc + bool option \<Rightarrow> revocation_cache \<Rightarrow> cert_report
    \<Rightarrow> (exc + bool) \<times> revocation_cache \<times> cert_report" where
  "is_revoked kid now answer c r =
     (if \<not> hashable kid then (Inl TypeError, c, r)
      else let hit = (case cached_for (rev_cache c) kid of
               Some (t, b) \<Rightarrow> if flt (fsub now t) (ttl_s c) then Some b else None
             | None \<Rightarrow> None) in
      case hit of
        Some b \<Rightarrow> (Inr b, c, record_property_pass ''RR-001''
          [(''kid'', kid), (''outcome'', JStr (revocation_text b)), (''source'', JStr ''cache'')] r)
      | None \<Rightarrow>
         (case answer of
            Inl e \<Rightarrow> (Inl e, c, record_property_fail ''RR-001''
              [(''kid'', kid), (''outcome'', JStr ''error''), (''error'', JStr (exc_text e)),
               (''source'', JStr ''resolver'')] r)
          | Inr None \<Rightarrow> (Inl (unresolvable kid), c, record_property_fail ''RR-001''
              [(''kid'', kid), (''outcome'', JStr ''unresolvable''), (''source'', JStr ''resolver'')] r)
          | Inr (Some b) \<Rightarrow>
              (Inr b, c\<lparr>rev_cache := cache_put (rev_cache c) kid (now, b)\<rparr>,
               record_property_pass ''RR-001''
                 [(''kid'', kid), (''outcome'', JStr (revocation_text b)), (''source'', JStr ''resolver'')] r)))"

text \<open>RR-002; the registrar's two operations and its state are the registry client's.\<close>

definition round_trip_register :: "(string \<Rightarrow> string \<Rightarrow> 's \<Rightarrow> 's) \<Rightarrow> (string \<Rightarrow> 's \<Rightarrow> string option)
    \<Rightarrow> string \<Rightarrow> string \<Rightarrow> 's \<Rightarrow> cert_report \<Rightarrow> bool \<times> 's \<times> cert_report" where
  "round_trip_register register resolve kid pem s r =
     (let s' = register kid pem s; ok = (resolve kid s' = Some pem) in
      (ok, s', if ok then record_property_pass ''RR-002'' [(''kid'', JStr kid), (''outcome'', JStr ''ok'')] r
               else record_property_fail ''RR-002'' [(''kid'', JStr kid), (''outcome'', JStr ''mismatch'')] r))"

section \<open>Runs\<close>

record revocation_call =
  call_kid :: json
  call_now :: pyfloat
  call_answer :: "exc + bool option"

fun revocation_run :: "revocation_call list \<Rightarrow> revocation_cache \<times> cert_report
    \<Rightarrow> (exc + bool) list \<times> revocation_cache \<times> cert_report" where
  "revocation_run [] s = ([], s)"
| "revocation_run (q # qs) (c, r) =
     (let (res, c', r') = is_revoked (call_kid q) (call_now q) (call_answer q) c r;
          (rest, s) = revocation_run qs (c', r') in (res # rest, s))"

lemma cached_put:
  "cached_for (cache_put es kid e) k = (if key_eq kid k then Some e else cached_for es k)"
proof (induction es)
  case (Cons x es)
  obtain j v where x: "x = (j, v)" by (cases x)
  with Cons show ?case by (auto dest: key_eq_sym key_eq_trans)
qed simp

text \<open>Every cached answer is one of the calls': the resolver gave it, for that key, at that time.\<close>

definition vouched :: "revocation_call list \<Rightarrow> revocation_entry list \<Rightarrow> bool" where
  "vouched qs es \<longleftrightarrow> (\<forall>k t b. cached_for es k = Some (t, b) \<longrightarrow>
     (\<exists>q \<in> set qs. key_eq (call_kid q) k \<and> call_now q = t \<and> call_answer q = Inr (Some b)))"

lemma is_revoked_cases:
  assumes "is_revoked kid now answer c r = (Inr b, c', r')"
  shows "(\<exists>t. cached_for (rev_cache c) kid = Some (t, b) \<and> flt (fsub now t) (ttl_s c) \<and> c' = c) \<or>
    answer = Inr (Some b) \<and> c' = c\<lparr>rev_cache := cache_put (rev_cache c) kid (now, b)\<rparr>"
  using assms
  by (auto simp: is_revoked_def Let_def split: if_splits option.splits sum.splits prod.splits)

lemma is_revoked_error: "is_revoked kid now answer c r = (Inl e, c', r') \<Longrightarrow> c' = c"
  by (auto simp: is_revoked_def Let_def split: if_splits option.splits sum.splits prod.splits)

lemma is_revoked_vouched:
  assumes "vouched qs (rev_cache c)"
    and "is_revoked (call_kid q) (call_now q) (call_answer q) c r = (res, c', r')"
  shows "vouched (q # qs) (rev_cache c') \<and> ttl_s c' = ttl_s c"
proof (cases res)
  case (Inl e)
  with assms(2) have "c' = c" using is_revoked_error by blast
  with assms(1) show ?thesis by (fastforce simp: vouched_def)
next
  case (Inr b)
  with is_revoked_cases assms(2) have "c' = c \<or> call_answer q = Inr (Some b) \<and>
      c' = c\<lparr>rev_cache := cache_put (rev_cache c) (call_kid q) (call_now q, b)\<rparr>" by blast
  with assms(1) show ?thesis by (fastforce simp: vouched_def cached_put split: if_splits)
qed

lemma run_answers_vouched:
  assumes "vouched qs (rev_cache c)" "revocation_run calls (c, r) = (res, s)" "i < length calls"
    "res ! i = Inr b"
  shows "\<exists>q \<in> set qs \<union> set (take (Suc i) calls). key_eq (call_kid q) (call_kid (calls ! i)) \<and>
    call_answer q = Inr (Some b) \<and>
    (q = calls ! i \<or> flt (fsub (call_now (calls ! i)) (call_now q)) (ttl_s c))"
  using assms
proof (induction calls arbitrary: qs c r res s i)
  case (Cons q calls)
  obtain a c' r' where a: "is_revoked (call_kid q) (call_now q) (call_answer q) c r = (a, c', r')"
    by (metis surj_pair)
  obtain rest t where rest: "revocation_run calls (c', r') = (rest, t)" by (metis surj_pair)
  have res: "res = a # rest" using Cons.prems(2) a rest by simp
  show ?case
  proof (cases i)
    case 0
    with Cons.prems res a have "is_revoked (call_kid q) (call_now q) (call_answer q) c r = (Inr b, c', r')"
      by simp
    from is_revoked_cases [OF this] Cons.prems(1) 0 show ?thesis
      by (fastforce simp: vouched_def)
  next
    case (Suc j)
    note v = is_revoked_vouched [OF Cons.prems(1) a]
    have "\<exists>p \<in> set (q # qs) \<union> set (take (Suc j) calls). key_eq (call_kid p) (call_kid (calls ! j)) \<and>
        call_answer p = Inr (Some b) \<and>
        (p = calls ! j \<or> flt (fsub (call_now (calls ! j)) (call_now p)) (ttl_s c'))"
      by (rule Cons.IH [OF _ rest]) (use v Suc res Cons.prems in auto)
    with v Suc show ?thesis by auto
  qed
qed simp

section \<open>Properties\<close>

text \<open>C16. No revocation answer is made up and none is stale: over any run of calls on a new cache, every answer
  is the registry's own answer for that key, given at that call or at an earlier one less than the
  time to live before it. (A call that raises answers nothing: the caller fails closed.)\<close>

theorem revocation_answers_vouched:
  assumes "revocation_run calls (\<lparr>ttl_s = ttl, rev_cache = []\<rparr>, r) = (res, s)" "i < length calls" "res ! i = Inr b"
  shows "\<exists>q \<in> set (take (Suc i) calls). key_eq (call_kid q) (call_kid (calls ! i)) \<and>
    call_answer q = Inr (Some b) \<and> (q = calls ! i \<or> flt (fsub (call_now (calls ! i)) (call_now q)) ttl)"
  using run_answers_vouched [of "[]" "\<lparr>ttl_s = ttl, rev_cache = []\<rparr>", OF _ assms] by (simp add: vouched_def)

definition demo_calls :: "revocation_call list" where
  "demo_calls = [\<lparr>call_kid = JStr ''K'', call_now = FFin 0, call_answer = Inr (Some False)\<rparr>,
     \<lparr>call_kid = JStr ''K'', call_now = FFin 30, call_answer = Inl TypeError\<rparr>]"

lemma fl_30: "fl 30 = FFin 30"
  using fl_int [of 30] by simp

theorem revocation_answers_vouched_witness:
  "\<exists>q \<in> set (take (Suc 1) demo_calls). key_eq (call_kid q) (call_kid (demo_calls ! 1)) \<and>
    call_answer q = Inr (Some False) \<and> (q = demo_calls ! 1 \<or> flt (fsub (call_now (demo_calls ! 1)) (call_now q)) (FFin 60))"
proof (rule revocation_answers_vouched)
  show "revocation_run demo_calls (\<lparr>ttl_s = FFin 60, rev_cache = []\<rparr>, initial_report (\<lambda>_. [])) =
      (fst (revocation_run demo_calls (\<lparr>ttl_s = FFin 60, rev_cache = []\<rparr>, initial_report (\<lambda>_. []))),
       snd (revocation_run demo_calls (\<lparr>ttl_s = FFin 60, rev_cache = []\<rparr>, initial_report (\<lambda>_. []))))" by simp
  show "1 < length demo_calls" by (simp add: demo_calls_def)
  show "fst (revocation_run demo_calls (\<lparr>ttl_s = FFin 60, rev_cache = []\<rparr>, initial_report (\<lambda>_. []))) ! 1 = Inr False"
    by (simp add: demo_calls_def is_revoked_def Let_def fl_30)
qed

end
