(* ===== verification/Rrn_Binding.thy ===== *)
theory Rrn_Binding
  imports Gates
begin

text \<open>
  \<open>cert/rrn_binding.py\<close> (MF-003): the robot named by the envelope's \<open>rcan://RRN-.../\<close> address is the
  robot of the manifest. \<open>yaml.safe_load\<close> is a parameter; the values it returns are taken to be JSON
  values. The lemma gives the exact addresses that bind.
\<close>

text \<open>\<open>^rcan://(?P<rrn>RRN-[A-Za-z0-9]+)(?:/|$)\<close>, where \<open>$\<close> also matches before a final newline.\<close>

definition rrn_from_ruri :: "string option \<Rightarrow> string option" where
  "rrn_from_ruri ruri = (case ruri of None \<Rightarrow> None
     | Some u \<Rightarrow>
        if \<not> startswith u ''rcan://RRN-'' then None
        else let rest = drop 11 u; name = takeWhile is_alnum rest; tail = dropWhile is_alnum rest in
          if name \<noteq> [] \<and> (tail = [] \<or> tail = [CHR 0x0A] \<or> startswith tail ''/'')
          then Some (''RRN-'' @ name) else None)"

type_synonym yaml_load = "string \<Rightarrow> exc + json"

text \<open>The YAML between the first \<open>---\<close> and the next line starting with it.\<close>

definition frontmatter_text :: "string \<Rightarrow> string option" where
  "frontmatter_text text =
     (if \<not> startswith text ''---'' then None
      else map_option (\<lambda>end. take (end - 3) (drop 3 text)) (find_from (CHR 0x0A # ''---'') text 3))"

text \<open>\<open>(fm.get("metadata") or {}).get("rrn") or fm.get("rrn")\<close>.\<close>

definition manifest_rrn_of :: "json \<Rightarrow> exc + json" where
  "manifest_rrn_of fm =
     bindE (py_get fm ''metadata'') (\<lambda>md.
     bindE (py_get (py_or md (JObj [])) ''rrn'') (\<lambda>a.
     if truthy a then Inr a else py_get fm ''rrn''))"

definition rrn_from_manifest :: "yaml_load \<Rightarrow> exc + string \<Rightarrow> exc + string option" where
  "rrn_from_manifest yaml read =
     bindE read (\<lambda>text.
     case frontmatter_text text of
       None \<Rightarrow> Inr None
     | Some y \<Rightarrow> bindE (yaml y) (\<lambda>v. bindE (manifest_rrn_of (py_or v (JObj []))) (\<lambda>rrn.
         Inr (if truthy rrn then Some (py_str rrn) else None))))"

record rrn_result =
  rrn_accepted :: bool
  rrn_envelope :: "string option"
  rrn_manifest :: json
  rrn_reason :: string

definition verify_rrn_binding ::
    "string option \<Rightarrow> json \<Rightarrow> string \<Rightarrow> cert_report \<Rightarrow> rrn_result \<times> cert_report" where
  "verify_rrn_binding envelope_ruri manifest_rrn msg_id r =
     (let env_rrn = rrn_from_ruri envelope_ruri;
          ev = (\<lambda>out. [(''msg_id'', JStr msg_id), (''envelope_rrn'', JOpt env_rrn),
                  (''manifest_rrn'', manifest_rrn), (''outcome'', JStr out)]);
          deny = (\<lambda>reason.
            (\<lparr>rrn_accepted = False, rrn_envelope = env_rrn, rrn_manifest = manifest_rrn, rrn_reason = reason\<rparr>,
             record_entry ''MF-003'' ''fail'' (ev (''denied ('' @ reason @ '')'')) r)) in
      case env_rrn of
        None \<Rightarrow> deny ''envelope ruri has no RRN host (expected rcan://RRN-.../...)''
      | Some rrn \<Rightarrow>
          if \<not> truthy manifest_rrn then deny ''manifest declares no metadata.rrn''
          else if JStr rrn \<noteq> manifest_rrn then
            deny (''envelope RRN '' @ rrn @ '' != manifest RRN '' @ py_str manifest_rrn)
          else (\<lparr>rrn_accepted = True, rrn_envelope = env_rrn, rrn_manifest = manifest_rrn, rrn_reason = ''ok''\<rparr>,
                record_entry ''MF-003'' ''pass'' (ev ''allowed'') r))"

lemma rrn_from_ruri_iff:
  "rrn_from_ruri (Some u) = Some rrn \<longleftrightarrow>
     (\<exists>name tail. rrn = ''RRN-'' @ name \<and> u = ''rcan://RRN-'' @ name @ tail \<and> name \<noteq> [] \<and>
        (\<forall>c \<in> set name. is_alnum c) \<and> (tail = [] \<or> tail = [CHR 0x0A] \<or> startswith tail ''/''))"
proof
  assume a: "rrn_from_ruri (Some u) = Some rrn"
  then obtain v where u: "u = ''rcan://RRN-'' @ v"
    unfolding rrn_from_ruri_def startswith_iff by (auto split: if_splits)
  have "v = takeWhile is_alnum v @ dropWhile is_alnum v" by simp
  with a u show "\<exists>name tail. rrn = ''RRN-'' @ name \<and> u = ''rcan://RRN-'' @ name @ tail \<and> name \<noteq> [] \<and>
      (\<forall>c \<in> set name. is_alnum c) \<and> (tail = [] \<or> tail = [CHR 0x0A] \<or> startswith tail ''/'')"
    by (intro exI [of _ "takeWhile is_alnum v"] exI [of _ "dropWhile is_alnum v"])
      (auto simp: rrn_from_ruri_def Let_def dest: set_takeWhileD split: if_splits)
next
  assume "\<exists>name tail. rrn = ''RRN-'' @ name \<and> u = ''rcan://RRN-'' @ name @ tail \<and> name \<noteq> [] \<and>
    (\<forall>c \<in> set name. is_alnum c) \<and> (tail = [] \<or> tail = [CHR 0x0A] \<or> startswith tail ''/'')"
  then obtain name tail where n: "rrn = ''RRN-'' @ name" "u = ''rcan://RRN-'' @ name @ tail" "name \<noteq> []"
    "\<forall>c \<in> set name. is_alnum c" "tail = [] \<or> tail = [CHR 0x0A] \<or> startswith tail ''/''" by blast
  have "tail = [] \<or> \<not> is_alnum (hd tail)"
    using n(5) by (cases tail) (auto simp: is_alnum_def is_digit_def is_alpha_def)
  then have span: "takeWhile is_alnum (name @ tail) = name" "dropWhile is_alnum (name @ tail) = tail"
    using n(4) by (cases tail; simp add: takeWhile_append2 dropWhile_append2)+
  have "rrn_from_ruri (Some u) = (if name \<noteq> [] \<and> (tail = [] \<or> tail = [CHR 0x0A] \<or> startswith tail ''/'')
      then Some (''RRN-'' @ name) else None)"
    unfolding n(2) rrn_from_ruri_def by (simp add: span del: dropWhile_eq_Nil_conv)
  with n(1,3,5) show "rrn_from_ruri (Some u) = Some rrn" by simp
qed

lemma verify_rrn_binding_accepts:
  "rrn_accepted (fst (verify_rrn_binding u m i r)) \<longleftrightarrow> (\<exists>rrn. rrn_from_ruri u = Some rrn \<and> m = JStr rrn)"
  by (auto simp: verify_rrn_binding_def Let_def rrn_from_ruri_def split: option.splits if_splits)

interpretation rrn_gate: cert_gate "\<lambda>(u, m, i) r.
    let (v, r') = verify_rrn_binding u m i r in (Inr (rrn_accepted v, rrn_reason v), r')"
  by unfold_locales (auto simp: verify_rrn_binding_def Let_def split: option.splits if_splits)

section \<open>Properties\<close>

text \<open>RRN binding: an envelope binds to a manifest exactly when its address is \<open>rcan://RRN-\<close>, an alphanumeric
  name, and then the end or a slash, and \<open>RRN-\<close> with that very name is the manifest's RRN.\<close>

theorem rrn_binding_exact:
  "rrn_accepted (fst (verify_rrn_binding (Some u) m i r)) \<longleftrightarrow>
     (\<exists>name tail. u = ''rcan://RRN-'' @ name @ tail \<and> m = JStr (''RRN-'' @ name) \<and> name \<noteq> [] \<and>
        list_all is_alnum name \<and> (tail = [] \<or> tail = [CHR 0x0A] \<or> startswith tail ''/''))"
  unfolding verify_rrn_binding_accepts rrn_from_ruri_iff by (auto simp: list_all_iff)

end
