(* ===== verification/Manifest_Provenance.thy ===== *)
theory Manifest_Provenance
  imports Envelope
begin

text \<open>
  \<open>manifest_provenance.py\<close> (MF-001, MF-002): a ROBOT.md is accepted when its footer names a key the
  resolver knows and carries that key's signature of everything before the footer. The footer's
  regular expression is the scanner \<open>match_footer\<close>: each of its repetitions is followed by a character
  the repetition cannot match, so the greedy reading is the only one. The lemmas: acceptance is one
  verification of the text before the first footer, every refusal returns a result and what raises.
\<close>

definition strip_prefix :: "string \<Rightarrow> string \<Rightarrow> string option" where
  "strip_prefix p s = (if startswith s p then Some (drop (length p) s) else None)"

definition skip_ws :: "string \<Rightarrow> string" where
  "skip_ws s = dropWhile py_isspace s"

definition skip_ws1 :: "string \<Rightarrow> string option" where
  "skip_ws1 s = (if takeWhile py_isspace s = [] then None else Some (skip_ws s))"

definition run1 :: "(char \<Rightarrow> bool) \<Rightarrow> string \<Rightarrow> (string \<times> string) option" where
  "run1 P s = (if takeWhile P s = [] then None else Some (takeWhile P s, dropWhile P s))"

definition is_b64 :: "char \<Rightarrow> bool" where
  "is_b64 c = (is_alnum c \<or> c = CHR ''+'' \<or> c = CHR ''/'' \<or> c = CHR ''='')"

text \<open>\<open>_SIG_RE\<close> anchored at the start of \<open>s\<close>: the kid and the base64 text.\<close>

definition match_footer :: "string \<Rightarrow> (string \<times> string) option" where
  "match_footer s =
     Option.bind (strip_prefix (CHR 0x0A # ''<!--'') s) (\<lambda>s.
     Option.bind (strip_prefix ''ROBOT-MD-SIG'' (skip_ws s)) (\<lambda>s.
     Option.bind (skip_ws1 s) (\<lambda>s.
     Option.bind (strip_prefix ''kid='' s) (\<lambda>s.
     Option.bind (run1 (\<lambda>c. \<not> py_isspace c) s) (\<lambda>(kid, s).
     Option.bind (skip_ws1 s) (\<lambda>s.
     Option.bind (strip_prefix ''sig='' s) (\<lambda>s.
     Option.bind (run1 is_b64 s) (\<lambda>(sig, s).
     Option.bind (strip_prefix ''-->'' (skip_ws s)) (\<lambda>s.
     if skip_ws s = [] then Some (kid, sig) else None)))))))))"

text \<open>\<open>_SIG_RE.search\<close>: where the first footer starts.\<close>

fun search_footer :: "string \<Rightarrow> (nat \<times> string \<times> string) option" where
  "search_footer [] = None"
| "search_footer (c # cs) =
     (case match_footer (c # cs) of
        Some x \<Rightarrow> Some (0, x)
      | None \<Rightarrow> map_option (\<lambda>(n, x). (Suc n, x)) (search_footer cs))"

record manifest_result =
  mf_accepted :: bool
  mf_kid :: "string option"
  mf_reason :: string

abbreviation unproven :: "string option \<Rightarrow> string \<Rightarrow> exc + manifest_result" where
  "unproven kid why \<equiv> Inr \<lparr>mf_accepted = False, mf_kid = kid, mf_reason = why\<rparr>"

text \<open>\<open>read\<close> is what \<open>path.read_text()\<close> gives; an OSError's name is its class.\<close>

definition verify_manifest :: "crypto \<Rightarrow> 'rs resolver \<Rightarrow> exc + string \<Rightarrow> 'rs
    \<Rightarrow> (exc + manifest_result) \<times> 'rs" where
  "verify_manifest C resolve read rs =
     (case read of
        Inl (OSError name) \<Rightarrow> (unproven None (''manifest unreadable: '' @ name), rs)
      | Inl e \<Rightarrow> (Inl e, rs)
      | Inr text \<Rightarrow>
        (case search_footer text of
           None \<Rightarrow> (unproven None ''no ROBOT-MD-SIG footer (signature absent)'', rs)
         | Some (start, kid, sig64) \<Rightarrow>
           (case b64decode sig64 of
              Inl e \<Rightarrow> (Inl e, rs)
            | Inr sig \<Rightarrow>
              (case resolve (JStr kid) rs of
                 (Inl e, rs') \<Rightarrow> (Inl e, rs')
               | (Inr None, rs') \<Rightarrow>
                   (unproven (Some kid) (''signing kid '' @ kid @ '' not registered with resolver''), rs')
               | (Inr (Some pem), rs') \<Rightarrow>
                   ((case load_pem_public_key C pem of
                       PemRaises e \<Rightarrow> Inl e
                     | PemValueError msg \<Rightarrow> unproven (Some kid) (''public key PEM invalid: '' @ msg)
                     | PemKey OtherKey \<Rightarrow> unproven (Some kid) ''public key is not Ed25519''
                     | PemKey (Ed25519PublicKey pub) \<Rightarrow>
                         if ed_verify C pub sig (take start text)
                         then Inr \<lparr>mf_accepted = True, mf_kid = Some kid, mf_reason = ''ok''\<rparr>
                         else unproven (Some kid) ''signature did not verify against the body''), rs')))))"

section \<open>What acceptance means\<close>

lemma search_footer_first:
  "search_footer s = Some (n, x) \<Longrightarrow>
     n < length s \<and> match_footer (drop n s) = Some x \<and> (\<forall>i < n. match_footer (drop i s) = None)"
proof (induction s arbitrary: n)
  case (Cons c cs)
  show ?case
  proof (cases "match_footer (c # cs)")
    case None
    with Cons.prems obtain k where k: "n = Suc k" "search_footer cs = Some (k, x)" by auto
    with Cons.IH [OF k(2)] None show ?thesis by (auto simp: less_Suc_eq_0_disj)
  qed (use Cons.prems in auto)
qed simp

definition manifest_signed :: "crypto \<Rightarrow> string \<Rightarrow> string \<Rightarrow> string \<Rightarrow> bool" where
  "manifest_signed C text kid pem \<longleftrightarrow>
     (\<exists>n sig64 sig pub. search_footer text = Some (n, kid, sig64) \<and> b64decode sig64 = Inr sig \<and>
        load_pem_public_key C pem = PemKey (Ed25519PublicKey pub) \<and> ed_verify C pub sig (take n text))"

lemma verify_manifest_accepts:
  "(\<exists>v rs'. verify_manifest C resolve read rs = (Inr v, rs') \<and> mf_accepted v \<and> mf_kid v = Some kid) \<longleftrightarrow>
     (\<exists>text pem rs'. read = Inr text \<and> resolve (JStr kid) rs = (Inr (Some pem), rs') \<and>
        manifest_signed C text kid pem)"
proof (cases read)
  case (Inl e)
  then show ?thesis by (cases e) (simp_all add: verify_manifest_def)
next
  case rd: (Inr txt0)
  show ?thesis
  proof (cases "search_footer txt0")
    case None
    with rd show ?thesis by (simp add: verify_manifest_def manifest_signed_def)
  next
    case (Some f)
    obtain n k s where "f = (n, k, s)" by (cases f)
    with Some have f: "search_footer txt0 = Some (n, k, s)" by simp
    obtain a rs' where r: "resolve (JStr k) rs = (a, rs')" by (meson surj_pair)
    note known = verify_manifest_def manifest_signed_def rd f r
    show ?thesis
    proof (cases "b64decode s")
      case sig: (Inr sig)
      show ?thesis
      proof (cases a)
        case (Inr p)
        then show ?thesis
          by (cases "kid = k"; cases p)
            (auto simp: known sig split: pem_load.splits public_key.splits if_splits)
      next
        case (Inl e)
        then show ?thesis by (cases "kid = k") (auto simp: known sig)
      qed
    next
      case (Inl e)
      then show ?thesis by (auto simp: known)
    qed
  qed
qed

lemma accepted_has_kid:
  "verify_manifest C resolve read rs = (Inr v, rs') \<Longrightarrow> mf_accepted v \<Longrightarrow> \<exists>kid. mf_kid v = Some kid"
  by (auto simp: verify_manifest_def split: sum.splits exc.splits option.splits prod.splits pem_load.splits
      public_key.splits if_splits)

text \<open>An unreadable file is always an answer, never an exception.\<close>

lemma unreadable_is_answered:
  "verify_manifest C resolve (Inl (OSError name)) rs =
     (unproven None (''manifest unreadable: '' @ name), rs)"
  by (simp add: verify_manifest_def)

section \<open>Properties\<close>

text \<open>C15. An accepted manifest was read, its first footer names a kid the resolver answered, and the Ed25519
  signature in that footer verifies under that key over everything before the footer: nothing after
  the signed text, and no earlier footer, can stand in for it.\<close>

theorem manifest_acceptance:
  assumes "verify_manifest C resolve read rs = (Inr v, rs')" "mf_accepted v"
  shows "\<exists>kid body foot sig64 sig pem pub. mf_kid v = Some kid \<and> read = Inr (body @ foot) \<and>
     match_footer foot = Some (kid, sig64) \<and> (\<forall>i < length body. match_footer (drop i (body @ foot)) = None) \<and>
     b64decode sig64 = Inr sig \<and> fst (resolve (JStr kid) rs) = Inr (Some pem) \<and>
     load_pem_public_key C pem = PemKey (Ed25519PublicKey pub) \<and> ed_verify C pub sig body"
proof -
  obtain kid where kid: "mf_kid v = Some kid" using accepted_has_kid [OF assms] by blast
  with assms verify_manifest_accepts [of C resolve read rs kid] obtain body pem rs'' where
    b: "read = Inr body" "resolve (JStr kid) rs = (Inr (Some pem), rs'')" "manifest_signed C body kid pem" by blast
  then obtain n sig64 sig pub where n: "search_footer body = Some (n, kid, sig64)" "b64decode sig64 = Inr sig"
      "load_pem_public_key C pem = PemKey (Ed25519PublicKey pub)" "ed_verify C pub sig (take n body)"
    unfolding manifest_signed_def by blast
  note f = search_footer_first [OF n(1)]
  have foot: "match_footer (drop n body) = Some (kid, sig64)"
    "\<forall>i < length (take n body). match_footer (drop i (take n body @ drop n body)) = None" using f by auto
  have split: "read = Inr (take n body @ drop n body)" "fst (resolve (JStr kid) rs) = Inr (Some pem)"
    using b(1,2) by simp_all
  show ?thesis using kid split foot n(2-4) by blast
qed

definition signed_manifest :: string where
  "signed_manifest = ''robot'' @ [CHR 0x0A] @ ''<!-- ROBOT-MD-SIG kid=K sig=AAAA -->''"

definition footer_crypto :: crypto where
  "footer_crypto = demo_crypto\<lparr>ed_verify := \<lambda>pub s m. pub = ''P'' \<and> m = ''robot''\<rparr>"

definition footer_result :: manifest_result where
  "footer_result = \<lparr>mf_accepted = True, mf_kid = Some ''K'', mf_reason = ''ok''\<rparr>"

definition footer_resolver :: "unit resolver" where
  "footer_resolver k rs = (Inr (Some ''P''), rs)"

theorem manifest_acceptance_witness:
  "\<exists>kid body foot sig64 sig pem pub. mf_kid footer_result = Some kid \<and> (Inr signed_manifest :: exc + string) = Inr (body @ foot) \<and>
     match_footer foot = Some (kid, sig64) \<and> (\<forall>i < length body. match_footer (drop i (body @ foot)) = None) \<and>
     b64decode sig64 = Inr sig \<and> fst (footer_resolver (JStr kid) ()) = Inr (Some pem) \<and>
     load_pem_public_key footer_crypto pem = PemKey (Ed25519PublicKey pub) \<and> ed_verify footer_crypto pub sig body"
proof (rule manifest_acceptance)
  have f: "search_footer signed_manifest = Some (5, ''K'', ''AAAA'')" by code_simp
  have b: "b64decode ''AAAA'' = Inr [CHR 0x00, CHR 0x00, CHR 0x00]" by code_simp
  have t: "take 5 signed_manifest = ''robot''" by (simp add: signed_manifest_def)
  show "verify_manifest footer_crypto footer_resolver (Inr signed_manifest) () = (Inr footer_result, ())"
    by (simp add: verify_manifest_def f b t demo_crypto_def footer_crypto_def footer_resolver_def footer_result_def)
  show "mf_accepted footer_result" by (simp add: footer_result_def)
qed

end
