(* ===== verification/Auth.thy ===== *)
theory Auth
  imports Rrn_Binding Manifest_Provenance
begin

text \<open>
  \<open>auth.py\<close>: the bearer file (who presents a credential and at what tier), the legacy routes'
  authentication, the actuator sections of the same file, and the resolver that fetches a kid's
  public key from the registry and caches it. YAML's parser and the network are parameters. The
  locale \<open>key_resolver\<close> is the stability its clients rely on: a key that resolved keeps resolving to
  the same bytes, so a verdict on a signature does not change while the process lives.
\<close>

section \<open>Bearers\<close>

record bearer_entry =
  be_token :: json
  be_tier :: json
  be_caller :: json

type_synonym bearer_store = "(json \<times> bearer_entry) list"

definition bearer_row :: "json \<Rightarrow> exc + bearer_entry" where
  "bearer_row row =
     bindE (item row ''token'') (\<lambda>token. bindE (item row ''tier'') (\<lambda>tier.
     bindE (py_get row ''caller'') (\<lambda>caller.
       Inr \<lparr>be_token = token, be_tier = tier, be_caller = caller\<rparr>)))"

fun map_rows :: "('a \<Rightarrow> exc + 'b) \<Rightarrow> 'a list \<Rightarrow> exc + 'b list" where
  "map_rows f [] = Inr []"
| "map_rows f (x # xs) = bindE (f x) (\<lambda>y. bindE (map_rows f xs) (\<lambda>ys. Inr (y # ys)))"

definition known_tier :: "json \<Rightarrow> bool" where
  "known_tier t = (t \<in> {JStr ''read'', JStr ''actuate'', JStr ''commission''})"

text \<open>\<open>{e.token: e for e in entries}\<close>: of two entries with one token the later wins.\<close>

fun index_tokens :: "bearer_entry list \<Rightarrow> exc + bearer_store" where
  "index_tokens [] = Inr []"
| "index_tokens (e # es) =
     (if \<not> hashable (be_token e) then Inl TypeError
      else bindE (index_tokens es) (\<lambda>rest. Inr (rest @ [(be_token e, e)])))"

fun store_get :: "bearer_store \<Rightarrow> json \<Rightarrow> bearer_entry option" where
  "store_get [] t = None"
| "store_get ((k, e) # s) t = (if key_eq k t then Some e else store_get s t)"

definition bearers_from_yaml :: "yaml_load \<Rightarrow> exc + string \<Rightarrow> exc + bearer_store" where
  "bearers_from_yaml yaml read =
     bindE read (\<lambda>text. bindE (yaml text) (\<lambda>data0.
     let data = (if data0 = JNull then JArr [] else data0) in
     bindE (case data of JObj d \<Rightarrow> Inr (py_or (get d ''bearers'') (JArr []))
            | JArr xs \<Rightarrow> Inr data | _ \<Rightarrow> Inl ValueError) (\<lambda>rows.
     bindE (items_of rows) (\<lambda>xs. bindE (map_rows bearer_row xs) (\<lambda>entries.
     if entries = [] then Inl ValueError
     else if \<not> (\<forall>e \<in> set entries. known_tier (be_tier e)) then Inl ValueError
     else index_tokens entries)))))"

definition resolve_bearer :: "bearer_store \<Rightarrow> string \<Rightarrow> bearer_entry option" where
  "resolve_bearer store token = store_get store (JStr token)"

definition load_bearer_store_from_env ::
    "(string \<Rightarrow> string option) \<Rightarrow> yaml_load \<Rightarrow> (string \<Rightarrow> exc + string) \<Rightarrow> exc + bearer_store" where
  "load_bearer_store_from_env env yaml read =
     (case env ''ROBOT_MD_BEARERS_FILE'' of
        None \<Rightarrow> Inl (RuntimeError ''ROBOT_MD_BEARERS_FILE not set'')
      | Some path \<Rightarrow> if path = [] then Inl (RuntimeError ''ROBOT_MD_BEARERS_FILE not set'')
                    else bearers_from_yaml yaml (read path))"

section \<open>The legacy routes' credentials\<close>

text \<open>\<open>Inl (status, detail)\<close> is an HTTPException.\<close>

definition parse_bearer :: "string option \<Rightarrow> (nat \<times> string) + string" where
  "parse_bearer authorization =
     (case authorization of None \<Rightarrow> Inl (401, ''missing Authorization header'')
      | Some a \<Rightarrow>
         if a = [] then Inl (401, ''missing Authorization header'')
         else if \<not> startswith a ''Bearer '' then Inl (401, ''Authorization must be Bearer <token>'')
         else Inr (strip (drop 7 a)))"

definition validate_api_key :: "string option \<Rightarrow> (nat \<times> string) + string" where
  "validate_api_key key =
     (case key of None \<Rightarrow> Inl (401, ''missing X-Anthropic-Api-Key header (BYOK required)'')
      | Some k \<Rightarrow>
         if k = [] then Inl (401, ''missing X-Anthropic-Api-Key header (BYOK required)'')
         else if \<not> startswith k ''sk-ant-'' then Inl (401, ''invalid Anthropic API key format'')
         else Inr k)"

record auth_context =
  ctx_caller_id :: json
  ctx_tier :: json
  ctx_api_key :: string

definition api_key_fingerprint :: "auth_context \<Rightarrow> string" where
  "api_key_fingerprint c = take 12 (sha256 (ctx_api_key c))"

definition auth_dep :: "bearer_store \<Rightarrow> string option \<Rightarrow> string option \<Rightarrow> (nat \<times> string) + auth_context" where
  "auth_dep store authorization key =
     bindE (parse_bearer authorization) (\<lambda>token.
     case resolve_bearer store token of
       None \<Rightarrow> Inl (401, ''unknown bearer'')
     | Some e \<Rightarrow> bindE (validate_api_key key) (\<lambda>k.
         Inr \<lparr>ctx_caller_id = be_caller e, ctx_tier = be_tier e, ctx_api_key = k\<rparr>))"

section \<open>The actuator sections\<close>

definition load_actuator_section :: "yaml_load \<Rightarrow> exc + string \<Rightarrow> exc + json \<times> json" where
  "load_actuator_section yaml read =
     bindE read (\<lambda>text. bindE (yaml text) (\<lambda>data.
     case data of
       JObj d \<Rightarrow>
         (let section = py_or (get d ''actuator'') (JObj []) in
          bindE (py_get section ''name'') (\<lambda>n. bindE (py_get section ''config'') (\<lambda>c.
            Inr (py_or n (JStr ''noop''), py_or c (JObj [])))))
     | _ \<Rightarrow> Inr (JStr ''noop'', JObj [])))"

fun named_actuators :: "json list \<Rightarrow> (json \<times> json) list" where
  "named_actuators [] = []"
| "named_actuators (JObj e # xs) =
     (if \<not> truthy (get e ''name'') then named_actuators xs
      else (get e ''name'', py_or (get e ''config'') (JObj [])) # named_actuators xs)"
| "named_actuators (_ # xs) = named_actuators xs"

definition load_actuators_section :: "yaml_load \<Rightarrow> exc + string \<Rightarrow> exc + (json \<times> json) list" where
  "load_actuators_section yaml read =
     bindE read (\<lambda>text. bindE (yaml text) (\<lambda>data.
     Inr (case data of
       JObj d \<Rightarrow> (case get d ''actuators'' of JArr raw \<Rightarrow> named_actuators raw | _ \<Rightarrow> [])
     | _ \<Rightarrow> [])))"

section \<open>The registry resolver\<close>

text \<open>What one HTTP request comes to: building it raised, opening or reading it raised, or a status
  with a body.\<close>

datatype http_reply = RequestRaises exc | OpenRaises | Reply int string

record rrf_resolver =
  rrf_base :: string
  rrf_cache :: "(json \<times> string) list"
  rrf_asked :: nat
  rrf_net :: "nat \<Rightarrow> string \<Rightarrow> http_reply"

definition new_resolver :: "string \<Rightarrow> (nat \<Rightarrow> string \<Rightarrow> http_reply) \<Rightarrow> rrf_resolver" where
  "new_resolver base net = \<lparr>rrf_base = rstrip_char (CHR ''/'') base, rrf_cache = [], rrf_asked = 0,
     rrf_net = net\<rparr>"

definition resolver_from_env ::
    "(string \<Rightarrow> string option) \<Rightarrow> (nat \<Rightarrow> string \<Rightarrow> http_reply) \<Rightarrow> rrf_resolver" where
  "resolver_from_env env net = new_resolver
     (case env ''OPENCASTOR_OPS_RRF_URL'' of None \<Rightarrow> ''https://robotregistryfoundation.org'' | Some u \<Rightarrow> u) net"

fun cached_pem :: "(json \<times> string) list \<Rightarrow> json \<Rightarrow> string option" where
  "cached_pem [] kid = None"
| "cached_pem ((k, p) # c) kid = (if key_eq k kid then Some p else cached_pem c kid)"

text \<open>The key of a 200 reply, empty when the reply carries none; whatever raises is \<open>None\<close>.\<close>

definition pem_of_reply :: "int \<Rightarrow> string \<Rightarrow> string option" where
  "pem_of_reply status body =
     (if status \<noteq> 200 then None
      else case json_loads body of
        Some (JObj d) \<Rightarrow> (case get_def d ''public_key_pem'' (JStr []) of JStr p \<Rightarrow> Some p | _ \<Rightarrow> None)
      | _ \<Rightarrow> None)"

definition resolve_public_key_pem :: "rrf_resolver resolver" where
  "resolve_public_key_pem kid R =
     (if \<not> hashable kid then (Inl TypeError, R)
      else case cached_pem (rrf_cache R) kid of
        Some p \<Rightarrow> (Inr (Some p), R)
      | None \<Rightarrow>
         (let url = rrf_base R @ ''/v2/keys/'' @ py_str kid;
              R' = R\<lparr>rrf_asked := Suc (rrf_asked R)\<rparr> in
          case rrf_net R (rrf_asked R) url of
            RequestRaises e \<Rightarrow> (Inl e, R')
          | OpenRaises \<Rightarrow> (Inr None, R')
          | Reply status body \<Rightarrow>
             (case pem_of_reply status body of
                None \<Rightarrow> (Inr None, R')
              | Some p \<Rightarrow> if p = [] then (Inr None, R')
                          else (Inr (Some p), R'\<lparr>rrf_cache := (kid, p) # rrf_cache R\<rparr>))))"

section \<open>The resolver's contract\<close>

locale key_resolver =
  fixes resolve :: "'rs resolver"
    and holds :: "json \<Rightarrow> string \<Rightarrow> 'rs \<Rightarrow> bool"
  assumes learns: "resolve kid rs = (Inr (Some pem), rs') \<Longrightarrow> holds kid pem rs'"
    and keeps: "holds kid pem rs \<Longrightarrow> holds kid pem (snd (resolve k rs))"
    and knows: "holds kid pem rs \<Longrightarrow> resolve kid rs = (Inr (Some pem), rs)"
begin

lemma keeps_fold: "holds kid pem rs \<Longrightarrow> holds kid pem (fold (\<lambda>k rs. snd (resolve k rs)) kids rs)"
  by (induction kids arbitrary: rs) (simp_all add: keeps)

text \<open>An accepted envelope is accepted again, whatever was resolved in between.\<close>

lemma envelope_verdict_stable:
  assumes "verify_envelope C resolve env r rs = (Inr v, r', rs')" "env_accepted v"
  shows "\<exists>s. verify_envelope C resolve env q (fold (\<lambda>k rs. snd (resolve k rs)) kids rs') = (Inr v, s)"
proof -
  obtain sig where sig: "get env ''envelope_signature'' = JObj sig"
    using assms by (auto simp: verify_envelope_def split: json.splits)
  obtain a where a: "resolve (get sig ''kid'') rs = (a, rs')"
    using assms(1) sig by (auto simp: verify_envelope_def Let_def split: prod.splits sum.splits)
  obtain pem where pem: "a = Inr pem" "verify_with_pem C env sig (get sig ''kid'') pem = Inr v"
    using assms(1) sig a by (cases a) (auto simp: verify_envelope_def Let_def)
  then obtain p where "pem = Some p" using assms(2) by (cases pem) (auto simp: verify_with_pem_def)
  with pem a have "holds (get sig ''kid'') p (fold (\<lambda>k rs. snd (resolve k rs)) kids rs')"
    using learns keeps_fold by blast
  with knows sig pem \<open>pem = Some p\<close> show ?thesis by (simp add: verify_envelope_def Let_def)
qed

text \<open>And so is an accepted manifest.\<close>

lemma manifest_verdict_stable:
  assumes "verify_manifest C resolve read rs = (Inr v, rs')" "mf_accepted v"
  shows "fst (verify_manifest C resolve read (fold (\<lambda>k rs. snd (resolve k rs)) kids rs')) = Inr v"
proof -
  obtain kid where kid: "mf_kid v = Some kid" using accepted_has_kid [OF assms] by blast
  obtain body n s sig where t: "read = Inr body" "search_footer body = Some (n, kid, s)" "b64decode s = Inr sig"
    using assms kid
    by (auto simp: verify_manifest_def split: sum.splits exc.splits option.splits prod.splits
        pem_load.splits public_key.splits if_splits)
  obtain p where p: "resolve (JStr kid) rs = (Inr (Some p), rs')"
    using assms t by (auto simp: verify_manifest_def split: sum.splits option.splits prod.splits)
  have "holds (JStr kid) p (fold (\<lambda>k rs. snd (resolve k rs)) kids rs')"
    using learns [OF p] keeps_fold by blast
  with knows p t assms(1) show ?thesis by (simp add: verify_manifest_def)
qed

end

lemma cached_pem_eq: "key_eq k k' \<Longrightarrow> cached_pem c k = cached_pem c k'"
proof (induction c)
  case (Cons x c)
  then show ?case by (cases x) (simp add: key_eq_cong)
qed simp

interpretation rrf: key_resolver resolve_public_key_pem
  "\<lambda>kid pem R. hashable kid \<and> cached_pem (rrf_cache R) kid = Some pem"
proof unfold_locales
  fix kid pem and R R' :: rrf_resolver
  assume "resolve_public_key_pem kid R = (Inr (Some pem), R')"
  then show "hashable kid \<and> cached_pem (rrf_cache R') kid = Some pem"
    by (auto simp: resolve_public_key_pem_def Let_def key_eq_def
        split: if_splits option.splits http_reply.splits)
next
  fix kid pem k and R :: rrf_resolver
  assume h: "hashable kid \<and> cached_pem (rrf_cache R) kid = Some pem"
  show "hashable kid \<and> cached_pem (rrf_cache (snd (resolve_public_key_pem k R))) kid = Some pem"
    using h cached_pem_eq [of k kid "rrf_cache R"]
    by (auto simp: resolve_public_key_pem_def Let_def split: option.splits http_reply.splits)
next
  fix kid pem and R :: rrf_resolver
  assume "hashable kid \<and> cached_pem (rrf_cache R) kid = Some pem"
  then show "resolve_public_key_pem kid R = (Inr (Some pem), R)"
    by (simp add: resolve_public_key_pem_def)
qed

section \<open>What a loaded store holds\<close>

lemma index_tokens_get:
  "index_tokens es = Inr store \<Longrightarrow> store_get store t = find (\<lambda>e. key_eq (be_token e) t) (rev es)"
proof (induction es arbitrary: store)
  case (Cons e es)
  have get: "store_get (s @ [(k, x)]) t = (case store_get s t of None \<Rightarrow> if key_eq k t then Some x else None | Some y \<Rightarrow> Some y)"
    for s k x by (induction s) auto
  have fnd: "find P (xs @ [x]) = (case find P xs of None \<Rightarrow> if P x then Some x else None | Some y \<Rightarrow> Some y)"
    for P :: "bearer_entry \<Rightarrow> bool" and xs x by (induction xs) auto
  from Cons show ?case by (auto simp: bindE_Inr_iff get fnd split: if_splits)
qed simp

lemma bearers_tiers:
  assumes "bearers_from_yaml yaml read = Inr store" "resolve_bearer store token = Some e"
  shows "known_tier (be_tier e) \<and> key_eq (be_token e) (JStr token)"
proof -
  obtain es where es: "\<forall>e \<in> set es. known_tier (be_tier e)" "index_tokens es = Inr store"
    using assms(1) by (auto simp: bearers_from_yaml_def Let_def bindE_Inr_iff split: if_splits)
  then have "find (\<lambda>e. key_eq (be_token e) (JStr token)) (rev es) = Some e"
    using assms(2) index_tokens_get by (simp add: resolve_bearer_def)
  with es(1) show ?thesis by (auto dest: find_SomeD)
qed

section \<open>Properties\<close>

text \<open>A credential store only answers what the file says: a token resolves to an entry of that token whose
  tier is read, actuate or commission; a file that has any other tier loads no store at all.\<close>

theorem bearer_tiers_known:
  assumes "bearers_from_yaml yaml read = Inr store" "resolve_bearer store token = Some e"
  shows "be_tier e \<in> {JStr ''read'', JStr ''actuate'', JStr ''commission''} \<and> be_token e = JStr token"
  using bearers_tiers [OF assms] by (cases "be_token e") (auto simp: known_tier_def key_eq_def)

definition bearer_yaml :: yaml_load where
  "bearer_yaml t = Inr (JObj [(''bearers'', JArr [JObj [(''token'', JStr ''t''), (''tier'', JStr ''actuate'')]])])"

theorem bearer_tiers_known_witness:
  "be_tier \<lparr>be_token = JStr ''t'', be_tier = JStr ''actuate'', be_caller = JNull\<rparr> \<in>
     {JStr ''read'', JStr ''actuate'', JStr ''commission''} \<and>
   be_token \<lparr>be_token = JStr ''t'', be_tier = JStr ''actuate'', be_caller = JNull\<rparr> = JStr ''t''"
  by (rule bearer_tiers_known [of bearer_yaml "Inr []" "[(JStr ''t'', \<lparr>be_token = JStr ''t'', be_tier = JStr ''actuate'', be_caller = JNull\<rparr>)]"])
    (simp_all add: bearers_from_yaml_def bearer_yaml_def bearer_row_def known_tier_def resolve_bearer_def bindE_def
      py_or_def)

text \<open>C20. A verdict does not flip while the process lives: an envelope and a manifest accepted under the caching
  registry resolver are accepted again after any further lookups, whatever the network answers then.\<close>

theorem resolver_verdicts_stable:
  assumes "verify_envelope C resolve_public_key_pem env r R = (Inr v, r', R')" "env_accepted v"
  shows "\<exists>s. verify_envelope C resolve_public_key_pem env q
     (fold (\<lambda>k R. snd (resolve_public_key_pem k R)) kids R') = (Inr v, s)"
  by (rule rrf.envelope_verdict_stable [OF assms])

definition demo_rrf :: rrf_resolver where
  "demo_rrf = \<lparr>rrf_base = ''u'', rrf_cache = [(JStr ''K'', ''P'')], rrf_asked = 0, rrf_net = (\<lambda>n u. OpenRaises)\<rparr>"

theorem resolver_verdicts_stable_witness:
  "\<exists>v s. env_accepted v \<and> verify_envelope demo_crypto resolve_public_key_pem demo_signed (initial_report (\<lambda>_. []))
     (fold (\<lambda>k R. snd (resolve_public_key_pem k R)) [JStr ''other''] demo_rrf) = (Inr v, s)"
proof -
  have known: "resolve_public_key_pem (JStr ''K'') demo_rrf = (Inr (Some ''P''), demo_rrf)"
    by (simp add: demo_rrf_def resolve_public_key_pem_def)
  have "\<exists>sig. get demo_signed ''envelope_signature'' = JObj sig \<and> get sig ''kid'' = JStr ''K'' \<and>
      envelope_ok demo_crypto demo_signed sig ''P''"
    by (rule signed_envelope_ok [where priv = "''P''" and pub = "''P''" and body = "[(''msg_id'', JStr ''m'')]"])
      (simp_all add: demo_signed_def sign_envelope_def demo_crypto_def signs_for_def strips_def Let_def)
  with known have "\<exists>v r' R'. verify_envelope demo_crypto resolve_public_key_pem demo_signed (initial_report (\<lambda>_. [])) demo_rrf =
      (Inr v, r', R') \<and> env_accepted v"
    unfolding verify_envelope_accepts by (metis)
  then obtain v r' R' where v: "verify_envelope demo_crypto resolve_public_key_pem demo_signed (initial_report (\<lambda>_. []))
      demo_rrf = (Inr v, r', R')" "env_accepted v" by blast
  have "R' = demo_rrf" using v(1) known by (auto simp: verify_envelope_def demo_signed_def Let_def)
  with resolver_verdicts_stable [OF v, of "initial_report (\<lambda>_. [])" "[JStr ''other'']"] v(2) show ?thesis by blast
qed

end
