(* ===== verification/Hash_Log.thy ===== *)
theory Hash_Log
  imports Py_Sha256
begin

text \<open>
  The interface the two evidence chains share: an append-only log whose items carry the SHA-256 of
  the item before them. Inside the locale: a log that starts linked stays linked under any sequence
  of appends, no append rewrites the past, and two linked logs that end in the same hash have the
  same history, item by item, or exhibit a SHA-256 collision between two of their items.
\<close>

text \<open>\<open>linked bytes prev g xs\<close>: \<open>xs\<close> continues a log whose last hash is \<open>g\<close>.\<close>

fun linked :: "('i \<Rightarrow> string) \<Rightarrow> ('i \<Rightarrow> string) \<Rightarrow> string \<Rightarrow> 'i list \<Rightarrow> bool" where
  "linked bytes prev g [] = True"
| "linked bytes prev g (x # xs) = (prev x = g \<and> linked bytes prev (sha256 (bytes x)) xs)"

definition end_hash :: "('i \<Rightarrow> string) \<Rightarrow> string \<Rightarrow> 'i list \<Rightarrow> string" where
  "end_hash bytes g xs = (if xs = [] then g else sha256 (bytes (last xs)))"

lemma linked_append:
  "linked bytes prev g (xs @ ys) \<longleftrightarrow> linked bytes prev g xs \<and> linked bytes prev (end_hash bytes g xs) ys"
  by (induction xs arbitrary: g) (auto simp: end_hash_def)

lemma end_hash_snoc [simp]: "end_hash bytes g (xs @ [x]) = sha256 (bytes x)"
  by (simp add: end_hash_def)

lemma end_hash_Nil [simp]: "end_hash bytes g [] = g"
  by (simp add: end_hash_def)

text \<open>Two items of the logs that hash alike and differ.\<close>

definition collide :: "('i \<Rightarrow> string) \<Rightarrow> 'i list \<Rightarrow> 'i list \<Rightarrow> bool" where
  "collide bytes xs ys \<longleftrightarrow>
     (\<exists>x \<in> set xs. \<exists>y \<in> set ys. bytes x \<noteq> bytes y \<and> sha256 (bytes x) = sha256 (bytes y))"

text \<open>\<open>room n s\<close>: the state has room for \<open>n\<close> more appends (a log may number its items in a bounded text).\<close>

locale hash_log =
  fixes append :: "'r \<Rightarrow> 's \<Rightarrow> (exc + 'i) \<times> 's"
    and items :: "'s \<Rightarrow> 'i list"
    and inv :: "'s \<Rightarrow> bool"
    and room :: "nat \<Rightarrow> 's \<Rightarrow> bool"
    and bytes :: "'i \<Rightarrow> string"
    and prev :: "'i \<Rightarrow> string"
    and genesis :: string
  assumes stored: "inv s \<Longrightarrow> room (Suc n) s \<Longrightarrow> append r s = (Inr i, s') \<Longrightarrow>
      inv s' \<and> room n s' \<and> items s' = items s @ [i] \<and> prev i = end_hash bytes genesis (items s)"
    and refused: "inv s \<Longrightarrow> room (Suc n) s \<Longrightarrow> append r s = (Inl e, s') \<Longrightarrow>
      inv s' \<and> room n s' \<and> items s' = items s"
    and bytes_prev: "inv s \<Longrightarrow> inv t \<Longrightarrow> i \<in> set (items s) \<Longrightarrow> j \<in> set (items t) \<Longrightarrow>
      bytes i = bytes j \<Longrightarrow> prev i = prev j"
begin

definition run :: "'r list \<Rightarrow> 's \<Rightarrow> 's" where
  "run rs s = fold (\<lambda>r s. snd (append r s)) rs s"

lemma run_simps [simp]: "run [] s = s" "run (r # rs) s = run rs (snd (append r s))"
  by (simp_all add: run_def)

lemma run_linked:
  assumes "inv s" "room (length rs) s" "linked bytes prev genesis (items s)"
  shows "inv (run rs s) \<and> linked bytes prev genesis (items (run rs s)) \<and>
    (\<exists>new. items (run rs s) = items s @ new)"
  using assms
proof (induction rs arbitrary: s)
  case (Cons r rs)
  obtain a t where a: "append r s = (a, t)" by (meson surj_pair)
  have t: "inv t \<and> room (length rs) t \<and> linked bytes prev genesis (items t)"
      "\<exists>new. items t = items s @ new"
    using a Cons.prems stored [of s "length rs" r _ t] refused [of s "length rs" r _ t]
    by (cases a; auto simp: linked_append)+
  with Cons.IH [of t] a show ?case by auto
qed simp

text \<open>The last hash pins the whole history.\<close>

lemma same_end_same_history:
  assumes "inv s" "inv t" "set xs \<subseteq> set (items s)" "set ys \<subseteq> set (items t)"
    and "linked bytes prev g xs" "linked bytes prev g ys" "length xs = length ys"
    and "end_hash bytes g xs = end_hash bytes g ys" "\<not> collide bytes xs ys"
  shows "map bytes xs = map bytes ys"
  using assms(3-)
proof (induction xs arbitrary: ys rule: rev_induct)
  case (snoc x xs)
  then obtain zs z where ys: "ys = zs @ [z]" by (cases ys rule: rev_exhaust) auto
  have same: "bytes x = bytes z" using snoc.prems ys by (auto simp: collide_def)
  then have "prev x = prev z" using bytes_prev [OF assms(1,2), of x z] snoc.prems ys by simp
  moreover have "\<not> collide bytes xs zs" using snoc.prems ys by (auto simp: collide_def)
  ultimately have "map bytes xs = map bytes zs"
    using snoc.prems ys by (intro snoc.IH) (auto simp: linked_append)
  with same ys show ?case by simp
qed simp

end

end
