(* ===== verification/Audit_Log.thy ===== *)
theory Audit_Log
  imports Cert_Report Crypto_Lib Hash_Log
begin

text \<open>
  \<open>cert/audit.py\<close>: the hash-linked chain of decisions, its signed export (EV-001) and the offline
  verifier. An entry is a record with the dataclass's fields; \<open>entry_dict\<close> is its \<open>__dict__\<close>, in
  field order. The lemmas interpret the chain as a \<open>hash_log\<close>, prove that what was appended and
  exported verifies, and that the exported head hash pins the history.
\<close>

record audit_entry =
  ae_msg_id :: json
  ae_timestamp_ms :: int
  ae_decision :: string
  ae_decision_reason :: string
  ae_envelope_kid :: json
  ae_actuator_name :: "string option"
  ae_actuator_outcome_kind :: "string option"
  ae_actuator_telemetry_sha256 :: "string option"
  ae_actuator_telemetry_path :: "string option"
  ae_actuator_error_kind :: "string option"
  ae_caller :: json
  ae_tier :: "string option"
  ae_entry_kind :: string
  ae_tool_name :: "string option"
  ae_envelope_id :: "string option"
  ae_nonce :: "string option"
  ae_intent_chain_hash :: "string option"
  ae_chain_prev :: string
  ae_chain_hash :: string

text \<open>\<open>AuditEntry(msg_id=.., timestamp_ms=.., decision=.., decision_reason=.., envelope_kid=..)\<close>: the
  other fields at their defaults.\<close>

definition AuditEntry :: "json \<Rightarrow> int \<Rightarrow> string \<Rightarrow> string \<Rightarrow> json \<Rightarrow> audit_entry" where
  "AuditEntry m t d why kid = \<lparr>ae_msg_id = m, ae_timestamp_ms = t, ae_decision = d,
     ae_decision_reason = why, ae_envelope_kid = kid, ae_actuator_name = None,
     ae_actuator_outcome_kind = None, ae_actuator_telemetry_sha256 = None,
     ae_actuator_telemetry_path = None, ae_actuator_error_kind = None, ae_caller = JNull,
     ae_tier = None, ae_entry_kind = ''outcome'', ae_tool_name = None, ae_envelope_id = None,
     ae_nonce = None, ae_intent_chain_hash = None, ae_chain_prev = [], ae_chain_hash = []\<rparr>"

definition entry_dict :: "audit_entry \<Rightarrow> dict" where
  "entry_dict e = [(''msg_id'', ae_msg_id e), (''timestamp_ms'', JInt (ae_timestamp_ms e)),
     (''decision'', JStr (ae_decision e)), (''decision_reason'', JStr (ae_decision_reason e)),
     (''envelope_kid'', ae_envelope_kid e), (''actuator_name'', JOpt (ae_actuator_name e)),
     (''actuator_outcome_kind'', JOpt (ae_actuator_outcome_kind e)),
     (''actuator_telemetry_sha256'', JOpt (ae_actuator_telemetry_sha256 e)),
     (''actuator_telemetry_path'', JOpt (ae_actuator_telemetry_path e)),
     (''actuator_error_kind'', JOpt (ae_actuator_error_kind e)), (''caller'', ae_caller e),
     (''tier'', JOpt (ae_tier e)), (''entry_kind'', JStr (ae_entry_kind e)),
     (''tool_name'', JOpt (ae_tool_name e)), (''envelope_id'', JOpt (ae_envelope_id e)),
     (''nonce'', JOpt (ae_nonce e)), (''intent_chain_hash'', JOpt (ae_intent_chain_hash e)),
     (''chain_prev'', JStr (ae_chain_prev e)), (''chain_hash'', JStr (ae_chain_hash e))]"

definition GENESIS :: string where
  "GENESIS = replicate 64 (CHR ''0'')"

type_synonym audit_chain = "audit_entry list"

text \<open>\<open>AuditChain.append\<close>, the body of its lock: link to the last entry, hash, store.\<close>

definition append_audit :: "crypto \<Rightarrow> audit_entry \<Rightarrow> audit_chain \<Rightarrow> (exc + audit_entry) \<times> audit_chain" where
  "append_audit C entry ch =
     (let e1 = entry\<lparr>ae_chain_prev := (if ch = [] then GENESIS else ae_chain_hash (last ch))\<rparr> in
      case canonical_json C None (without ''chain_hash'' (entry_dict e1)) of
        Inl x \<Rightarrow> (Inl x, ch)
      | Inr canon \<Rightarrow>
          (let stored = e1\<lparr>ae_chain_hash := sha256 canon\<rparr> in (Inr stored, ch @ [stored])))"

definition bundle_body :: "string \<Rightarrow> audit_chain \<Rightarrow> dict" where
  "bundle_body exported_at ch = [(''schema_version'', JStr ''1.0''), (''exported_at'', JStr exported_at),
     (''entry_count'', JInt (int (length ch))), (''entries'', JArr (map (\<lambda>e. JObj (entry_dict e)) ch))]"

definition export_signed :: "crypto \<Rightarrow> (string \<Rightarrow> exc + private_key) \<Rightarrow> string \<Rightarrow> string \<Rightarrow> string
    \<Rightarrow> audit_chain \<Rightarrow> cert_report \<Rightarrow> (exc + dict) \<times> cert_report" where
  "export_signed C load_pem_private_key exported_at pem kid ch r =
     (case bindE (load_pem_private_key pem) (\<lambda>priv.
           bindE (canonical_json C None (bundle_body exported_at ch)) (sign_with C priv)) of
        Inl e \<Rightarrow> (Inl e, r)
      | Inr sig \<Rightarrow>
          (Inr (bundle_body exported_at ch @ [(''signature'', JObj [(''kid'', JStr kid),
              (''alg'', JStr ''Ed25519''), (''sig'', JStr (b64encode sig))])]),
           record_property_pass ''EV-001'' [(''entry_count'', JInt (int (length ch))),
             (''kid'', JStr kid), (''outcome'', JStr ''exported'')] r))"

text \<open>The chain walk of \<open>verify_audit_bundle\<close>, on the decoded entries.\<close>

fun verify_chain :: "crypto \<Rightarrow> json \<Rightarrow> json list \<Rightarrow> exc + bool" where
  "verify_chain C prev [] = Inr True"
| "verify_chain C prev (e # es) =
     bindE (item e ''chain_prev'') (\<lambda>p.
     if p \<noteq> prev then Inr False
     else case e of JObj d \<Rightarrow>
         bindE (canonical_json C None (without ''chain_hash'' d)) (\<lambda>canon.
         bindE (item e ''chain_hash'') (\<lambda>h.
         if JStr (sha256 canon) \<noteq> h then Inr False else verify_chain C h es))
       | _ \<Rightarrow> Inl AttributeError)"

text \<open>The signature half, under \<open>except Exception: return False\<close>: whatever raises there refuses.\<close>

definition bundle_signature_ok :: "crypto \<Rightarrow> (string \<times> string) list \<Rightarrow> dict \<Rightarrow> json \<Rightarrow> bool" where
  "bundle_signature_ok C kid_to_pem bundle sig =
     (case item sig ''kid'' of
        Inr (JStr kid) \<Rightarrow>
          (case map_of kid_to_pem kid of None \<Rightarrow> False
           | Some pem \<Rightarrow>
             (case load_pem_public_key C pem of
                PemKey (Ed25519PublicKey pub) \<Rightarrow>
                  (case (bindE (item sig ''sig'') b64decode_json,
                         canonical_json C None (without ''signature'' bundle)) of
                     (Inr raw, Inr body) \<Rightarrow> ed_verify C pub raw body
                   | _ \<Rightarrow> False)
              | _ \<Rightarrow> False))
      | _ \<Rightarrow> False)"

definition verify_audit_bundle :: "crypto \<Rightarrow> (string \<times> string) list \<Rightarrow> dict \<Rightarrow> exc + bool" where
  "verify_audit_bundle C kid_to_pem bundle =
     (let sig = get bundle ''signature'' in
      if sig = JNull \<or> \<not> bundle_signature_ok C kid_to_pem bundle sig then Inr False
      else bindE (item (JObj bundle) ''entries'') (\<lambda>es.
           bindE (items_of es) (verify_chain C (JStr GENESIS))))"

section \<open>Appends keep the chain linked\<close>

text \<open>The bytes an entry's hash covers, and the property of a stored entry.\<close>

definition entry_bytes :: "crypto \<Rightarrow> audit_entry \<Rightarrow> string" where
  "entry_bytes C e = (case canonical_json C None (without ''chain_hash'' (entry_dict e)) of
     Inl _ \<Rightarrow> [] | Inr b \<Rightarrow> b)"

definition sealed :: "crypto \<Rightarrow> audit_entry \<Rightarrow> bool" where
  "sealed C e \<longleftrightarrow> (\<exists>b. canonical_json C None (without ''chain_hash'' (entry_dict e)) = Inr b \<and>
     ae_chain_hash e = sha256 b)"

lemma entry_dict_hash [simp]:
  "without ''chain_hash'' (entry_dict (e\<lparr>ae_chain_hash := h\<rparr>)) = without ''chain_hash'' (entry_dict e)"
  by (simp add: entry_dict_def)

lemma sealed_hash: "sealed C e \<Longrightarrow> ae_chain_hash e = sha256 (entry_bytes C e)"
  by (auto simp: sealed_def entry_bytes_def)

lemma sealed_bytes: "sealed C e \<Longrightarrow> canonical_json C None (without ''chain_hash'' (entry_dict e)) = Inr (entry_bytes C e)"
  by (auto simp: sealed_def entry_bytes_def)

lemma append_audit_stored:
  assumes "append_audit C e ch = (Inr x, ch')"
  obtains canon where "ch' = ch @ [x]" "sealed C x"
    "x = e\<lparr>ae_chain_prev := (if ch = [] then GENESIS else ae_chain_hash (last ch)), ae_chain_hash := sha256 canon\<rparr>"
proof -
  let ?e = "e\<lparr>ae_chain_prev := (if ch = [] then GENESIS else ae_chain_hash (last ch))\<rparr>"
  obtain canon where c: "canonical_json C None (without ''chain_hash'' (entry_dict ?e)) = Inr canon"
    using assms unfolding append_audit_def Let_def
    by (cases "canonical_json C None (without ''chain_hash'' (entry_dict ?e))") simp_all
  with assms have x: "x = ?e\<lparr>ae_chain_hash := sha256 canon\<rparr>" "ch' = ch @ [x]"
    by (auto simp: append_audit_def Let_def)
  moreover have "sealed C x"
    unfolding sealed_def x(1) entry_dict_hash by (rule exI [of _ canon]) (simp add: c)
  ultimately show thesis by (intro that [of canon]) simp_all
qed

lemma append_audit_refused: "append_audit C e ch = (Inl x, ch') \<Longrightarrow> ch' = ch"
  by (auto simp: append_audit_def Let_def split: sum.splits)

lemma chain_prev_of_bytes:
  assumes "injective_canon C" "sealed C x" "sealed C y" "entry_bytes C x = entry_bytes C y"
  shows "ae_chain_prev x = ae_chain_prev y"
proof -
  let ?d = "\<lambda>e. without ''chain_hash'' (entry_dict e)"
  have "map_of (?d x) = map_of (?d y)"
    using assms(1) sealed_bytes [OF assms(2)] sealed_bytes [OF assms(3)] assms(4)
    unfolding injective_canon_def by metis
  moreover have "map_of (?d e) ''chain_prev'' = Some (JStr (ae_chain_prev e))" for e
    by (simp add: entry_dict_def)
  ultimately show ?thesis by (metis json.inject(4) option.inject)
qed

text \<open>\<open>e\<close> is the linked next entry of \<open>ch\<close>, and a chain every entry of which is.\<close>

definition next_entry :: "crypto \<Rightarrow> audit_chain \<Rightarrow> audit_entry \<Rightarrow> bool" where
  "next_entry C ch e \<longleftrightarrow> sealed C e \<and>
     ae_chain_prev e = (if ch = [] then GENESIS else ae_chain_hash (last ch))"

definition chain_ok :: "crypto \<Rightarrow> audit_chain \<Rightarrow> bool" where
  "chain_ok C ch \<longleftrightarrow> (\<forall>e \<in> set ch. sealed C e) \<and> linked (entry_bytes C) ae_chain_prev GENESIS ch"

lemma append_audit_next: "append_audit C e ch = (Inr x, ch') \<Longrightarrow> ch' = ch @ [x] \<and> next_entry C ch x"
  by (erule append_audit_stored) (simp add: next_entry_def)

lemma chain_ok_Nil [simp]: "chain_ok C []"
  by (simp add: chain_ok_def)

lemma chain_ok_snoc: "chain_ok C ch \<Longrightarrow> next_entry C ch e \<Longrightarrow> chain_ok C (ch @ [e])"
  by (auto simp: chain_ok_def next_entry_def linked_append end_hash_def sealed_hash)

interpretation audit_log: hash_log "append_audit C" "\<lambda>ch. ch"
  "\<lambda>ch. injective_canon C \<and> (\<forall>e \<in> set ch. sealed C e)" "\<lambda>n ch. True" "entry_bytes C"
  ae_chain_prev GENESIS
  for C
proof unfold_locales
  fix s r i s'
  assume s: "injective_canon C \<and> (\<forall>e \<in> set s. sealed C e)" and a: "append_audit C r s = (Inr i, s')"
  have i: "s' = s @ [i]" "sealed C i" "ae_chain_prev i = (if s = [] then GENESIS else ae_chain_hash (last s))"
    by (rule append_audit_stored [OF a]; simp)+
  with s i(1,2) show "(injective_canon C \<and> (\<forall>e \<in> set s'. sealed C e)) \<and> True \<and> s' = s @ [i] \<and>
      ae_chain_prev i = end_hash (entry_bytes C) GENESIS s"
    by (auto simp: end_hash_def sealed_hash)
next
  fix s r e s'
  assume "injective_canon C \<and> (\<forall>e \<in> set s. sealed C e)" "append_audit C r s = (Inl e, s')"
  then show "(injective_canon C \<and> (\<forall>e \<in> set s'. sealed C e)) \<and> True \<and> s' = s"
    using append_audit_refused [of C r s e s'] by auto
next
  fix s t i j
  assume "injective_canon C \<and> (\<forall>e \<in> set s. sealed C e)" "injective_canon C \<and> (\<forall>e \<in> set t. sealed C e)"
    "i \<in> set s" "j \<in> set t" "entry_bytes C i = entry_bytes C j"
  then show "ae_chain_prev i = ae_chain_prev j" by (intro chain_prev_of_bytes) auto
qed

section \<open>What is exported verifies\<close>

lemma entry_dict_fields [simp]:
  "map_of (entry_dict e) ''chain_prev'' = Some (JStr (ae_chain_prev e))"
  "map_of (entry_dict e) ''chain_hash'' = Some (JStr (ae_chain_hash e))"
  by (simp_all add: entry_dict_def)

lemma verify_chain_linked:
  assumes "\<forall>e \<in> set ch. sealed C e" "linked (entry_bytes C) ae_chain_prev g ch"
  shows "verify_chain C (JStr g) (map (\<lambda>e. JObj (entry_dict e)) ch) = Inr True"
  using assms
proof (induction ch arbitrary: g)
  case (Cons e ch)
  then have "sealed C e" by simp
  then obtain b where b: "canonical_json C None (without ''chain_hash'' (entry_dict e)) = Inr b"
      "ae_chain_hash e = sha256 b" "entry_bytes C e = b"
    by (auto simp: sealed_def entry_bytes_def)
  with Cons show ?case by simp
qed simp

lemma export_verifies:
  assumes "load key = Inr (Ed25519PrivateKey priv)" "signs_for C priv pub"
    "map_of ring kid = Some pem" "load_pem_public_key C pem = PemKey (Ed25519PublicKey pub)"
    "export_signed C load stamp key kid ch r = (Inr bundle, r')"
    "\<forall>e \<in> set ch. sealed C e" "linked (entry_bytes C) ae_chain_prev GENESIS ch"
  shows "verify_audit_bundle C ring bundle = Inr True"
proof -
  obtain body where body: "canonical_json C None (bundle_body stamp ch) = Inr body"
    using assms(1,5) by (cases "canonical_json C None (bundle_body stamp ch)") (auto simp: export_signed_def)
  then have b: "bundle = bundle_body stamp ch @ [(''signature'', JObj [(''kid'', JStr kid),
      (''alg'', JStr ''Ed25519''), (''sig'', JStr (b64encode (ed_sign C priv body)))])]"
    using assms(1,5) by (auto simp: export_signed_def)
  have "without ''signature'' bundle = bundle_body stamp ch" by (simp add: b bundle_body_def)
  then have "bundle_signature_ok C ring bundle (get bundle ''signature'')"
    using assms body by (simp add: bundle_signature_ok_def b bundle_body_def b64decode_json_def signs_for_def)
  moreover have "item (JObj bundle) ''entries'' = Inr (JArr (map (\<lambda>e. JObj (entry_dict e)) ch))"
    "get bundle ''signature'' \<noteq> JNull" by (simp_all add: b bundle_body_def)
  ultimately show ?thesis
    using verify_chain_linked [OF assms(6,7)] by (simp add: verify_audit_bundle_def Let_def)
qed

section \<open>Properties\<close>


definition demo_entry :: audit_entry where
  "demo_entry = (AuditEntry (JStr ''m'') 7 ''deny'' ''no'' JNull)\<lparr>ae_chain_prev := GENESIS\<rparr>"

definition demo_chain :: audit_chain where
  "demo_chain = snd (append_audit demo_crypto demo_entry [])"

lemma demo_chain_ok: "chain_ok demo_crypto demo_chain" "\<exists>x. demo_chain = [x]"
proof -
  have "length (nat_str 7) \<le> 4300" by code_simp
  then   have "canonical_json demo_crypto None (without ''chain_hash'' (entry_dict (demo_entry\<lparr>ae_chain_prev := GENESIS\<rparr>))) =
      Inr (dumps (JObj (without ''chain_hash'' (entry_dict (demo_entry\<lparr>ae_chain_prev := GENESIS\<rparr>)))))"
    by (simp add: demo_crypto_def demo_entry_def AuditEntry_def entry_dict_def GENESIS_def)
  then obtain x where x: "append_audit demo_crypto demo_entry [] = (Inr x, [x])"
    by (simp add: append_audit_def Let_def)
  from append_audit_next [OF this] chain_ok_snoc [OF chain_ok_Nil] x
  show "chain_ok demo_crypto demo_chain" "\<exists>x. demo_chain = [x]" by (auto simp: demo_chain_def)
qed

lemma demo_chain_no_collision: "\<not> collide (entry_bytes demo_crypto) demo_chain demo_chain"
proof -
  obtain x where one: "demo_chain = [x]" using demo_chain_ok(2) by blast
  show ?thesis unfolding one collide_def by simp
qed


end
