(* ===== verification/Safety.thy ===== *)
theory Safety
  imports Audit_Log
begin

text \<open>
  \<open>cert/safety.py\<close>: the ESTOP / safe-stop state machine (SF-001, SF-002). The states are ordered by
  severity; the operations are functions of the monitor, the report and the audit chain, and the
  relation \<open>safety_step\<close> interleaves them in any order. The lemmas show that only a clear by the
  commission tier lowers the severity, that such a clear is in the audit chain, and that nothing the
  monitor files is a pass.
\<close>

datatype gateway_state = READY | SAFE_STOP | ESTOP_ACTIVE

fun severity :: "gateway_state \<Rightarrow> nat" where
  "severity READY = 0"
| "severity SAFE_STOP = 1"
| "severity ESTOP_ACTIVE = 2"

instantiation gateway_state :: linorder
begin

definition less_eq_gateway_state :: "gateway_state \<Rightarrow> gateway_state \<Rightarrow> bool" where
  "less_eq_gateway_state a b = (severity a \<le> severity b)"

definition less_gateway_state :: "gateway_state \<Rightarrow> gateway_state \<Rightarrow> bool" where
  "less_gateway_state a b = (severity a < severity b)"

instance
proof
  fix x y z :: gateway_state
  show "x < y \<longleftrightarrow> x \<le> y \<and> \<not> y \<le> x" "x \<le> x" "x \<le> y \<or> y \<le> x"
    by (auto simp: less_eq_gateway_state_def less_gateway_state_def)
  show "x \<le> y \<Longrightarrow> y \<le> z \<Longrightarrow> x \<le> z" by (simp add: less_eq_gateway_state_def)
  show "x \<le> y \<Longrightarrow> y \<le> x \<Longrightarrow> x = y"
    by (cases x; cases y) (simp_all add: less_eq_gateway_state_def)
qed

end

fun state_value :: "gateway_state \<Rightarrow> string" where
  "state_value READY = ''ready''"
| "state_value SAFE_STOP = ''safe_stop''"
| "state_value ESTOP_ACTIVE = ''estop_active''"

record safety_monitor =
  mon_state :: gateway_state
  last_heartbeat_at :: pyfloat
  heartbeat_staleness_s :: pyfloat

definition new_monitor :: "pyfloat \<Rightarrow> safety_monitor" where
  "new_monitor now = \<lparr>mon_state = READY, last_heartbeat_at = now, heartbeat_staleness_s = FFin 3\<rparr>"

definition on_estop_wire ::
    "bool \<Rightarrow> json \<Rightarrow> safety_monitor \<Rightarrow> cert_report \<Rightarrow> safety_monitor \<times> cert_report" where
  "on_estop_wire tripped msg_id m r =
     (if tripped \<and> mon_state m \<noteq> ESTOP_ACTIVE then
        (m\<lparr>mon_state := ESTOP_ACTIVE\<rparr>,
         record_entry ''SF-001'' ''fail''
           [(''prev_state'', JStr (state_value (mon_state m))),
            (''new_state'', JStr (state_value ESTOP_ACTIVE)), (''msg_id'', msg_id),
            (''outcome'', JStr ''estop preempted'')] r)
      else (m, r))"

definition on_heartbeat :: "pyfloat \<Rightarrow> safety_monitor \<Rightarrow> safety_monitor" where
  "on_heartbeat now m = m\<lparr>last_heartbeat_at := now\<rparr>"

definition stale :: "pyfloat \<Rightarrow> safety_monitor \<Rightarrow> bool" where
  "stale now m = flt (heartbeat_staleness_s m) (fsub now (last_heartbeat_at m))"

definition tick :: "pyfloat \<Rightarrow> safety_monitor \<Rightarrow> cert_report \<Rightarrow> safety_monitor \<times> cert_report" where
  "tick now m r =
     (if mon_state m = READY \<and> stale now m then
        (m\<lparr>mon_state := SAFE_STOP\<rparr>,
         record_entry ''SF-002'' ''fail''
           [(''prev_state'', JStr ''ready''), (''new_state'', JStr ''safe_stop''),
            (''staleness_s'', JFloat (fsub now (last_heartbeat_at m))),
            (''outcome'', JStr ''network_loss safe-stop'')] r)
      else (m, r))"

definition audit_clear :: "crypto \<Rightarrow> string \<Rightarrow> string \<Rightarrow> json \<Rightarrow> int \<Rightarrow> audit_chain option
    \<Rightarrow> (exc + unit) \<times> audit_chain option" where
  "audit_clear C decision reason msg_id time_ms chain =
     (case chain of None \<Rightarrow> (Inr (), None)
      | Some ch \<Rightarrow>
         (let (res, ch') = append_audit C
            (AuditEntry (py_or msg_id (JStr ''safety.clear'')) time_ms decision reason JNull) ch in
          (map_sum id (\<lambda>_. ()) res, Some ch')))"

definition clear :: "crypto \<Rightarrow> string \<Rightarrow> json \<Rightarrow> int \<Rightarrow> safety_monitor \<Rightarrow> audit_chain option
    \<Rightarrow> (exc + bool \<times> string) \<times> safety_monitor \<times> audit_chain option" where
  "clear C tier msg_id time_ms m chain =
     (let prev = mon_state m in
      if tier \<noteq> ''commission'' then
        (let reason = ''safety.clear: '' @ repr_str tier @ ''-tier principal cannot clear ''
               @ state_value prev @ ''; requires the '' @ repr_str ''commission'' @ '' tier'';
             (a, chain') = audit_clear C ''deny'' reason msg_id time_ms chain in
         (bindE a (\<lambda>_. Inr (False, reason)), m, chain'))
      else
        (let m' = m\<lparr>mon_state := READY\<rparr>;
             reason = ''safety.clear: '' @ state_value prev @ '' -> '' @ state_value (mon_state m');
             (a, chain') = audit_clear C ''allow'' reason msg_id time_ms chain in
         (bindE a (\<lambda>_. Inr (True, reason)), m', chain')))"

definition can_actuate :: "safety_monitor \<Rightarrow> bool" where
  "can_actuate m = (mon_state m = READY)"

section \<open>The machine: any interleaving of its operations\<close>

datatype safety_event =
    Wire bool json | Heartbeat pyfloat | Tick pyfloat | Clear string json int

type_synonym safety_config = "safety_monitor \<times> cert_report \<times> audit_chain option"

inductive safety_step :: "crypto \<Rightarrow> safety_config \<Rightarrow> safety_event \<Rightarrow> safety_config \<Rightarrow> bool" where
  wire: "on_estop_wire t i m r = (m', r') \<Longrightarrow> safety_step C (m, r, ch) (Wire t i) (m', r', ch)"
| heartbeat: "safety_step C (m, r, ch) (Heartbeat now) (on_heartbeat now m, r, ch)"
| tick: "tick now m r = (m', r') \<Longrightarrow> safety_step C (m, r, ch) (Tick now) (m', r', ch)"
| clear: "clear C tier i ms m ch = (res, m', ch') \<Longrightarrow>
    safety_step C (m, r, ch) (Clear tier i ms) (m', r, ch')"

inductive_cases safety_stepE: "safety_step C (m, r, ch) ev (m', r', ch')"

inductive safety_run :: "crypto \<Rightarrow> safety_config \<Rightarrow> safety_event list \<Rightarrow> safety_config \<Rightarrow> bool" where
  nil: "safety_run C s [] s"
| cons: "safety_step C s ev t \<Longrightarrow> safety_run C t evs u \<Longrightarrow> safety_run C s (ev # evs) u"

inductive_simps safety_run_simps [simp]: "safety_run C s [] t" "safety_run C s (ev # evs) t"

lemma on_estop_wire_state:
  "mon_state (fst (on_estop_wire t i m r)) = (if t then ESTOP_ACTIVE else mon_state m)"
  by (simp add: on_estop_wire_def)

lemma tick_state:
  "mon_state (fst (tick now m r)) = (if mon_state m = READY \<and> stale now m then SAFE_STOP else mon_state m)"
  by (simp add: tick_def)

lemma clear_state:
  "clear C tier i ms m ch = (res, m', ch') \<Longrightarrow>
     mon_state m' = (if tier = ''commission'' then READY else mon_state m)"
  by (auto simp: clear_def Let_def split: if_splits prod.splits)

text \<open>Every event but a commission-tier clear keeps or raises the severity.\<close>

lemma severity_monotone:
  assumes "safety_step C (m, r, ch) ev (m', r', ch')" "\<forall>i ms. ev \<noteq> Clear ''commission'' i ms"
  shows "mon_state m \<le> mon_state m'"
  using assms(1)
proof (rule safety_stepE)
  fix t i
  assume "on_estop_wire t i m r = (m', r')"
  then have "mon_state m' = (if t then ESTOP_ACTIVE else mon_state m)"
    using on_estop_wire_state [of t i m r] by simp
  then show ?thesis by (cases "mon_state m") (simp_all add: less_eq_gateway_state_def)
next
  fix now
  assume "m' = on_heartbeat now m"
  then show ?thesis by (simp add: on_heartbeat_def)
next
  fix now
  assume "tick now m r = (m', r')"
  then have "mon_state m' = (if mon_state m = READY \<and> stale now m then SAFE_STOP else mon_state m)"
    using tick_state [of now m r] by simp
  then show ?thesis by (simp add: less_eq_gateway_state_def)
next
  fix tier i ms res
  assume "ev = Clear tier i ms" and c: "clear C tier i ms m ch = (res, m', ch')"
  with assms(2) have "tier \<noteq> ''commission''" by auto
  with clear_state [OF c] show ?thesis by simp
qed

lemma run_monotone:
  assumes "safety_run C s evs t" "\<forall>i ms. Clear ''commission'' i ms \<notin> set evs"
  shows "mon_state (fst s) \<le> mon_state (fst t)"
  using assms
proof (induction evs arbitrary: s)
  case (Cons ev evs)
  then obtain u where u: "safety_step C s ev u" "safety_run C u evs t" by auto
  have "mon_state (fst s) \<le> mon_state (fst u)"
    using severity_monotone [of C "fst s" "fst (snd s)" "snd (snd s)" ev "fst u" "fst (snd u)" "snd (snd u)"]
      u(1) Cons.prems(2) by auto
  also have "\<dots> \<le> mon_state (fst t)" using Cons.IH [OF u(2)] Cons.prems(2) by auto
  finally show ?case .
qed simp

text \<open>Nothing the machine files is a pass.\<close>

lemma step_filed: "safety_step C (m, r, ch) ev (m', r', ch') \<Longrightarrow> filed ''fail'' r r'"
  by (erule safety_stepE) (auto simp: on_estop_wire_def tick_def split: if_splits)

lemma run_filed: "safety_run C s evs t \<Longrightarrow> filed ''fail'' (fst (snd s)) (fst (snd t))"
proof (induction rule: safety_run.induct)
  case (cons C s ev t evs u)
  then show ?case
    using step_filed [of C "fst s" "fst (snd s)" "snd (snd s)" ev "fst t" "fst (snd t)" "snd (snd t)"]
    by (auto intro: filed_trans)
qed simp

text \<open>A clear that returned is in the chain, with its decision.\<close>

lemma clear_audited:
  assumes "clear C tier i ms m (Some ch) = (Inr (ok, why), m', chain')"
  shows "\<exists>e. chain' = Some (ch @ [e]) \<and> ae_decision e = (if ok then ''allow'' else ''deny'') \<and>
    ae_decision_reason e = why \<and> ok = (tier = ''commission'')"
proof -
  have *: "\<exists>e. c' = Some (ch @ [e]) \<and> ae_decision e = d \<and> ae_decision_reason e = w"
    if a: "audit_clear C d w i ms (Some ch) = (Inr u, c')" for d w u c'
  proof -
    obtain x ch' where ap: "append_audit C (AuditEntry (py_or i (JStr ''safety.clear'')) ms d w JNull) ch = (Inr x, ch')"
        "c' = Some ch'"
      using a by (cases "fst (append_audit C (AuditEntry (py_or i (JStr ''safety.clear'')) ms d w JNull) ch)")
        (auto simp: audit_clear_def split: prod.splits)
    show ?thesis by (rule append_audit_stored [OF ap(1)]) (simp add: ap(2) AuditEntry_def)
  qed
  show ?thesis
    using assms by (auto simp: clear_def Let_def bindE_Inr_iff dest!: * split: if_splits prod.splits)
qed

section \<open>Properties\<close>

text \<open>C10. A stopped gateway never becomes ready on its own: every run of the machine (wire trips,
  heartbeats, ticks and clears, in any order) from a stopped state to one that can actuate contains a
  clear requested by a commission-tier principal, and everything filed on the way is a fail.\<close>

theorem ready_needs_commission_clear:
  assumes "safety_run C (m, r, ch) evs (m', r', ch')" "\<not> can_actuate m" "can_actuate m'"
  shows "(\<exists>i ms. Clear ''commission'' i ms \<in> set evs) \<and> filed ''fail'' r r'"
proof
  show "\<exists>i ms. Clear ''commission'' i ms \<in> set evs"
  proof (rule ccontr)
    assume "\<not> ?thesis"
    then have "mon_state m \<le> mon_state m'" using run_monotone [OF assms(1)] by simp
    with assms(2,3) show False by (cases "mon_state m") (simp_all add: can_actuate_def less_eq_gateway_state_def)
  qed
  show "filed ''fail'' r r'" using run_filed [OF assms(1)] by simp
qed

theorem ready_needs_commission_clear_witness:
  "(\<exists>i ms. Clear ''commission'' i ms \<in> set [Wire True JNull, Clear ''commission'' JNull 5]) \<and>
   filed ''fail'' (initial_report (\<lambda>_. [])) (snd (on_estop_wire True JNull
     \<lparr>mon_state = SAFE_STOP, last_heartbeat_at = FFin 0, heartbeat_staleness_s = FFin 3\<rparr> (initial_report (\<lambda>_. []))))"
proof (rule ready_needs_commission_clear)
  let ?m = "\<lparr>mon_state = SAFE_STOP, last_heartbeat_at = FFin 0, heartbeat_staleness_s = FFin 3\<rparr>"
  let ?w = "on_estop_wire True JNull ?m (initial_report (\<lambda>_. []))"
  have "safety_step demo_crypto (?m, initial_report (\<lambda>_. []), None) (Wire True JNull) (fst ?w, snd ?w, None)"
    by (intro safety_step.wire) simp
  moreover have "safety_step demo_crypto (fst ?w, snd ?w, None) (Clear ''commission'' JNull 5)
      ((fst ?w)\<lparr>mon_state := READY\<rparr>, snd ?w, None)"
    by (rule safety_step.clear) (simp add: clear_def audit_clear_def)
  ultimately show "safety_run demo_crypto (?m, initial_report (\<lambda>_. []), None)
      [Wire True JNull, Clear ''commission'' JNull 5] ((fst ?w)\<lparr>mon_state := READY\<rparr>, snd ?w, None)" by auto
  show "\<not> can_actuate ?m" "can_actuate ((fst ?w)\<lparr>mon_state := READY\<rparr>)" by (simp_all add: can_actuate_def)
qed

text \<open>A clear is always audited: with a chain, every clear that returns has appended one entry whose decision
  and reason are those it returned, and it succeeded just when the principal was of the commission tier.\<close>

theorem clear_leaves_entry:
  assumes "clear C tier i ms m (Some ch) = (Inr (ok, why), m', chain')"
  shows "\<exists>e. chain' = Some (ch @ [e]) \<and> ae_decision e = (if ok then ''allow'' else ''deny'') \<and>
    ae_decision_reason e = why \<and> ok = (tier = ''commission'')"
  by (rule clear_audited [OF assms])

definition demo_clear :: "(exc + bool \<times> string) \<times> safety_monitor \<times> audit_chain option" where
  "demo_clear = clear (demo_crypto\<lparr>canonical_json := \<lambda>_ _. Inr []\<rparr>) ''read'' JNull 5
     \<lparr>mon_state = ESTOP_ACTIVE, last_heartbeat_at = FFin 0, heartbeat_staleness_s = FFin 3\<rparr> (Some [])"

theorem clear_leaves_entry_witness:
  "\<exists>why e. fst demo_clear = Inr (False, why) \<and> snd (snd demo_clear) = Some ([] @ [e]) \<and>
     ae_decision e = (if False then ''allow'' else ''deny'') \<and> ae_decision_reason e = why \<and> False = (''read'' = ''commission'')"
proof -
  obtain why m' c where d: "demo_clear = (Inr (False, why), m', c)"
    by (simp add: demo_clear_def clear_def audit_clear_def append_audit_def Let_def)
  show ?thesis
    using clear_leaves_entry [OF d [unfolded demo_clear_def]] unfolding d by simp
qed

end
