(* ===== verification/Actuator.thy ===== *)
theory Actuator
  imports Policy Py_Json
begin

text \<open>
  \<open>actuator.py\<close>: the outcome an actuator returns, the actuator as the receiver sees it (its declared
  capabilities and its \<open>execute\<close>), the built-in no-op, and the lookup of an installed one. What
  \<open>entry_points\<close> finds is a parameter, and so is the behaviour of every actuator but the no-op.
\<close>

record actuator_outcome =
  success :: bool
  outcome_kind :: string
  telemetry :: dict
  error_message :: "string option"
  telemetry_path :: "string option"

text \<open>\<open>rcan_tools\<close> is what \<open>getattr(act, "rcan_tools", ())\<close> yields. \<open>execute\<close> returns, raises an
  exception of a class, with a message, or never comes back (the driver hangs, the process is
  killed). Its first argument counts the calls of the process so far: an actuator has a state of its
  own, and the same envelope may end differently.\<close>

datatype execution = Returned actuator_outcome | Raised string string | NeverReturns

record actuator = capabilities +
  act_name :: string
  rcan_tools :: "string list"
  execute :: "nat \<Rightarrow> dict \<Rightarrow> string \<Rightarrow> string \<Rightarrow> dict \<Rightarrow> execution"

definition noop_execute :: "nat \<Rightarrow> dict \<Rightarrow> string \<Rightarrow> string \<Rightarrow> dict \<Rightarrow> execution" where
  "noop_execute n env path tier config = Returned \<lparr>success = True, outcome_kind = ''no_op'',
     telemetry = [(''msg_id'', get env ''msg_id''), (''tier'', JStr tier)], error_message = None,
     telemetry_path = None\<rparr>"

definition NoOpActuator :: actuator where
  "NoOpActuator = \<lparr>motion_capabilities = NotDeclared, stop_capabilities = NotDeclared,
     act_name = ''noop'', rcan_tools = [], execute = noop_execute\<rparr>"

definition ENTRY_POINT_GROUP :: string where
  "ENTRY_POINT_GROUP = ''robot_md_gateway.actuators''"

text \<open>\<open>{ep.name: ep.load() for ep in entry_points(group=...)}\<close>: a later entry point of the same name
  wins, and the first \<open>load\<close> that raises raises.\<close>

fun discover_into :: "(string \<times> 'c) list \<Rightarrow> (string \<times> (exc + 'c)) list \<Rightarrow> exc + (string \<times> 'c) list" where
  "discover_into found [] = Inr found"
| "discover_into found ((n, l) # eps) = bindE l (\<lambda>c. discover_into (AList.update n c found) eps)"

definition discover_actuators :: "(string \<times> (exc + 'c)) list \<Rightarrow> exc + (string \<times> 'c) list" where
  "discover_actuators eps = discover_into [] eps"

definition resolve_actuator :: "(string \<times> (exc + 'c)) list \<Rightarrow> string option \<Rightarrow> 'c \<Rightarrow> exc + 'c" where
  "resolve_actuator eps name fallback =
     (case name of None \<Rightarrow> Inr fallback
      | Some n \<Rightarrow>
         if n = ''noop'' then Inr fallback
         else bindE (discover_actuators eps) (\<lambda>found.
           case map_of found n of
             None \<Rightarrow> Inl (LookupError (''actuator '' @ repr_str n @ '' not found in entry-point group ''
                       @ repr_str ENTRY_POINT_GROUP))
           | Some c \<Rightarrow> Inr c))"

text \<open>A registered name resolves to the class registered last under it.\<close>

lemma discover_into_lookup:
  "discover_into found eps = Inr d \<Longrightarrow> map_of d n =
     (case find (\<lambda>(m, l). m = n) (rev eps) of Some (m, l) \<Rightarrow> Some (projr l) | None \<Rightarrow> map_of found n)"
proof (induction found eps rule: discover_into.induct)
  case (2 found m l eps)
  then obtain c where c: "l = Inr c" "discover_into (AList.update m c found) eps = Inr d"
    by (auto simp: bindE_Inr_iff)
  have "find P (xs @ [x]) = (case find P xs of None \<Rightarrow> if P x then Some x else None | Some y \<Rightarrow> Some y)"
    for P :: "string \<times> (exc + 'a) \<Rightarrow> bool" and xs x by (induction xs) auto
  with 2(1) [OF c(2)] c(1) show ?case
    by (auto simp: update_conv' split: option.splits sum.splits)
qed simp

end
