(* ===== verification/Attestation.thy ===== *)
theory Attestation
  imports Envelope Actuator Hash_Log
begin

text \<open>
  \<open>attestation.py\<close>: the gateway's signing identity, the payloads it signs (outcome and intent), the
  trace lines that carry them, and the durable export: an append-only file of numbered, hash-linked
  lines with a sibling head file. A file is its text, or \<open>None\<close> when it does not exist; a fault of an
  append (the head not written, or only some bytes of the line) is an argument. The lemmas: the
  export is a \<open>hash_log\<close>, a lost line shows as a gap, and a lost head is rebuilt and marked.
\<close>

section \<open>Identity\<close>

record signing_identity =
  id_priv :: string
  id_kid :: string
  id_ran :: "string option"

text \<open>\<open>read\<close> is \<open>path.exists()\<close> and then \<open>path.read_bytes()\<close>; a ValueError, OSError or TypeError from
  reading or loading disables attestation.\<close>

definition load_signing_identity_from_env :: "(string \<Rightarrow> string option) \<Rightarrow> (string \<Rightarrow> (exc + string) option)
    \<Rightarrow> (string \<Rightarrow> exc + private_key) \<Rightarrow> exc + signing_identity option" where
  "load_signing_identity_from_env env read load_pem_private_key =
     (case (env ''ROBOT_MD_ATTESTATION_KEY_FILE'', env ''ROBOT_MD_ATTESTATION_KID'') of
        (Some key_file, Some kid) \<Rightarrow>
          if key_file = [] \<or> kid = [] then Inr None
          else (case read key_file of
            None \<Rightarrow> Inr None
          | Some bytes \<Rightarrow>
             (case bindE bytes load_pem_private_key of
                Inl e \<Rightarrow> if is_value_error e \<or> e = TypeError \<or> is_os_error e then Inr None
                         else Inl e
              | Inr (OtherPrivateKey _) \<Rightarrow> Inr None
              | Inr (Ed25519PrivateKey k) \<Rightarrow> Inr (Some \<lparr>id_priv = k, id_kid = kid,
                  id_ran = env ''ROBOT_MD_ATTESTATION_RAN''\<rparr>)))
      | _ \<Rightarrow> Inr None)"

section \<open>Payloads\<close>

definition RECEIPT_VERSION :: int where
  "RECEIPT_VERSION = 2"

definition outcome_status :: "string \<Rightarrow> bool option \<Rightarrow> string option \<Rightarrow> string" where
  "outcome_status decision ok error_kind =
     (if decision = ''deny'' then ''denied''
      else if ok = Some True then ''ok''
      else if error_kind \<noteq> None then ''error''
      else ''failure'')"

definition telemetry_sha256_of :: "crypto \<Rightarrow> (string \<Rightarrow> (exc + string) option)
    \<Rightarrow> actuator_outcome option \<Rightarrow> exc + string option" where
  "telemetry_sha256_of C read outcome =
     (case outcome of None \<Rightarrow> Inr None
      | Some out \<Rightarrow>
         (case telemetry_path out of
            Some path \<Rightarrow>
              (case read path of None \<Rightarrow> Inr None | Some bytes \<Rightarrow> bindE bytes (\<lambda>b. Inr (Some (sha256 b))))
          | None \<Rightarrow>
              if telemetry out = [] then Inr None
              else bindE (canonical_json C None (telemetry out)) (\<lambda>b. Inr (Some (sha256 b)))))"

definition build_action_trace :: "dict \<Rightarrow> dict \<Rightarrow> json \<Rightarrow> json \<Rightarrow> string option \<Rightarrow> dict" where
  "build_action_trace invoke outcome ruri rrn intent_chain_hash =
     [(''v'', JStr ''rcan-action-trace/1''), (''record_kind'', JStr ''outcome''), (''invoke'', JObj invoke),
      (''outcome'', JObj outcome), (''corr_id'', get invoke ''msg_id''), (''ruri'', ruri), (''rrn'', rrn)]
     @ (case intent_chain_hash of None \<Rightarrow> [] | Some h \<Rightarrow> [(''intent_chain_hash'', JStr h)])"

definition build_intent_trace :: "dict \<Rightarrow> dict \<Rightarrow> json \<Rightarrow> json \<Rightarrow> dict" where
  "build_intent_trace invoke intent ruri rrn =
     [(''v'', JStr ''rcan-action-trace/1''), (''record_kind'', JStr ''intent''), (''invoke'', JObj invoke),
      (''intent'', JObj intent), (''corr_id'', get invoke ''msg_id''), (''ruri'', ruri), (''rrn'', rrn)]"

definition INTENT_VERSION :: int where
  "INTENT_VERSION = 1"

definition build_intent :: "string \<Rightarrow> string option \<Rightarrow> json \<Rightarrow> string option \<Rightarrow> string option
    \<Rightarrow> string option \<Rightarrow> json \<Rightarrow> string option \<Rightarrow> string \<Rightarrow> dict" where
  "build_intent corr_id envelope_id rrn tool actuator nonce caller tier recorded_at =
     [(''intent_version'', JInt INTENT_VERSION), (''record_kind'', JStr ''intent''),
      (''status'', JStr ''dispatching''), (''corr_id'', JStr corr_id), (''envelope_id'', JOpt envelope_id),
      (''rrn'', rrn), (''tool'', JOpt tool), (''actuator'', JOpt actuator), (''nonce'', JOpt nonce),
      (''caller'', caller), (''tier'', JOpt tier), (''recorded_at'', JStr recorded_at)]"

definition build_outcome :: "json \<Rightarrow> json \<Rightarrow> string \<Rightarrow> string \<Rightarrow> string \<Rightarrow> int option \<Rightarrow> string option
    \<Rightarrow> dict option \<Rightarrow> string option \<Rightarrow> json \<Rightarrow> string option \<Rightarrow> dict" where
  "build_outcome corr_id rrn status started_at ended_at duration_ms telemetry_sha256 error
       result_summary caller tier =
     [(''receipt_version'', JInt RECEIPT_VERSION), (''corr_id'', corr_id), (''rrn'', rrn),
      (''status'', JStr status), (''started_at'', JStr started_at), (''ended_at'', JStr ended_at),
      (''caller'', caller), (''tier'', JOpt tier)]
     @ (case duration_ms of None \<Rightarrow> [] | Some d \<Rightarrow> [(''duration_ms'', JInt d)])
     @ (case telemetry_sha256 of None \<Rightarrow> [] | Some h \<Rightarrow> [(''telemetry_sha256'', JStr h)])
     @ (case error of None \<Rightarrow> [] | Some e \<Rightarrow> [(''error'', JObj e)])
     @ (case result_summary of None \<Rightarrow> [] | Some s \<Rightarrow> [(''result_summary'', JStr s)])"

section \<open>The durable export\<close>

definition TRACE_HEAD_VERSION :: string where
  "TRACE_HEAD_VERSION = ''rcan-trace-head/1''"

definition GENESIS_CHAIN_PREV :: string where
  "GENESIS_CHAIN_PREV = replicate 64 (CHR ''0'')"

definition CHAIN_NOTE_UNNUMBERED_HISTORY :: string where
  "CHAIN_NOTE_UNNUMBERED_HISTORY = ''unnumbered_history''"

definition CHAIN_NOTE_HEAD_RECOVERED :: string where
  "CHAIN_NOTE_HEAD_RECOVERED = ''head_recovered_from_file''"

definition CHAIN_NOTE_PARTIAL_PREVIOUS :: string where
  "CHAIN_NOTE_PARTIAL_PREVIOUS = ''previous_line_partial''"

record trace_file =
  export :: "string option"
  head_file :: "string option"

text \<open>A number that can be a seq: an int, not a bool, at least one.\<close>

definition seq_value :: "json \<Rightarrow> int option" where
  "seq_value v = (case v of JInt n \<Rightarrow> if n < 1 then None else Some n | _ \<Rightarrow> None)"

definition read_trace_head :: "trace_file \<Rightarrow> (int \<times> string) option" where
  "read_trace_head f =
     (case Option.bind (head_file f) json_loads of
        Some (JObj head) \<Rightarrow>
          (case (seq_value (get head ''seq''), get head ''chain_hash'') of
             (Some n, JStr h) \<Rightarrow> if length h = 64 then Some (n, h) else None
           | _ \<Rightarrow> None)
      | _ \<Rightarrow> None)"

text \<open>\<open>bytes.strip\<close> leaves nothing: the blank characters of bytes.\<close>

definition blank :: "string \<Rightarrow> bool" where
  "blank s = (\<forall>c \<in> set s. c \<in> {CHR '' '', CHR 0x09, CHR 0x0A, CHR 0x0B, CHR 0x0C, CHR 0x0D})"

definition read_lines :: "trace_file \<Rightarrow> string list" where
  "read_lines f = (case export f of None \<Rightarrow> []
     | Some data \<Rightarrow> filter (\<lambda>l. \<not> blank l) (split_on (CHR 0x0A) data))"

definition seq_of :: "string \<Rightarrow> int option" where
  "seq_of raw = (case json_loads raw of Some (JObj d) \<Rightarrow> seq_value (get d ''seq'') | _ \<Rightarrow> None)"

definition ends_with_newline :: "trace_file \<Rightarrow> bool" where
  "ends_with_newline f = (case export f of None \<Rightarrow> True
     | Some data \<Rightarrow> data = [] \<or> last data = CHR 0x0A)"

text \<open>The loop over the earlier lines, latest first.\<close>

fun first_seq :: "string list \<Rightarrow> int option" where
  "first_seq [] = None"
| "first_seq (raw # rest) = (case seq_of raw of Some n \<Rightarrow> Some n | None \<Rightarrow> first_seq rest)"

definition next_trace_link :: "trace_file \<Rightarrow> int \<times> string \<times> string option" where
  "next_trace_link f =
     (case read_trace_head f of
        Some (n, h) \<Rightarrow> (n + 1, h, None)
      | None \<Rightarrow>
         (let lines = read_lines f in
          if lines = [] then (1, GENESIS_CHAIN_PREV, None)
          else let prev_hash = sha256 (last lines) in
            case seq_of (last lines) of
              Some n \<Rightarrow> (n + 1, prev_hash, Some CHAIN_NOTE_HEAD_RECOVERED)
            | None \<Rightarrow>
               (case first_seq (rev (butlast lines)) of
                  Some n \<Rightarrow> (n + 1, prev_hash, Some CHAIN_NOTE_PARTIAL_PREVIOUS)
                | None \<Rightarrow> (1, prev_hash, Some CHAIN_NOTE_UNNUMBERED_HISTORY))))"

text \<open>\<open>json.dumps(body, sort_keys=True)\<close> of the head.\<close>

definition head_text :: "string \<Rightarrow> string \<Rightarrow> int \<Rightarrow> string \<Rightarrow> string" where
  "head_text name now seq hash = dumps (JObj [(''chain_hash'', JStr hash), (''export'', JStr name),
     (''seq'', JInt seq), (''updated_at'', JStr now), (''v'', JStr TRACE_HEAD_VERSION)])"

definition write_trace_head :: "string \<Rightarrow> string \<Rightarrow> int \<Rightarrow> string \<Rightarrow> trace_file \<Rightarrow> trace_file" where
  "write_trace_head name now seq hash f = f\<lparr>head_file := Some (head_text name now seq hash)\<rparr>"

text \<open>What can go wrong on the disk: the head cannot be written (nothing changes), or the head is
  written and only the first bytes of the line reach the file.\<close>

datatype io_fault = NoFault | HeadFails exc | LineTorn nat exc

definition link_record :: "dict \<Rightarrow> int \<times> string \<times> string option \<Rightarrow> dict" where
  "link_record rec link = (let (seq, prev, note) = link;
       d = AList.update ''chain_prev'' (JStr prev) (AList.update ''seq'' (JInt seq) rec) in
     case note of None \<Rightarrow> d | Some n \<Rightarrow> AList.update ''chain_note'' (JStr n) d)"

text \<open>\<open>append_trace_line\<close>, the body of its lock; \<open>now\<close> is the head's timestamp.\<close>

definition append_trace_line :: "crypto \<Rightarrow> string \<Rightarrow> string \<Rightarrow> io_fault \<Rightarrow> dict \<Rightarrow> trace_file
    \<Rightarrow> (exc + dict) \<times> trace_file" where
  "append_trace_line C name now fault rec f =
     (let link = next_trace_link f; line = link_record rec link in
      case canonical_json C None line of
        Inl e \<Rightarrow> (Inl e, f)
      | Inr canon \<Rightarrow>
         (let separator = (if ends_with_newline f then [] else [CHR 0x0A]);
              bytes = separator @ canon @ [CHR 0x0A];
              data = (case export f of None \<Rightarrow> [] | Some d \<Rightarrow> d);
              f' = write_trace_head name now (fst link) (sha256 canon) f in
          case fault of
            HeadFails e \<Rightarrow> (Inl e, f)
          | LineTorn n e \<Rightarrow> (Inl e, f'\<lparr>export := Some (data @ take n bytes)\<rparr>)
          | NoFault \<Rightarrow> (Inr line, f'\<lparr>export := Some (data @ bytes)\<rparr>)))"

section \<open>The export is a hash-linked log\<close>

lemma get_def_map_of: "map_of d = map_of d' \<Longrightarrow> get_def d k x = get_def d' k x"
  by (simp add: get_def_def)

definition nl :: char where
  "nl = CHR 0x0A"

definition file_of :: "string list \<Rightarrow> string" where
  "file_of lines = concat (map (\<lambda>l. l @ [nl]) lines)"

definition canon_line :: "crypto \<Rightarrow> string \<Rightarrow> bool" where
  "canon_line C l \<longleftrightarrow> (\<exists>d. canonical_json C None d = Inr l)"

definition line_prev :: "string \<Rightarrow> string" where
  "line_prev l = (case json_loads l of
     Some (JObj d) \<Rightarrow> (case get d ''chain_prev'' of JStr s \<Rightarrow> s | _ \<Rightarrow> []) | _ \<Rightarrow> [])"

lemma canon_line_props:
  assumes "reads_back C" "canon_line C l"
  shows "nl \<notin> set l" "\<not> blank l"
proof -
  obtain d where "canonical_json C None d = Inr l" using assms(2) by (auto simp: canon_line_def)
  with assms(1) have l: "startswith l ''{''" "CHR 0x0A \<notin> set l" by (auto simp: reads_back_def)
  then obtain t where "l = CHR ''{'' # t" by (auto simp: startswith_iff)
  with l show "nl \<notin> set l" "\<not> blank l" by (auto simp: nl_def blank_def)
qed

lemma split_file_of: "\<forall>l \<in> set xs. nl \<notin> set l \<Longrightarrow> split_on nl (file_of xs @ t) = xs @ split_on nl t"
  by (induction xs) (auto simp: file_of_def split_on_sep)

lemma read_lines_file_of:
  assumes "reads_back C" "\<forall>l \<in> set xs. canon_line C l" "export f = Some (file_of xs)"
  shows "read_lines f = xs"
proof -
  have "split_on nl (file_of xs @ []) = xs @ split_on nl []"
    using assms canon_line_props by (intro split_file_of) auto
  then have "split_on (CHR 0x0A) (file_of xs) = xs @ [[]]" by (simp add: nl_def)
  moreover have "filter (\<lambda>l. \<not> blank l) xs = xs" using assms canon_line_props by auto
  ultimately show ?thesis using assms(3) by (simp add: read_lines_def blank_def)
qed

text \<open>The largest number whose text the JSON reader takes (4300 digits).\<close>

definition SEQ_LIMIT :: int where
  "SEQ_LIMIT = 10 ^ 4300"

lemma length_nat_str_int:
  assumes "0 < n" "n < (10::int) ^ k" "0 < k"
  shows "length (nat_str (nat n)) \<le> k"
proof (rule length_nat_str)
  have "int (nat n) < int (10 ^ k)" using assms by simp
  then show "nat n < 10 ^ k" by (simp only: of_nat_less_iff)
qed (rule assms(3))

lemma seq_digits: "0 < n \<Longrightarrow> n < SEQ_LIMIT \<Longrightarrow> length (nat_str (nat n)) \<le> 4300"
  unfolding SEQ_LIMIT_def by (rule length_nat_str_int) (assumption+, rule zero_less_numeral)

text \<open>A head this code wrote reads back.\<close>

lemma read_written_head:
  assumes "0 < n" "n < SEQ_LIMIT" "length h = 64" "head_file f = Some (head_text name now n h)"
  shows "read_trace_head f = Some (n, h)"
proof -
  have "length (nat_str (nat \<bar>n\<bar>)) \<le> 4300" using seq_digits assms(1,2) by simp
  then have "json_loads (head_text name now n h) = Some (JObj [(''chain_hash'', JStr h), (''export'', JStr name),
      (''seq'', JInt n), (''updated_at'', JStr now), (''v'', JStr TRACE_HEAD_VERSION)])"
    unfolding head_text_def by (intro loads_dumps) simp
  with assms show ?thesis by (simp add: read_trace_head_def seq_value_def)
qed

text \<open>An export no fault has touched: whole canonical lines, and a head that describes the last one.\<close>

definition intact :: "crypto \<Rightarrow> trace_file \<Rightarrow> bool" where
  "intact C f \<longleftrightarrow>
     (export f = None \<or> export f = Some []) \<and> head_file f = None \<or>
     (\<exists>xs x n. export f = Some (file_of (xs @ [x])) \<and> (\<forall>l \<in> set (xs @ [x]). canon_line C l) \<and>
        read_trace_head f = Some (n, sha256 x) \<and> 0 < n)"

definition head_seq :: "trace_file \<Rightarrow> int" where
  "head_seq f = (case read_trace_head f of None \<Rightarrow> 0 | Some (n, h) \<Rightarrow> n)"

definition trace_room :: "nat \<Rightarrow> trace_file \<Rightarrow> bool" where
  "trace_room n f \<longleftrightarrow> head_seq f + int n < SEQ_LIMIT"

lemma intact_link:
  assumes "reads_back C" "intact C f"
  shows "next_trace_link f = (head_seq f + 1, end_hash id GENESIS_CHAIN_PREV (read_lines f), None)"
    "ends_with_newline f" "0 \<le> head_seq f"
    "\<exists>data. (case export f of None \<Rightarrow> [] | Some d \<Rightarrow> d) = data \<and> data = file_of (read_lines f)"
    "\<forall>l \<in> set (read_lines f). canon_line C l"
proof -
  consider (fresh) "export f = None \<or> export f = Some []" "head_file f = None"
    | (used) xs x n where "export f = Some (file_of (xs @ [x]))" "\<forall>l \<in> set (xs @ [x]). canon_line C l"
        "read_trace_head f = Some (n, sha256 x)" "0 < n"
    using assms(2) unfolding intact_def by (elim disjE conjE exE) blast+
  then have "next_trace_link f = (head_seq f + 1, end_hash id GENESIS_CHAIN_PREV (read_lines f), None) \<and>
      ends_with_newline f \<and> 0 \<le> head_seq f \<and>
      (case export f of None \<Rightarrow> [] | Some d \<Rightarrow> d) = file_of (read_lines f) \<and>
      (\<forall>l \<in> set (read_lines f). canon_line C l)"
  proof cases
    case fresh
    then show ?thesis
      by (auto simp: next_trace_link_def read_trace_head_def read_lines_def blank_def ends_with_newline_def
          head_seq_def file_of_def)
  next
    case used
    have "read_lines f = xs @ [x]" using assms(1) used by (intro read_lines_file_of) auto
    moreover have "last (file_of (xs @ [x])) = CHR 0x0A" by (simp add: file_of_def nl_def)
    ultimately show ?thesis
      using used by (simp add: next_trace_link_def end_hash_def ends_with_newline_def head_seq_def)
  qed
  then show "next_trace_link f = (head_seq f + 1, end_hash id GENESIS_CHAIN_PREV (read_lines f), None)"
    "ends_with_newline f" "0 \<le> head_seq f"
    "\<exists>data. (case export f of None \<Rightarrow> [] | Some d \<Rightarrow> d) = data \<and> data = file_of (read_lines f)"
    "\<forall>l \<in> set (read_lines f). canon_line C l" by auto
qed

text \<open>One append without a fault, on an intact export.\<close>

lemma append_intact:
  assumes "reads_back C" "intact C f" "head_seq f + 1 < SEQ_LIMIT"
    and "append_trace_line C name now NoFault rec f = (Inr line, f')"
  shows "\<exists>l. canonical_json C None line = Inr l \<and> read_lines f' = read_lines f @ [l] \<and> intact C f' \<and>
    head_seq f' = head_seq f + 1 \<and>
    line = link_record rec (head_seq f + 1, end_hash id GENESIS_CHAIN_PREV (read_lines f), None)"
proof -
  note link = intact_link [OF assms(1,2)]
  obtain l where l: "canonical_json C None line = Inr l"
      "line = link_record rec (head_seq f + 1, end_hash id GENESIS_CHAIN_PREV (read_lines f), None)"
      "f' = write_trace_head name now (head_seq f + 1) (sha256 l) f
        \<lparr>export := Some (file_of (read_lines f) @ l @ [CHR 0x0A])\<rparr>"
    using assms(4) link(1,2,4) by (auto simp: append_trace_line_def Let_def split: sum.splits)
  have canon: "canon_line C l" using l(1) by (auto simp: canon_line_def)
  have e: "export f' = Some (file_of (read_lines f @ [l]))" by (simp add: l(3) file_of_def nl_def)
  have h: "read_trace_head f' = Some (head_seq f + 1, sha256 l)"
    using link(3) assms(3) by (intro read_written_head) (simp_all add: l(3) write_trace_head_def)
  have lines: "read_lines f' = read_lines f @ [l]"
    using assms(1) e canon link(5) by (intro read_lines_file_of) auto
  have "intact C f'"
    unfolding intact_def using e h canon link(3,5) by (intro disjI2 exI conjI) auto
  with l lines h show ?thesis by (auto simp: head_seq_def)
qed

definition append_line :: "crypto \<Rightarrow> string \<times> string \<times> dict \<Rightarrow> trace_file \<Rightarrow> (exc + string) \<times> trace_file" where
  "append_line C q f = (let (name, now, rec) = q in
     case append_trace_line C name now NoFault rec f of
       (Inl e, f') \<Rightarrow> (Inl e, f')
     | (Inr line, f') \<Rightarrow> (canonical_json C None line, f'))"

lemma link_record_prev [simp]:
  "get (link_record rec (n, h, note)) ''chain_prev'' = JStr h"
  "get (link_record rec (n, h, note)) ''seq'' = JInt n"
  by (simp_all add: link_record_def Let_def split: option.splits)

lemma line_prev_canon:
  assumes "reads_back C" "canonical_json C None line = Inr l" "get line ''chain_prev'' = JStr h"
  shows "line_prev l = h"
proof -
  obtain d' where "json_loads l = Some (JObj d')" "map_of d' = map_of line"
    using assms(1,2) unfolding reads_back_def by blast
  with get_def_map_of [of d' line] assms(3) show ?thesis by (simp add: line_prev_def)
qed

interpretation trace_log: hash_log "append_line C" read_lines "\<lambda>f. reads_back C \<and> intact C f" trace_room
  id line_prev GENESIS_CHAIN_PREV for C
proof unfold_locales
  fix s n r i s'
  assume inv: "reads_back C \<and> intact C s" and room: "trace_room (Suc n) s"
    and a: "append_line C r s = (Inr i, s')"
  obtain name now rec where r: "r = (name, now, rec)" by (metis surj_pair)
  have less: "head_seq s + 1 < SEQ_LIMIT" using room by (simp add: trace_room_def)
  obtain line where line: "append_trace_line C name now NoFault rec s = (Inr line, s')"
      "canonical_json C None line = Inr i"
    using a r by (auto simp: append_line_def split: prod.splits sum.splits)
  with append_intact [OF _ _ less line(1)] inv
  have i: "read_lines s' = read_lines s @ [i]" "intact C s'" "head_seq s' = head_seq s + 1"
      "line = link_record rec (head_seq s + 1, end_hash id GENESIS_CHAIN_PREV (read_lines s), None)" by auto
  moreover have "line_prev i = end_hash id GENESIS_CHAIN_PREV (read_lines s)"
    using inv line(2) i(4) by (intro line_prev_canon [of C line]) auto
  ultimately show "(reads_back C \<and> intact C s') \<and> trace_room n s' \<and> read_lines s' = read_lines s @ [i] \<and>
      line_prev i = end_hash id GENESIS_CHAIN_PREV (read_lines s)"
    using inv room by (simp add: trace_room_def)
next
  fix s n r e s'
  assume inv: "reads_back C \<and> intact C s" and room: "trace_room (Suc n) s"
    and a: "append_line C r s = (Inl e, s')"
  obtain name now rec where r: "r = (name, now, rec)" by (metis surj_pair)
  have "s' = s"
    using a r by (auto simp: append_line_def append_trace_line_def Let_def split: prod.splits sum.splits)
  with inv room show "(reads_back C \<and> intact C s') \<and> trace_room n s' \<and> read_lines s' = read_lines s"
    by (simp add: trace_room_def)
qed auto

section \<open>Faults are visible\<close>

text \<open>A line that never reached the file: the next one skips its number and binds its hash.\<close>

lemma lost_line_gap:
  assumes "reads_back C" "intact C f" "head_seq f + 2 < SEQ_LIMIT"
    and "append_trace_line C name now (LineTorn 0 e) rec f = (Inl e, f')" 
    and "canonical_json C None (link_record rec (next_trace_link f)) = Inr lost"
  shows "read_lines f' = read_lines f \<and>
    next_trace_link f' = (head_seq f + 2, sha256 lost, None)"
proof -
  note link = intact_link [OF assms(1,2)]
  have f': "f' = write_trace_head name now (head_seq f + 1) (sha256 lost) f
      \<lparr>export := Some (file_of (read_lines f))\<rparr>"
    using assms(4,5) link(1,2,4) by (auto simp: append_trace_line_def Let_def split: sum.splits)
  have "read_trace_head f' = Some (head_seq f + 1, sha256 lost)"
    using link(3) assms(3) by (intro read_written_head) (simp_all add: f' write_trace_head_def)
  moreover have "read_lines f' = read_lines f"
    using assms(1) link(5) by (intro read_lines_file_of) (simp_all add: f')
  ultimately show ?thesis by (simp add: next_trace_link_def)
qed

text \<open>A head that is gone: numbering continues from the file's last line, and the line says so.\<close>

lemma lost_head_marked:
  assumes "read_trace_head f = None" "read_lines f \<noteq> []" "seq_of (last (read_lines f)) = Some n"
  shows "next_trace_link f = (n + 1, sha256 (last (read_lines f)), Some CHAIN_NOTE_HEAD_RECOVERED)"
  using assms by (simp add: next_trace_link_def Let_def)

section \<open>Properties\<close>


definition empty_trace :: trace_file where
  "empty_trace = \<lparr>export = None, head_file = None\<rparr>"

lemma empty_trace_facts [simp]:
  "intact C empty_trace" "read_lines empty_trace = []" "head_seq empty_trace = 0"
  by (simp_all add: empty_trace_def intact_def read_lines_def head_seq_def read_trace_head_def)

lemma SEQ_LIMIT_room: "n \<le> 1000 \<Longrightarrow> n < SEQ_LIMIT"
proof -
  assume "n \<le> 1000"
  also have "(1000::int) < 10 ^ 4" by simp
  also have "(10::int) ^ 4 \<le> 10 ^ 4300" by (rule power_increasing) auto
  finally show ?thesis unfolding SEQ_LIMIT_def .
qed




text \<open>A lost or unreadable head does not restart the numbering silently: the next line continues from the last
  numbered line of the file, binds the bytes physically last, and carries the note that says how the
  number was recovered; only a file with no line at all starts plainly at 1 from genesis.\<close>

theorem recovery_is_marked:
  assumes "read_trace_head f = None"
  shows "next_trace_link f =
    (if read_lines f = [] then (1, GENESIS_CHAIN_PREV, None)
     else (case first_seq (rev (read_lines f)) of
         Some n \<Rightarrow> n + 1 | None \<Rightarrow> 1,
       sha256 (last (read_lines f)),
       Some (if seq_of (last (read_lines f)) \<noteq> None then CHAIN_NOTE_HEAD_RECOVERED
             else if first_seq (rev (read_lines f)) \<noteq> None then CHAIN_NOTE_PARTIAL_PREVIOUS
             else CHAIN_NOTE_UNNUMBERED_HISTORY)))"
proof (cases "read_lines f" rule: rev_exhaust)
  case Nil
  with assms show ?thesis by (simp add: next_trace_link_def)
next
  case (snoc xs x)
  with assms show ?thesis by (auto simp: next_trace_link_def Let_def split: option.splits)
qed

theorem recovery_is_marked_witness:
  "next_trace_link \<lparr>export = Some ''x'', head_file = None\<rparr> =
    (if read_lines \<lparr>export = Some ''x'', head_file = None\<rparr> = [] then (1, GENESIS_CHAIN_PREV, None)
     else (case first_seq (rev (read_lines \<lparr>export = Some ''x'', head_file = None\<rparr>)) of Some n \<Rightarrow> n + 1 | None \<Rightarrow> 1,
       sha256 (last (read_lines \<lparr>export = Some ''x'', head_file = None\<rparr>)),
       Some (if seq_of (last (read_lines \<lparr>export = Some ''x'', head_file = None\<rparr>)) \<noteq> None then CHAIN_NOTE_HEAD_RECOVERED
             else if first_seq (rev (read_lines \<lparr>export = Some ''x'', head_file = None\<rparr>)) \<noteq> None
               then CHAIN_NOTE_PARTIAL_PREVIOUS
             else CHAIN_NOTE_UNNUMBERED_HISTORY)))"
  by (rule recovery_is_marked) (simp add: read_trace_head_def)

end
