(* ===== verification/Py_Time.thy ===== *)
theory Py_Time
  imports Py_Prelude
begin

text \<open>
  The clock's renderings: \<open>datetime.now(tz=utc).isoformat()\<close> of an instant given in microseconds since
  the epoch (years 1970 to 9999), and the difference of two such instants in whole milliseconds as
  the gateway computes it, through floats. Times are integers of microseconds, the resolution of
  \<open>datetime\<close>, so \<open>fromisoformat\<close> of a rendering is the instant itself.
\<close>

text \<open>Year, month and day of a day number, by eras of 400 years counted from 1 March.\<close>

definition civil :: "nat \<Rightarrow> nat \<times> nat \<times> nat" where
  "civil days = (let z = days + 719468; era = z div 146097; doe = z mod 146097;
       yoe = (doe - doe div 1460 + doe div 36524 - doe div 146096) div 365;
       doy = doe - (365 * yoe + yoe div 4 - yoe div 100); mp = (5 * doy + 2) div 153;
       m = (if mp < 10 then mp + 3 else mp - 9) in
     (yoe + era * 400 + (if m \<le> 2 then 1 else 0), m, doy - (153 * mp + 2) div 5 + 1))"

definition padded :: "nat \<Rightarrow> nat \<Rightarrow> string" where
  "padded k n = (let s = nat_str n in replicate (k - length s) (CHR ''0'') @ s)"

definition iso_utc :: "nat \<Rightarrow> string" where
  "iso_utc us = (let secs = us div 1000000; (y, m, d) = civil (secs div 86400); t = secs mod 86400 in
     padded 4 y @ ''-'' @ padded 2 m @ ''-'' @ padded 2 d @ ''T'' @ padded 2 (t div 3600) @ '':''
     @ padded 2 (t div 60 mod 60) @ '':'' @ padded 2 (t mod 60)
     @ (if us mod 1000000 = 0 then [] else ''.'' @ padded 6 (us mod 1000000)) @ ''+00:00'')"

text \<open>\<open>int((ended - started).total_seconds() * 1000)\<close>: two float roundings, then truncation.\<close>

definition duration_ms_of :: "nat \<Rightarrow> nat \<Rightarrow> int" where
  "duration_ms_of started ended =
     (case fmul_const (fl (of_int (int ended - int started) / 1000000)) 1000 of
        FFin r \<Rightarrow> trunc r | _ \<Rightarrow> 0)"

end
