(* ===== verification/Receiver_Records.thy ===== *)
theory Receiver_Records
  imports Revocation Auth Safety Attestation Py_Time
begin

text \<open>
  \<open>receiver.py\<close>, the evidence half: the gateway's configuration and state, and the functions that
  write what happened: the signed outcome, the audit entry and trace line of a decision, and the
  record written before the actuator is called. Clock readings, file contents, faults of the disk
  and the answers of other services in one request are the fields of \<open>world\<close>.
\<close>

section \<open>Configuration, state, world\<close>

text \<open>The actuators of \<open>make_app\<close>: one with its config, or several by name with their configs.\<close>

datatype fleet =
    Single actuator dict
  | Multi "(string \<times> actuator) list" "(string \<times> dict) list"

record gateway_config =
  cf_crypto :: crypto
  cf_yaml :: yaml_load
  cf_allowlist :: tool_allowlist
  cf_tool_tiers :: "(string \<times> string list) list"
  cf_bearers :: "(string \<times> string \<times> json) list"
  cf_require_signature :: bool
  cf_freshness :: freshness_policy
  cf_confidence :: "confidence_policy option"
  cf_hitl :: "hitl_policy option"
  cf_hitl_from_manifest :: bool
  cf_require_rrn :: bool
  cf_pin :: "string option"
  cf_check_revocation :: bool
  cf_fleet :: fleet
  cf_identity :: "signing_identity option"
  cf_export :: "string option"
  cf_schema_errors :: "dict \<Rightarrow> json"

text \<open>\<open>gw_dispatched\<close> is the history of actuator calls, with the audit chain as it was at the call: it
  is not a variable of the program but what its environment has seen.\<close>

record dispatch =
  dp_actuator :: string
  dp_tool :: string
  dp_envelope :: dict
  dp_tier :: string
  dp_chain :: "audit_chain option"

record 'rs gateway =
  gw_monitor :: "safety_monitor option"
  gw_chain :: "audit_chain option"
  gw_replay :: replay_cache
  gw_revocation :: revocation_cache
  gw_report :: cert_report
  gw_frontmatter :: "(string \<times> pyfloat \<times> json) list"
  gw_trace :: trace_file
  gw_resolver :: 'rs
  gw_dispatched :: "dispatch list"

text \<open>One request's view of the outside: clock readings (microseconds for \<open>datetime.now\<close>, milliseconds
  for \<open>int(time.time() * 1000)\<close>), the manifest file at its three reads, the telemetry file at its two,
  the revocation service's answer, and the disk's faults at the two appends.\<close>

record world =
  w_started :: nat
  w_intent_at :: nat
  w_ended :: nat
  w_now :: nat
  w_mono_tick :: pyfloat
  w_mono_revocation :: pyfloat
  w_ms_freshness :: int
  w_ms_intent :: int
  w_ms_outcome :: int
  w_read :: "nat \<Rightarrow> string \<Rightarrow> exc + string"
  w_mtime :: "nat \<Rightarrow> string \<Rightarrow> pyfloat option"
  w_realpath :: "string \<Rightarrow> exc + string"
  w_revoked :: "json \<Rightarrow> exc + bool option"
  w_telemetry :: "nat \<Rightarrow> string \<Rightarrow> (exc + string) option"
  w_fault :: "nat \<Rightarrow> io_fault"
  w_head_at :: "nat \<Rightarrow> nat"

text \<open>Who asks, and what: fixed for the request.\<close>

record request =
  rq_envelope :: dict
  rq_tier :: string
  rq_caller :: json

section \<open>The signed outcome\<close>

text \<open>What is recorded about a decision; \<open>rc_msg_id\<close> may be any value before the schema check.\<close>

record decision_record =
  rc_decision :: string
  rc_reason :: string
  rc_kid :: json
  rc_msg_id :: json
  rc_outcome :: "actuator_outcome option"
  rc_error_kind :: "string option"
  rc_actuator :: "string option"
  rc_ruri :: json
  rc_rrn :: json
  rc_ended :: "nat option"
  rc_intent_hash :: "string option"

definition refusal :: "string \<Rightarrow> json \<Rightarrow> json \<Rightarrow> json \<Rightarrow> json \<Rightarrow> decision_record" where
  "refusal reason kid msg_id ruri rrn = \<lparr>rc_decision = ''deny'', rc_reason = reason, rc_kid = kid,
     rc_msg_id = msg_id, rc_outcome = None, rc_error_kind = None, rc_actuator = None, rc_ruri = ruri,
     rc_rrn = rrn, rc_ended = None, rc_intent_hash = None\<rparr>"

text \<open>\<open>outcome.error_message or ""\<close>; without an outcome the attribute access raises.\<close>

definition failure_message :: "actuator_outcome option \<Rightarrow> exc + string" where
  "failure_message out = (case out of None \<Rightarrow> Inl AttributeError
     | Some a \<Rightarrow> Inr (case error_message a of None \<Rightarrow> [] | Some m \<Rightarrow> m))"

definition deny_kind :: "string \<Rightarrow> string" where
  "deny_kind reason = (let k = strip (hd (split_on (CHR '':'') reason)) in if k = [] then ''denied'' else k)"

definition outcome_error :: "decision_record \<Rightarrow> string \<Rightarrow> exc + dict option" where
  "outcome_error d status =
     (if status = ''ok'' then Inr None
      else if rc_decision d = ''deny'' then
        Inr (Some [(''kind'', JStr (deny_kind (rc_reason d))), (''message'', JStr (rc_reason d))])
      else bindE (failure_message (rc_outcome d)) (\<lambda>m.
        Inr (Some [(''kind'', JStr (case rc_error_kind d of None \<Rightarrow> ''actuator_failure'' | Some k \<Rightarrow> k)),
                   (''message'', JStr m)])))"

definition build_signed_outcome :: "gateway_config \<Rightarrow> world \<Rightarrow> request \<Rightarrow> decision_record
    \<Rightarrow> exc + dict option \<times> string" where
  "build_signed_outcome cf w rq d =
     (case cf_identity cf of
        None \<Rightarrow> Inr (None, ''unattested'')
      | Some idn \<Rightarrow>
         (let status = outcome_status (rc_decision d) (map_option success (rc_outcome d)) (rc_error_kind d) in
          bindE (outcome_error d status) (\<lambda>error.
          bindE (telemetry_sha256_of (cf_crypto cf) (w_telemetry w 0) (rc_outcome d)) (\<lambda>sha.
          let body = build_outcome (rc_msg_id d) (py_or (rc_rrn d) (JStr [])) status
                (iso_utc (w_started w))
                (iso_utc (case rc_ended d of None \<Rightarrow> w_now w | Some t \<Rightarrow> t))
                (map_option (duration_ms_of (w_started w)) (rc_ended d))
                sha error None (rq_caller rq) (Some (rq_tier rq)) in
          bindE (sign_envelope (cf_crypto cf) (id_priv idn) body (id_kid idn)) (\<lambda>receipt.
            Inr (Some receipt, ''attested''))))))"

text \<open>The same under \<open>except Exception\<close>: a failure to sign is an unattested answer.\<close>

definition signed_or_not :: "gateway_config \<Rightarrow> world \<Rightarrow> request \<Rightarrow> decision_record \<Rightarrow> dict option \<times> string" where
  "signed_or_not cf w rq d =
     (case build_signed_outcome cf w rq d of Inl _ \<Rightarrow> (None, ''unattested'') | Inr x \<Rightarrow> x)"

definition attach_signature :: "dict \<Rightarrow> dict option \<times> string \<Rightarrow> dict" where
  "attach_signature target sm =
     (let t = AList.update ''attestation'' (JStr (snd sm)) target in
      case fst sm of
        None \<Rightarrow> AList.update ''envelope_signature'' JNull t
      | Some receipt \<Rightarrow> AList.update ''envelope_signature'' (get receipt ''envelope_signature'')
          (AList.update ''outcome'' (JObj receipt) t))"

section \<open>The trace\<close>

text \<open>The \<open>n\<close>-th append of the request (0 the intent, 1 the outcome), best effort: what fails is dropped.\<close>

definition emit_line :: "gateway_config \<Rightarrow> world \<Rightarrow> nat \<Rightarrow> dict \<Rightarrow> 'rs gateway \<Rightarrow> 'rs gateway" where
  "emit_line cf w n rec s =
     (case cf_export cf of None \<Rightarrow> s
      | Some name \<Rightarrow> s\<lparr>gw_trace := snd (append_trace_line (cf_crypto cf) name (iso_utc (w_head_at w n))
          (w_fault w n) rec (gw_trace s))\<rparr>)"

definition emit_attestation :: "gateway_config \<Rightarrow> world \<Rightarrow> request \<Rightarrow> decision_record \<Rightarrow> dict option
    \<Rightarrow> 'rs gateway \<Rightarrow> 'rs gateway" where
  "emit_attestation cf w rq d receipt s =
     (case (cf_identity cf, receipt) of
        (Some _, Some outcome) \<Rightarrow>
          emit_line cf w 1 (build_action_trace (rq_envelope rq) outcome (rc_ruri d)
            (py_or (rc_rrn d) (JStr [])) (rc_intent_hash d)) s
      | _ \<Rightarrow> s)"

section \<open>The audit entry of a decision\<close>

text \<open>The telemetry fields of the entry: the file's hash, or the in-memory telemetry's.\<close>

definition audit_telemetry :: "gateway_config \<Rightarrow> world \<Rightarrow> actuator_outcome
    \<Rightarrow> exc + string option \<times> string option" where
  "audit_telemetry cf w out =
     (case telemetry_path out of
        Some path \<Rightarrow>
          (case w_telemetry w 1 path of
             None \<Rightarrow> Inr (None, Some path)
           | Some bytes \<Rightarrow> bindE bytes (\<lambda>b. Inr (Some (sha256 b), Some path)))
      | None \<Rightarrow>
          if telemetry out = [] then Inr (None, None)
          else bindE (canonical_json (cf_crypto cf) None (telemetry out)) (\<lambda>b. Inr (Some (sha256 b), None)))"

definition decision_entry :: "gateway_config \<Rightarrow> world \<Rightarrow> request \<Rightarrow> decision_record \<Rightarrow> exc + audit_entry" where
  "decision_entry cf w rq d =
     (let e = (AuditEntry (rc_msg_id d) (w_ms_outcome w) (rc_decision d) (rc_reason d) (rc_kid d))
            \<lparr>ae_caller := rq_caller rq, ae_tier := Some (rq_tier rq), ae_entry_kind := ''outcome'',
             ae_intent_chain_hash := rc_intent_hash d\<rparr> in
      case rc_outcome d of None \<Rightarrow> Inr e
      | Some out \<Rightarrow> bindE (audit_telemetry cf w out) (\<lambda>(sha, path).
          Inr (e\<lparr>ae_actuator_name := rc_actuator d, ae_actuator_outcome_kind := Some (outcome_kind out),
            ae_actuator_telemetry_sha256 := sha, ae_actuator_telemetry_path := path,
            ae_actuator_error_kind := rc_error_kind d\<rparr>)))"

text \<open>Sign, then audit, then emit. Only the audit step may raise.\<close>

definition record_with_outcome :: "gateway_config \<Rightarrow> world \<Rightarrow> request \<Rightarrow> decision_record \<Rightarrow> 'rs gateway
    \<Rightarrow> (exc + dict option \<times> string) \<times> 'rs gateway" where
  "record_with_outcome cf w rq d s =
     (let sm = signed_or_not cf w rq d in
      case gw_chain s of
        None \<Rightarrow> (Inr sm, emit_attestation cf w rq d (fst sm) s)
      | Some ch \<Rightarrow>
         (case decision_entry cf w rq d of
            Inl e \<Rightarrow> (Inl e, s)
          | Inr entry \<Rightarrow>
             (case append_audit (cf_crypto cf) entry ch of
                (Inl e, ch') \<Rightarrow> (Inl e, s\<lparr>gw_chain := Some ch'\<rparr>)
              | (Inr _, ch') \<Rightarrow>
                  (Inr sm, emit_attestation cf w rq d (fst sm) (s\<lparr>gw_chain := Some ch'\<rparr>)))))"

section \<open>The record before dispatch\<close>

definition intent_entry :: "world \<Rightarrow> request \<Rightarrow> string \<Rightarrow> json \<Rightarrow> string \<Rightarrow> string \<Rightarrow> audit_entry" where
  "intent_entry w rq msg_id kid tool act =
     (AuditEntry (JStr msg_id) (w_ms_intent w) ''allow''
        ''dispatching: all gates passed, actuator not yet called'' kid)
      \<lparr>ae_caller := rq_caller rq, ae_tier := Some (rq_tier rq), ae_entry_kind := ''intent'',
       ae_tool_name := Some tool, ae_envelope_id := str_or_none (get (rq_envelope rq) ''envelope_id''),
       ae_nonce := str_or_none (get (rq_envelope rq) ''nonce''), ae_actuator_name := Some act\<rparr>"

definition signed_intent :: "gateway_config \<Rightarrow> world \<Rightarrow> request \<Rightarrow> signing_identity \<Rightarrow> string \<Rightarrow> json
    \<Rightarrow> string \<Rightarrow> string \<Rightarrow> exc + dict" where
  "signed_intent cf w rq idn msg_id rrn tool act =
     sign_envelope (cf_crypto cf) (id_priv idn)
       (build_intent msg_id (str_or_none (get (rq_envelope rq) ''envelope_id'')) (py_or rrn (JStr []))
         (Some tool) (Some act) (str_or_none (get (rq_envelope rq) ''nonce'')) (rq_caller rq)
         (Some (rq_tier rq)) (iso_utc (w_intent_at w))) (id_kid idn)"

text \<open>Both halves under \<open>except Exception\<close>; the answer is the intent's chain hash, if it was written.\<close>

definition record_intent :: "gateway_config \<Rightarrow> world \<Rightarrow> request \<Rightarrow> string \<Rightarrow> json \<Rightarrow> json \<Rightarrow> string \<Rightarrow> string
    \<Rightarrow> json \<Rightarrow> 'rs gateway \<Rightarrow> string option \<times> 'rs gateway" where
  "record_intent cf w rq msg_id ruri rrn tool act kid s =
     (let (hash, s1) = (case gw_chain s of
            None \<Rightarrow> (None, s)
          | Some ch \<Rightarrow>
             (case append_audit (cf_crypto cf) (intent_entry w rq msg_id kid tool act) ch of
                (Inl _, ch') \<Rightarrow> (None, s\<lparr>gw_chain := Some ch'\<rparr>)
              | (Inr stored, ch') \<Rightarrow> (Some (ae_chain_hash stored), s\<lparr>gw_chain := Some ch'\<rparr>)));
          s2 = (case (cf_identity cf, cf_export cf) of
            (Some idn, Some _) \<Rightarrow>
              (case signed_intent cf w rq idn msg_id rrn tool act of
                 Inl _ \<Rightarrow> s1
               | Inr receipt \<Rightarrow> emit_line cf w 0 (build_intent_trace (rq_envelope rq) receipt ruri
                   (py_or rrn (JStr []))) s1)
          | _ \<Rightarrow> s1) in
      (hash, s2))"

section \<open>What recording changes\<close>

text \<open>Recording writes the chain and the trace, and nothing else of the state.\<close>

definition evidence_only :: "'rs gateway \<Rightarrow> 'rs gateway \<Rightarrow> bool" where
  "evidence_only s s' \<longleftrightarrow> s' = s\<lparr>gw_chain := gw_chain s', gw_trace := gw_trace s'\<rparr>"

lemma evidence_only_refl [simp]: "evidence_only s s"
  by (simp add: evidence_only_def)

lemma evidence_only_trans: "evidence_only s t \<Longrightarrow> evidence_only t u \<Longrightarrow> evidence_only s u"
  unfolding evidence_only_def by (cases s; cases t; cases u) auto

lemma evidence_only_fields:
  assumes "evidence_only s s'"
  shows "gw_monitor s' = gw_monitor s" "gw_replay s' = gw_replay s" "gw_revocation s' = gw_revocation s"
    "gw_report s' = gw_report s" "gw_frontmatter s' = gw_frontmatter s" "gw_resolver s' = gw_resolver s"
    "gw_dispatched s' = gw_dispatched s"
  using assms unfolding evidence_only_def by (cases s; cases s'; auto)+

lemma emit_line_frame [simp]:
  "evidence_only s (emit_line cf w n rec s)" "gw_chain (emit_line cf w n rec s) = gw_chain s"
  by (auto simp: emit_line_def evidence_only_def split: option.splits)

lemma emit_attestation_frame [simp]:
  "evidence_only s (emit_attestation cf w rq d sg s)" "gw_chain (emit_attestation cf w rq d sg s) = gw_chain s"
  by (auto simp: emit_attestation_def split: option.splits)

lemma chain_update_frame [simp]: "evidence_only s (s\<lparr>gw_chain := ch\<rparr>)"
  by (simp add: evidence_only_def)

lemma record_with_outcome_frame:
  "record_with_outcome cf w rq d s = (res, s') \<Longrightarrow> evidence_only s s'"
  by (auto simp: record_with_outcome_def Let_def split: option.splits sum.splits prod.splits
      intro: evidence_only_trans [OF chain_update_frame emit_attestation_frame(1)])

text \<open>A recorded decision is one entry at the end of the chain.\<close>

definition entry_matches :: "request \<Rightarrow> decision_record \<Rightarrow> audit_entry \<Rightarrow> bool" where
  "entry_matches rq d e \<longleftrightarrow> ae_msg_id e = rc_msg_id d \<and> ae_decision e = rc_decision d \<and>
     ae_decision_reason e = rc_reason d \<and> ae_envelope_kid e = rc_kid d \<and> ae_entry_kind e = ''outcome'' \<and>
     ae_caller e = rq_caller rq \<and> ae_tier e = Some (rq_tier rq) \<and> ae_intent_chain_hash e = rc_intent_hash d"

lemma decision_entry_matches: "decision_entry cf w rq d = Inr e \<Longrightarrow> entry_matches rq d e"
  by (auto simp: decision_entry_def Let_def entry_matches_def AuditEntry_def bindE_Inr_iff
      split: option.splits prod.splits)

lemma entry_matches_stored:
  assumes "append_audit C entry ch = (Inr e, ch')" "entry_matches rq d entry"
  shows "entry_matches rq d e \<and> ch' = ch @ [e] \<and> next_entry C ch e"
  by (rule append_audit_stored [OF assms(1)]) (use assms(2) in \<open>simp add: entry_matches_def next_entry_def\<close>)

lemma record_with_outcome_entry:
  assumes "record_with_outcome cf w rq d s = (Inr sm, s')" "gw_chain s = Some ch"
  shows "\<exists>e. gw_chain s' = Some (ch @ [e]) \<and> entry_matches rq d e \<and> next_entry (cf_crypto cf) ch e"
proof -
  obtain entry where e: "decision_entry cf w rq d = Inr entry"
    using assms by (cases "decision_entry cf w rq d") (auto simp: record_with_outcome_def Let_def)
  obtain a ch' where a: "append_audit (cf_crypto cf) entry ch = (a, ch')" by (meson surj_pair)
  then obtain x where x: "a = Inr x" "gw_chain s' = Some ch'"
    using assms e by (cases a) (auto simp: record_with_outcome_def Let_def)
  with entry_matches_stored a decision_entry_matches [OF e] show ?thesis by blast
qed

lemma record_with_outcome_unaudited:
  "gw_chain s = None \<Longrightarrow> record_with_outcome cf w rq d s = (res, s') \<Longrightarrow> gw_chain s' = None \<and> (\<exists>sm. res = Inr sm)"
  by (auto simp: record_with_outcome_def Let_def)

lemma record_with_outcome_error:
  "record_with_outcome cf w rq d s = (Inl e, s') \<Longrightarrow> s' = s"
  by (auto simp: record_with_outcome_def Let_def append_audit_def split: option.splits sum.splits prod.splits)

text \<open>The answer to the caller is the one signed outcome.\<close>

lemma record_with_outcome_signed:
  "record_with_outcome cf w rq d s = (Inr sm, s') \<Longrightarrow> sm = signed_or_not cf w rq d"
  by (auto simp: record_with_outcome_def Let_def split: option.splits sum.splits prod.splits)

lemma record_intent_frame: "record_intent cf w rq m u r t a k s = (h, s') \<Longrightarrow> evidence_only s s'"
  by (auto simp: record_intent_def Let_def split: option.splits sum.splits prod.splits
      intro: evidence_only_trans [OF chain_update_frame emit_line_frame(1)])

lemma record_intent_entry:
  assumes "record_intent cf w rq m u r t a k s = (h, s')" "gw_chain s = Some ch"
  shows "h = None \<and> gw_chain s' = Some ch \<or>
    (\<exists>e. gw_chain s' = Some (ch @ [e]) \<and> h = Some (ae_chain_hash e) \<and> ae_entry_kind e = ''intent'' \<and>
       ae_msg_id e = JStr m \<and> ae_tool_name e = Some t \<and> ae_actuator_name e = Some a \<and>
       ae_caller e = rq_caller rq \<and> ae_tier e = Some (rq_tier rq) \<and>
       ae_actuator_outcome_kind e = None \<and> next_entry (cf_crypto cf) ch e)"
proof -
  obtain x ch' where x: "append_audit (cf_crypto cf) (intent_entry w rq m k t a) ch = (x, ch')"
    by (meson surj_pair)
  show ?thesis
  proof (cases x)
    case (Inl e)
    with x have "ch' = ch" using append_audit_refused by blast
    with assms x Inl show ?thesis
      by (auto simp: record_intent_def Let_def split: option.splits sum.splits prod.splits)
  next
    case (Inr stored)
    have "h = Some (ae_chain_hash stored)" "gw_chain s' = Some ch'"
      using assms x Inr by (auto simp: record_intent_def Let_def split: option.splits sum.splits prod.splits)
    moreover have "ch' = ch @ [stored] \<and> ae_entry_kind stored = ''intent'' \<and> ae_msg_id stored = JStr m \<and>
        ae_tool_name stored = Some t \<and> ae_actuator_name stored = Some a \<and> ae_caller stored = rq_caller rq \<and>
        ae_tier stored = Some (rq_tier rq) \<and> ae_actuator_outcome_kind stored = None \<and>
        next_entry (cf_crypto cf) ch stored"
      by (rule append_audit_stored [OF x [unfolded Inr]]) (simp add: intent_entry_def AuditEntry_def next_entry_def)
    ultimately show ?thesis by blast
  qed
qed

section \<open>Properties\<close>

text \<open>C11. A signed receipt is honest and verifies: the receipt built for a decision is accepted by envelope
  verification under the gateway's own key; its status is the decision's, its caller and tier are the
  request's, and the receipt of a refusal names the refusing gate as its error kind.\<close>

theorem receipt_verifies:
  assumes "build_signed_outcome cf w rq d = Inr (Some receipt, marker)" "cf_identity cf = Some idn"
    and "signs_for (cf_crypto cf) (id_priv idn) pub" "strips (cf_crypto cf)"
    and "load_pem_public_key (cf_crypto cf) pem = PemKey (Ed25519PublicKey pub)"
    and "resolve (JStr (id_kid idn)) rs = (Inr (Some pem), rs')"
  shows "(\<exists>v r' q. verify_envelope (cf_crypto cf) resolve receipt r rs = (Inr v, r', q) \<and> env_accepted v) \<and>
    get receipt ''status'' = JStr (outcome_status (rc_decision d) (map_option success (rc_outcome d)) (rc_error_kind d)) \<and>
    get receipt ''corr_id'' = rc_msg_id d \<and> get receipt ''caller'' = rq_caller rq \<and>
    get receipt ''tier'' = JStr (rq_tier rq) \<and> marker = ''attested'' \<and>
    (rc_decision d = ''deny'' \<longrightarrow> get receipt ''error'' =
       JObj [(''kind'', JStr (deny_kind (rc_reason d))), (''message'', JStr (rc_reason d))])"
proof -
  let ?st = "outcome_status (rc_decision d) (map_option success (rc_outcome d)) (rc_error_kind d)"
  obtain error sha started ended dur where b: "outcome_error d ?st = Inr error"
      "sign_envelope (cf_crypto cf) (id_priv idn) (build_outcome (rc_msg_id d) (py_or (rc_rrn d) (JStr [])) ?st
         started ended dur sha error None (rq_caller rq) (Some (rq_tier rq))) (id_kid idn) = Inr receipt"
      "marker = ''attested''"
    using assms(1,2) by (auto simp: build_signed_outcome_def Let_def bindE_Inr_iff)
  let ?body = "build_outcome (rc_msg_id d) (py_or (rc_rrn d) (JStr [])) ?st
         started ended dur sha error None (rq_caller rq) (Some (rq_tier rq))"
  have plain_body: "without ''envelope_signature'' ?body = ?body"
    by (auto simp: build_outcome_def split: option.split)
  obtain sig where sig: "get receipt ''envelope_signature'' = JObj sig" "get sig ''kid'' = JStr (id_kid idn)"
      "envelope_ok (cf_crypto cf) receipt sig pem"
    using signed_envelope_ok [OF assms(3-5) plain_body b(2)] by blast
  have "\<exists>v r' q. verify_envelope (cf_crypto cf) resolve receipt r rs = (Inr v, r', q) \<and> env_accepted v"
    unfolding verify_envelope_accepts using sig assms(6) by auto
  moreover have "\<exists>s. receipt = AList.update ''envelope_signature'' s ?body"
    using b(2) by (auto simp: sign_envelope_def bindE_eq_iff)
  moreover have "rc_decision d = ''deny'' \<Longrightarrow> error =
      Some [(''kind'', JStr (deny_kind (rc_reason d))), (''message'', JStr (rc_reason d))]"
    using b(1) by (simp add: outcome_error_def outcome_status_def)
  ultimately show ?thesis
    using b(3) by (auto simp: build_outcome_def split: option.split)
qed

definition receipt_config :: gateway_config where
  "receipt_config = undefined\<lparr>cf_crypto := demo_crypto\<lparr>canonical_json := \<lambda>_ _. Inr []\<rparr>,
     cf_identity := Some \<lparr>id_priv = ''P'', id_kid = ''G'', id_ran = None\<rparr>\<rparr>"

definition receipt_refusal :: decision_record where
  "receipt_refusal = refusal ''tier_policy: no'' JNull (JStr ''m'') (JStr ''u'') (JStr [])"

definition receipt_request :: request where
  "receipt_request = \<lparr>rq_envelope = [], rq_tier = ''read'', rq_caller = JStr ''craig''\<rparr>"

theorem receipt_verifies_witness:
  "\<exists>w receipt. get receipt ''status'' = JStr ''denied'' \<and> get receipt ''error'' =
     JObj [(''kind'', JStr (deny_kind ''tier_policy: no'')), (''message'', JStr ''tier_policy: no'')] \<and>
     (\<exists>v r' q. verify_envelope (cf_crypto receipt_config) (\<lambda>k rs. (Inr (Some ''P''), rs)) receipt
        (initial_report (\<lambda>_. [])) () = (Inr v, r', q) \<and> env_accepted v)"
proof -
  have laws: "signs_for (cf_crypto receipt_config) ''P'' ''P''" "strips (cf_crypto receipt_config)"
    "load_pem_public_key (cf_crypto receipt_config) ''P'' = PemKey (Ed25519PublicKey ''P'')"
    by (simp_all add: receipt_config_def demo_crypto_def signs_for_def strips_def)
  have idn: "cf_identity receipt_config = Some \<lparr>id_priv = ''P'', id_kid = ''G'', id_ran = None\<rparr>"
    by (simp add: receipt_config_def)
  obtain w :: world where True by blast
  obtain receipt where r: "build_signed_outcome receipt_config w receipt_request receipt_refusal = Inr (Some receipt, ''attested'')"
    by (simp add: build_signed_outcome_def idn Let_def outcome_error_def outcome_status_def receipt_refusal_def refusal_def
        telemetry_sha256_of_def sign_envelope_def bindE_def) (simp add: receipt_config_def)
  from receipt_verifies [OF r idn _ laws(2,3), of "\<lambda>k rs. (Inr (Some ''P''), rs)" "()" "()" "initial_report (\<lambda>_. [])"]
  show ?thesis using laws(1) by (auto simp: receipt_refusal_def refusal_def outcome_status_def)
qed

end
