(* ===== verification/Receiver_Gates.thy ===== *)
theory Receiver_Gates
  imports Receiver_Records
begin

text \<open>
  \<open>receiver.py\<close>, the gate half of \<open>_invoke\<close>: one stage per check, in the order of the source, from the
  safety state to the human-in-the-loop gate. A stage passes a value on or stops the request with a
  reply; \<open>bindS\<close> sequences them. \<open>guarded\<close> is what every stage owes: passing leaves the evidence
  alone, stopping dispatches nothing and a refusal writes exactly one deny entry.
\<close>

datatype reply = Answer dict | Http nat json | Crash exc | Hung

type_synonym ('a, 'rs) stage = "'rs gateway \<Rightarrow> (reply + 'a) \<times> 'rs gateway"

definition bindS :: "('a, 'rs) stage \<Rightarrow> ('a \<Rightarrow> ('b, 'rs) stage) \<Rightarrow> ('b, 'rs) stage" where
  "bindS m f s = (case m s of (Inl rep, t) \<Rightarrow> (Inl rep, t) | (Inr x, t) \<Rightarrow> f x t)"

definition go_on :: "'a \<Rightarrow> ('a, 'rs) stage" where
  "go_on x s = (Inr x, s)"

definition stop_with :: "reply \<Rightarrow> ('a, 'rs) stage" where
  "stop_with rep s = (Inl rep, s)"

text \<open>A value that may raise.\<close>

definition lift_exc :: "exc + 'a \<Rightarrow> ('a, 'rs) stage" where
  "lift_exc x s = (case x of Inl e \<Rightarrow> (Inl (Crash e), s) | Inr v \<Rightarrow> (Inr v, s))"

section \<open>Refusing\<close>

text \<open>\<open>_record\<close>, \<open>_attach_signature\<close>, \<open>raise HTTPException(403)\<close>.\<close>

definition deny :: "gateway_config \<Rightarrow> world \<Rightarrow> request \<Rightarrow> decision_record \<Rightarrow> dict \<Rightarrow> ('a, 'rs) stage" where
  "deny cf w rq d detail s =
     (case record_with_outcome cf w rq d s of
        (Inl e, t) \<Rightarrow> (Inl (Crash e), t)
      | (Inr sm, t) \<Rightarrow> (Inl (Http 403 (JObj (attach_signature detail sm))), t))"

record deny_context =
  dc_kid :: json
  dc_msg_id :: json
  dc_ruri :: json
  dc_rrn :: json

definition deny_gate :: "gateway_config \<Rightarrow> world \<Rightarrow> request \<Rightarrow> deny_context \<Rightarrow> string \<Rightarrow> string
    \<Rightarrow> ('a, 'rs) stage" where
  "deny_gate cf w rq dc gate why =
     deny cf w rq (refusal (gate @ '': '' @ why) (dc_kid dc) (dc_msg_id dc) (dc_ruri dc) (dc_rrn dc))
       [(''deny'', JStr gate), (''reason'', JStr why)]"

text \<open>A gate of \<open>cert/\<close>, run on the report, and the refusal it leads to.\<close>

definition run_gate :: "gateway_config \<Rightarrow> world \<Rightarrow> request \<Rightarrow> deny_context \<Rightarrow> string
    \<Rightarrow> (cert_report \<Rightarrow> gate_answer) \<Rightarrow> (unit, 'rs) stage" where
  "run_gate cf w rq dc gate check s =
     (case check (gw_report s) of
        (Inl e, r) \<Rightarrow> (Inl (Crash e), s\<lparr>gw_report := r\<rparr>)
      | (Inr (True, _), r) \<Rightarrow> (Inr (), s\<lparr>gw_report := r\<rparr>)
      | (Inr (False, why), r) \<Rightarrow> deny_gate cf w rq dc gate why (s\<lparr>gw_report := r\<rparr>))"

text \<open>Before the schema check a refusal names what the raw envelope says.\<close>

definition raw_context :: "request \<Rightarrow> json \<Rightarrow> deny_context" where
  "raw_context rq kid = \<lparr>dc_kid = kid, dc_msg_id = get_def (rq_envelope rq) ''msg_id'' (JStr ''<unknown>''),
     dc_ruri = get (rq_envelope rq) ''ruri'', dc_rrn = JStr []\<rparr>"

section \<open>The stages\<close>

definition safety_stage :: "gateway_config \<Rightarrow> world \<Rightarrow> request \<Rightarrow> (unit, 'rs) stage" where
  "safety_stage cf w rq s =
     (case gw_monitor s of None \<Rightarrow> (Inr (), s)
      | Some m \<Rightarrow>
         (let (m', r') = tick (w_mono_tick w) m (gw_report s);
              t = s\<lparr>gw_monitor := Some m', gw_report := r'\<rparr> in
          if can_actuate m' then (Inr (), t)
          else deny_gate cf w rq (raw_context rq JNull) ''safety_state''
                 (''gateway state='' @ state_value (mon_state m')) t))"

definition signature_stage :: "gateway_config \<Rightarrow> world \<Rightarrow> 'rs resolver \<Rightarrow> request \<Rightarrow> (json, 'rs) stage" where
  "signature_stage cf w resolve rq s =
     (let (res, r', rs') = verify_envelope (cf_crypto cf) resolve (rq_envelope rq) (gw_report s) (gw_resolver s);
          t = s\<lparr>gw_report := r', gw_resolver := rs'\<rparr> in
      case res of
        Inl e \<Rightarrow> (Inl (Crash e), t)
      | Inr v \<Rightarrow> if env_accepted v then (Inr (env_kid v), t)
          else deny_gate cf w rq (raw_context rq (env_kid v)) ''envelope_signature'' (env_reason v) t)"

definition replay_stage :: "gateway_config \<Rightarrow> world \<Rightarrow> request \<Rightarrow> json \<Rightarrow> (unit, 'rs) stage" where
  "replay_stage cf w rq kid s =
     (let (answer, c') = check_replay (rq_envelope rq) (gw_report s) (gw_replay s) in
      run_gate cf w rq (raw_context rq kid) ''replay'' (\<lambda>r. answer) (s\<lparr>gw_replay := c'\<rparr>))"

definition revocation_stage :: "gateway_config \<Rightarrow> world \<Rightarrow> request \<Rightarrow> json \<Rightarrow> (unit, 'rs) stage" where
  "revocation_stage cf w rq kid s =
     (if \<not> cf_check_revocation cf \<or> \<not> truthy kid then (Inr (), s)
      else let (res, c', r') = is_revoked kid (w_mono_revocation w) (w_revoked w kid) (gw_revocation s) (gw_report s);
               t = s\<lparr>gw_revocation := c', gw_report := r'\<rparr>;
               dc = raw_context rq kid in
        case res of
          Inl e \<Rightarrow> (Inl (Crash e), t)
        | Inr False \<Rightarrow> (Inr (), t)
        | Inr True \<Rightarrow> deny cf w rq
            (refusal (''revoked_key: kid='' @ py_str kid) kid (dc_msg_id dc) (dc_ruri dc) (dc_rrn dc))
            [(''deny'', JStr ''revoked_key''), (''reason'', JStr (''kid '' @ py_str kid @ '' is revoked''))] t)"

text \<open>The block under \<open>if require_envelope_signature\<close>.\<close>

definition envelope_stage :: "gateway_config \<Rightarrow> world \<Rightarrow> 'rs resolver \<Rightarrow> request \<Rightarrow> (unit, 'rs) stage" where
  "envelope_stage cf w resolve rq =
     (if \<not> cf_require_signature cf then go_on ()
      else bindS (signature_stage cf w resolve rq) (\<lambda>kid.
           bindS (run_gate cf w rq (raw_context rq kid) ''envelope_freshness''
             (check_freshness (rq_envelope rq) (cf_freshness cf) (w_ms_freshness w))) (\<lambda>_.
           bindS (replay_stage cf w rq kid) (\<lambda>_. revocation_stage cf w rq kid))))"

text \<open>The pydantic model: the declared str fields must be strings, \<open>tool_args\<close> a dict when present,
  \<open>actuator_name\<close> a string or null; other keys are ignored.\<close>

record invoke_envelope =
  ie_msg_id :: string
  ie_ruri :: string
  ie_scope :: string
  ie_tool_name :: string
  ie_manifest_path :: string
  ie_actuator_name :: "string option"

definition parse_envelope :: "dict \<Rightarrow> invoke_envelope option" where
  "parse_envelope env =
     (if (case map_of env ''tool_args'' of None \<Rightarrow> True | Some (JObj _) \<Rightarrow> True | _ \<Rightarrow> False)
         \<and> (get env ''actuator_name'' = JNull \<or> is_str (get env ''actuator_name''))
         \<and> is_str (get env ''type'') then
        (case (get env ''msg_id'', get env ''ruri'', get env ''scope'', get env ''tool_name'',
               get env ''manifest_path'') of
           (JStr m, JStr u, JStr s, JStr t, JStr p) \<Rightarrow>
             Some \<lparr>ie_msg_id = m, ie_ruri = u, ie_scope = s, ie_tool_name = t, ie_manifest_path = p,
               ie_actuator_name = str_or_none (get env ''actuator_name'')\<rparr>
         | _ \<Rightarrow> None)
      else None)"

definition schema_stage :: "gateway_config \<Rightarrow> request \<Rightarrow> (invoke_envelope, 'rs) stage" where
  "schema_stage cf rq =
     (case parse_envelope (rq_envelope rq) of
        None \<Rightarrow> stop_with (Http 422 (cf_schema_errors cf (rq_envelope rq)))
      | Some ie \<Rightarrow> go_on ie)"

definition parsed_context :: "invoke_envelope \<Rightarrow> json \<Rightarrow> json \<Rightarrow> deny_context" where
  "parsed_context ie kid rrn = \<lparr>dc_kid = kid, dc_msg_id = JStr (ie_msg_id ie), dc_ruri = JStr (ie_ruri ie),
     dc_rrn = rrn\<rparr>"

definition pin_stage :: "gateway_config \<Rightarrow> world \<Rightarrow> request \<Rightarrow> invoke_envelope \<Rightarrow> (unit, 'rs) stage" where
  "pin_stage cf w rq ie =
     (case cf_pin cf of None \<Rightarrow> go_on ()
      | Some pin \<Rightarrow>
         bindS (lift_exc (w_realpath w (ie_manifest_path ie))) (\<lambda>a.
         bindS (lift_exc (w_realpath w pin)) (\<lambda>b.
         if a \<noteq> b then
           deny_gate cf w rq (parsed_context ie JNull (JStr [])) ''manifest_pin''
             (''envelope names '' @ ie_manifest_path ie @ ''; this gateway enforces '' @ pin)
         else go_on ())))"

definition manifest_stage :: "gateway_config \<Rightarrow> world \<Rightarrow> 'rs resolver \<Rightarrow> request \<Rightarrow> invoke_envelope
    \<Rightarrow> (json, 'rs) stage" where
  "manifest_stage cf w resolve rq ie s =
     (let (res, rs') = verify_manifest (cf_crypto cf) resolve (w_read w 0 (ie_manifest_path ie)) (gw_resolver s);
          t = s\<lparr>gw_resolver := rs'\<rparr> in
      case res of
        Inl e \<Rightarrow> (Inl (Crash e), t)
      | Inr v \<Rightarrow>
          if \<not> mf_accepted v then
            deny cf w rq
              (refusal (''manifest_provenance: '' @ mf_reason v) (JOpt (mf_kid v)) (JStr (ie_msg_id ie))
                 (JStr (ie_ruri ie)) (JStr []))
              [(''deny'', JStr ''manifest_provenance''), (''reason'', JStr (mf_reason v)),
               (''kid'', JOpt (mf_kid v))]
              (t\<lparr>gw_report := record_property_fail ''MF-002''
                 [(''manifest_path'', JStr (ie_manifest_path ie)), (''reason'', JStr (mf_reason v)),
                  (''msg_id'', JStr (ie_msg_id ie))] (gw_report t)\<rparr>)
          else (Inr (JOpt (mf_kid v)), t\<lparr>gw_report := record_property_pass ''MF-001''
                 [(''manifest_kid'', JOpt (mf_kid v)), (''manifest_path'', JStr (ie_manifest_path ie)),
                  (''msg_id'', JStr (ie_msg_id ie))] (gw_report t)\<rparr>))"

text \<open>\<open>_manifest_frontmatter\<close>, the \<open>n\<close>-th reading of the request: cached by path and mtime; an
  unreadable file or YAML is \<open>{}\<close>, any other exception propagates uncached.\<close>

fun yaml_or_empty :: "exc + json \<Rightarrow> exc + json" where
  "yaml_or_empty (Inr v) = Inr (py_or v (JObj []))"
| "yaml_or_empty (Inl (OSError _)) = Inr (JObj [])"
| "yaml_or_empty (Inl (OtherError c m)) = (if c = ''YAMLError'' then Inr (JObj []) else Inl (OtherError c m))"
| "yaml_or_empty (Inl e) = Inl e"

definition fresh_frontmatter :: "gateway_config \<Rightarrow> world \<Rightarrow> nat \<Rightarrow> string \<Rightarrow> exc + json" where
  "fresh_frontmatter cf w n path =
     (case w_read w n path of
        Inl e \<Rightarrow> if is_os_error e then Inr (JObj []) else Inl e
      | Inr text \<Rightarrow> (case frontmatter_text text of None \<Rightarrow> Inr (JObj []) | Some y \<Rightarrow> yaml_or_empty (cf_yaml cf y)))"

definition manifest_frontmatter :: "gateway_config \<Rightarrow> world \<Rightarrow> nat \<Rightarrow> string \<Rightarrow> (json, 'rs) stage" where
  "manifest_frontmatter cf w n path s =
     (case w_mtime w n path of
        None \<Rightarrow> (Inr (JObj []), s)
      | Some mtime \<Rightarrow>
         (case map_of (gw_frontmatter s) path of
            Some (t, fm) \<Rightarrow> if t = mtime then (Inr fm, s)
              else bindS (lift_exc (fresh_frontmatter cf w n path)) (\<lambda>fm s.
                (Inr fm, s\<lparr>gw_frontmatter := AList.update path (mtime, fm) (gw_frontmatter s)\<rparr>)) s
          | None \<Rightarrow> bindS (lift_exc (fresh_frontmatter cf w n path)) (\<lambda>fm s.
              (Inr fm, s\<lparr>gw_frontmatter := AList.update path (mtime, fm) (gw_frontmatter s)\<rparr>)) s))"

definition rrn_stage :: "gateway_config \<Rightarrow> world \<Rightarrow> request \<Rightarrow> invoke_envelope \<Rightarrow> json \<Rightarrow> (json, 'rs) stage" where
  "rrn_stage cf w rq ie kid =
     bindS (manifest_frontmatter cf w 1 (ie_manifest_path ie)) (\<lambda>fm.
     bindS (lift_exc (manifest_rrn_of fm)) (\<lambda>found.
     let rrn = py_or found (JStr []) in
     if \<not> cf_require_rrn cf then go_on rrn
     else bindS (run_gate cf w rq (parsed_context ie kid rrn) ''rrn_binding'' (\<lambda>r.
            let (v, r') = verify_rrn_binding (Some (ie_ruri ie)) rrn (ie_msg_id ie) r in
            (Inr (rrn_accepted v, rrn_reason v), r'))) (\<lambda>_. go_on rrn)))"

text \<open>Every tool that any configured actuator declares as motion, or as a stop.\<close>

definition fleet_actuators :: "fleet \<Rightarrow> actuator list" where
  "fleet_actuators f = (case f of Single a c \<Rightarrow> [a] | Multi as cs \<Rightarrow> map snd as)"

definition motion_tools :: "gateway_config \<Rightarrow> string list" where
  "motion_tools cf = concat (map (as_tool_set \<circ> motion_capabilities) (fleet_actuators (cf_fleet cf)))"

definition stop_tools :: "gateway_config \<Rightarrow> string list" where
  "stop_tools cf = concat (map (as_tool_set \<circ> stop_capabilities) (fleet_actuators (cf_fleet cf)))"

definition is_motion :: "gateway_config \<Rightarrow> invoke_envelope \<Rightarrow> bool" where
  "is_motion cf ie = (ie_tool_name ie \<in> set (motion_tools cf))"

definition policy_stage :: "gateway_config \<Rightarrow> world \<Rightarrow> request \<Rightarrow> invoke_envelope \<Rightarrow> json \<Rightarrow> json
    \<Rightarrow> (unit, 'rs) stage" where
  "policy_stage cf w rq ie kid rrn =
     (let dc = parsed_context ie kid rrn; gate = run_gate cf w rq dc in
      bindS (gate ''tier_policy'' (check_tier (rq_tier rq) (JStr (ie_scope ie)) (JStr (ie_msg_id ie)))) (\<lambda>_.
      bindS (gate ''tool_allowlist'' (check_tool (ie_tool_name ie) (cf_allowlist cf) (JStr (ie_msg_id ie)))) (\<lambda>_.
      bindS (gate ''tool_tier'' (check_tool_tier (ie_tool_name ie) (rq_tier rq) (cf_tool_tiers cf))) (\<lambda>_.
      gate ''tool_scope'' (check_tool_scope (ie_tool_name ie) (JStr (ie_scope ie)) (motion_tools cf))))))"

definition confidence_stage :: "gateway_config \<Rightarrow> world \<Rightarrow> request \<Rightarrow> invoke_envelope \<Rightarrow> json \<Rightarrow> json
    \<Rightarrow> (unit, 'rs) stage" where
  "confidence_stage cf w rq ie kid rrn =
     (case cf_confidence cf of None \<Rightarrow> go_on ()
      | Some p \<Rightarrow> run_gate cf w rq (parsed_context ie kid rrn) ''confidence_threshold''
          (check_confidence (rq_envelope rq) p (is_motion cf ie)))"

text \<open>\<open>(fm.get("safety") or {}).get("hitl_gates")\<close>, then the policy it declares.\<close>

definition hitl_of_manifest :: "json \<Rightarrow> exc + hitl_policy" where
  "hitl_of_manifest fm =
     bindE (py_get fm ''safety'') (\<lambda>s. bindE (py_get (py_or s (JObj [])) ''hitl_gates'') from_manifest_gates)"

definition effective_hitl :: "gateway_config \<Rightarrow> world \<Rightarrow> invoke_envelope \<Rightarrow> (hitl_policy option, 'rs) stage" where
  "effective_hitl cf w ie =
     (if cf_hitl_from_manifest cf then
        bindS (manifest_frontmatter cf w 2 (ie_manifest_path ie)) (\<lambda>fm.
        bindS (lift_exc (hitl_of_manifest fm)) (\<lambda>p. go_on (Some p)))
      else go_on (cf_hitl cf))"

definition hitl_stage :: "gateway_config \<Rightarrow> world \<Rightarrow> request \<Rightarrow> invoke_envelope \<Rightarrow> json \<Rightarrow> json
    \<Rightarrow> (unit, 'rs) stage" where
  "hitl_stage cf w rq ie kid rrn =
     bindS (effective_hitl cf w ie) (\<lambda>policy.
     case policy of None \<Rightarrow> go_on ()
     | Some p \<Rightarrow> run_gate cf w rq (parsed_context ie kid rrn) ''hitl_required''
         (check_hitl (rq_envelope rq) p (is_motion cf ie)))"

text \<open>All of them. What passes is the parsed envelope, the manifest's kid and its RRN.\<close>

definition gates :: "gateway_config \<Rightarrow> world \<Rightarrow> 'rs resolver \<Rightarrow> request
    \<Rightarrow> (invoke_envelope \<times> json \<times> json, 'rs) stage" where
  "gates cf w resolve rq =
     bindS (safety_stage cf w rq) (\<lambda>_.
     bindS (envelope_stage cf w resolve rq) (\<lambda>_.
     bindS (schema_stage cf rq) (\<lambda>ie.
     bindS (pin_stage cf w rq ie) (\<lambda>_.
     bindS (manifest_stage cf w resolve rq ie) (\<lambda>kid.
     bindS (rrn_stage cf w rq ie kid) (\<lambda>rrn.
     bindS (policy_stage cf w rq ie kid rrn) (\<lambda>_.
     bindS (confidence_stage cf w rq ie kid rrn) (\<lambda>_.
     bindS (hitl_stage cf w rq ie kid rrn) (\<lambda>_. go_on (ie, kid, rrn))))))))))"

section \<open>What every stage owes\<close>

text \<open>A pass leaves the chain, the trace and the actuators alone.\<close>

definition untouched :: "'rs gateway \<Rightarrow> 'rs gateway \<Rightarrow> bool" where
  "untouched s s' \<longleftrightarrow> gw_chain s' = gw_chain s \<and> gw_trace s' = gw_trace s \<and>
     gw_dispatched s' = gw_dispatched s"

text \<open>A refusal: the reply names the gate, carries the signed outcome of the same decision, and the
  chain, when there is one, has exactly one entry more, a deny of that decision.\<close>

definition one_entry :: "crypto \<Rightarrow> request \<Rightarrow> decision_record \<Rightarrow> audit_chain option \<Rightarrow> audit_chain option \<Rightarrow> bool" where
  "one_entry C rq d ch ch' \<longleftrightarrow>
     (case ch of None \<Rightarrow> ch' = None
      | Some es \<Rightarrow> (\<exists>e. ch' = Some (es @ [e]) \<and> entry_matches rq d e \<and> next_entry C es e))"

definition refused :: "gateway_config \<Rightarrow> world \<Rightarrow> request \<Rightarrow> 'rs gateway \<Rightarrow> 'rs gateway \<Rightarrow> json \<Rightarrow> bool" where
  "refused cf w rq s s' detail \<longleftrightarrow>
     (\<exists>d body gate. detail = JObj (attach_signature body (signed_or_not cf w rq d)) \<and>
        get body ''deny'' = JStr gate \<and> deny_kind (rc_reason d) = gate \<and> rc_decision d = ''deny'' \<and>
        rc_outcome d = None \<and> rc_intent_hash d = None \<and> one_entry (cf_crypto cf) rq d (gw_chain s) (gw_chain s'))"

definition stops :: "gateway_config \<Rightarrow> world \<Rightarrow> request \<Rightarrow> 'rs gateway \<Rightarrow> 'rs gateway \<Rightarrow> reply \<Rightarrow> bool" where
  "stops cf w rq s s' rep \<longleftrightarrow> gw_dispatched s' = gw_dispatched s \<and>
     (case rep of Answer d \<Rightarrow> False | Hung \<Rightarrow> False
      | Crash e \<Rightarrow> untouched s s'
      | Http code detail \<Rightarrow> code = 422 \<and> untouched s s' \<or> code = 403 \<and> refused cf w rq s s' detail)"

definition guarded :: "gateway_config \<Rightarrow> world \<Rightarrow> request \<Rightarrow> ('a, 'rs) stage \<Rightarrow> bool" where
  "guarded cf w rq m \<longleftrightarrow> (\<forall>s. case m s of (Inr x, s') \<Rightarrow> untouched s s' | (Inl rep, s') \<Rightarrow> stops cf w rq s s' rep)"

named_theorems guards

lemma untouched_refl [simp]: "untouched s s"
  by (simp add: untouched_def)

lemma untouched_trans: "untouched s t \<Longrightarrow> untouched t u \<Longrightarrow> untouched s u"
  by (simp add: untouched_def)

lemma untouched_updates [simp]:
  "untouched s (s\<lparr>gw_report := r\<rparr>) " "untouched s (s\<lparr>gw_replay := c\<rparr>)"
  "untouched s (s\<lparr>gw_resolver := rs\<rparr>)" "untouched s (s\<lparr>gw_frontmatter := f\<rparr>)"
  "untouched s (s\<lparr>gw_report := r, gw_resolver := rs\<rparr>)" "untouched s (s\<lparr>gw_revocation := v, gw_report := r\<rparr>)"
  "untouched s (s\<lparr>gw_monitor := m, gw_report := r\<rparr>)" "untouched s (s\<lparr>gw_resolver := rs, gw_report := r\<rparr>)"
  by (simp_all add: untouched_def)

lemma stops_after: "untouched s t \<Longrightarrow> stops cf w rq t s' rep \<Longrightarrow> stops cf w rq s s' rep"
  by (auto simp: stops_def untouched_def refused_def split: reply.splits)

lemma guardedI:
  "(\<And>s x s'. m s = (Inr x, s') \<Longrightarrow> untouched s s') \<Longrightarrow>
   (\<And>s rep s'. m s = (Inl rep, s') \<Longrightarrow> stops cf w rq s s' rep) \<Longrightarrow> guarded cf w rq m"
  unfolding guarded_def by (auto split: prod.splits sum.splits)

lemma guarded_passes: "guarded cf w rq m \<Longrightarrow> m s = (Inr x, s') \<Longrightarrow> untouched s s'"
  and guarded_stops: "guarded cf w rq m \<Longrightarrow> m s = (Inl rep, s') \<Longrightarrow> stops cf w rq s s' rep"
  unfolding guarded_def by (metis (mono_tags, lifting) case_prod_conv old.sum.simps)+

lemma bindS_Inr: "bindS m f s = (Inr y, u) \<longleftrightarrow> (\<exists>x t. m s = (Inr x, t) \<and> f x t = (Inr y, u))"
  by (auto simp: bindS_def split: prod.splits sum.splits)

lemma bindS_Inl:
  "bindS m f s = (Inl rep, u) \<longleftrightarrow> m s = (Inl rep, u) \<or> (\<exists>x t. m s = (Inr x, t) \<and> f x t = (Inl rep, u))"
  by (auto simp: bindS_def split: prod.splits sum.splits)

lemma guarded_bind [guards]:
  assumes "guarded cf w rq m" "\<And>x. guarded cf w rq (f x)"
  shows "guarded cf w rq (bindS m f)"
proof (rule guardedI)
  fix s x s'
  assume "bindS m f s = (Inr x, s')"
  with assms show "untouched s s'" by (auto simp: bindS_Inr intro: untouched_trans guarded_passes)
next
  fix s rep s'
  assume "bindS m f s = (Inl rep, s')"
  then show "stops cf w rq s s' rep"
    unfolding bindS_Inl by (elim disjE exE conjE) (auto intro: guarded_stops assms stops_after guarded_passes)
qed

lemma guarded_go_on [guards]: "guarded cf w rq (go_on x)"
  by (simp add: guarded_def go_on_def)

lemma guarded_lift [guards]: "guarded cf w rq (lift_exc x)"
  by (cases x) (auto simp: guarded_def lift_exc_def stops_def)

lemma guarded_schema [guards]: "guarded cf w rq (schema_stage cf rq)"
  by (auto simp: guarded_def schema_stage_def stop_with_def go_on_def stops_def split: option.splits)

text \<open>The gate's name is the error kind of the outcome its refusal signs.\<close>

lemma deny_kind_gate:
  assumes "CHR '':'' \<notin> set gate" "gate \<noteq> []" "strip gate = gate"
  shows "deny_kind (gate @ CHR '':'' # why) = gate"
  using assms by (simp add: deny_kind_def hd_split_on split_on_free)

lemma deny_stops:
  assumes "deny cf w rq d body s = (res, s')"
    and "rc_decision d = ''deny''" "rc_outcome d = None" "rc_intent_hash d = None"
    and "get body ''deny'' = JStr (deny_kind (rc_reason d))"
  obtains rep where "res = Inl rep" "stops cf w rq s s' rep"
proof -
  obtain a t where a: "record_with_outcome cf w rq d s = (a, t)" by (meson surj_pair)
  show thesis
  proof (cases a)
    case (Inl e)
    with a have "t = s" using record_with_outcome_error by blast
    with assms(1) a Inl that [of "Crash e"] show thesis by (simp add: deny_def stops_def)
  next
    case (Inr sm)
    have frame: "evidence_only s t" using record_with_outcome_frame [OF a] .
    have sm: "sm = signed_or_not cf w rq d" using record_with_outcome_signed a Inr by blast
    have "one_entry (cf_crypto cf) rq d (gw_chain s) (gw_chain t)"
      using a Inr record_with_outcome_entry [of cf w rq d s sm t] record_with_outcome_unaudited [of s cf w rq d a t]
      by (auto simp: one_entry_def split: option.splits)
    then have "refused cf w rq s t (JObj (attach_signature body sm))"
      unfolding refused_def sm using assms by blast
    with assms(1) a Inr frame that [of "Http 403 (JObj (attach_signature body sm))"] show thesis
      by (simp add: deny_def stops_def evidence_only_fields)
  qed
qed

text \<open>The gate names of the receiver.\<close>

definition gate_names :: "string list" where
  "gate_names = [''safety_state'', ''envelope_signature'', ''envelope_freshness'', ''replay'', ''revoked_key'',
     ''manifest_pin'', ''manifest_provenance'', ''rrn_binding'', ''tier_policy'', ''tool_allowlist'',
     ''tool_tier'', ''tool_scope'', ''confidence_threshold'', ''hitl_required'']"

lemma gate_names_ok:
  "list_all (\<lambda>gate. CHR '':'' \<notin> set gate \<and> gate \<noteq> [] \<and> strip gate = gate) gate_names"
  by (simp add: gate_names_def strip_def rstrip_def lstrip_def py_isspace_def)

lemma deny_kind_named: "gate \<in> set gate_names \<Longrightarrow> deny_kind (gate @ CHR '':'' # why) = gate"
  using gate_names_ok by (auto simp: list_all_iff intro: deny_kind_gate)

lemma guarded_deny [guards]:
  assumes "rc_decision d = ''deny''" "rc_outcome d = None" "rc_intent_hash d = None"
    and "get body ''deny'' = JStr (deny_kind (rc_reason d))"
  shows "guarded cf w rq (deny cf w rq d body)"
  unfolding guarded_def by (auto split: prod.splits sum.splits elim!: deny_stops [OF _ assms])

lemma guarded_deny_gate [guards]:
  assumes "gate \<in> set gate_names"
  shows "guarded cf w rq (deny_gate cf w rq dc gate why)"
  unfolding deny_gate_def
  by (rule guarded_deny) (simp_all add: refusal_def deny_kind_named [OF assms])

text \<open>A stage that updates fields the evidence does not depend on, and then acts guarded.\<close>

lemma guarded_step:
  assumes "guarded cf w rq m" "untouched s t"
  shows "case m t of (Inr x, s') \<Rightarrow> untouched s s' | (Inl rep, s') \<Rightarrow> stops cf w rq s s' rep"
proof -
  obtain a u where a: "m t = (a, u)" by (meson surj_pair)
  show ?thesis
  proof (cases a)
    case (Inl rep)
    with a guarded_stops [OF assms(1)] stops_after [OF assms(2)] show ?thesis by simp
  next
    case (Inr x)
    with a guarded_passes [OF assms(1)] untouched_trans [OF assms(2)] show ?thesis by simp
  qed
qed

lemma crash_stops [simp]: "stops cf w rq s t (Crash e) \<longleftrightarrow> untouched s t"
  by (auto simp: stops_def untouched_def)

lemma guarded_run_gate [guards]:
  assumes "gate \<in> set gate_names"
  shows "guarded cf w rq (run_gate cf w rq dc gate check :: (unit, 'rs) stage)"
  unfolding guarded_def
proof
  fix s :: "'rs gateway"
  obtain a r where a: "check (gw_report s) = (a, r)" by (meson surj_pair)
  show "case run_gate cf w rq dc gate check s of (Inr x, s') \<Rightarrow> untouched s s'
      | (Inl rep, s') \<Rightarrow> stops cf w rq s s' rep"
  proof (cases a)
    case (Inr v)
    obtain ok why where "v = (ok, why)" by (cases v)
    with a Inr show ?thesis
      using guarded_step [OF guarded_deny_gate [OF assms, where 'b = unit], of s "s\<lparr>gw_report := r\<rparr>"]
      by (cases ok) (simp_all add: run_gate_def)
  qed (use a in \<open>simp add: run_gate_def\<close>)
qed

lemma guarded_safety [guards]: "guarded cf w rq (safety_stage cf w rq :: (unit, 'rs) stage)"
  unfolding guarded_def
proof
  fix s :: "'rs gateway"
  show "case safety_stage cf w rq s of (Inr x, s') \<Rightarrow> untouched s s' | (Inl rep, s') \<Rightarrow> stops cf w rq s s' rep"
  proof (cases "gw_monitor s")
    case (Some m)
    obtain m' r' where t: "tick (w_mono_tick w) m (gw_report s) = (m', r')" by (meson surj_pair)
    show ?thesis
      using Some t guarded_step [OF guarded_deny_gate [of "''safety_state''", where 'b = unit], of s
          "s\<lparr>gw_monitor := Some m', gw_report := r'\<rparr>"]
      by (simp add: safety_stage_def Let_def gate_names_def)
  qed (simp add: safety_stage_def)
qed

lemma guarded_signature [guards]: "guarded cf w rq (signature_stage cf w resolve rq :: (json, 'rs) stage)"
  unfolding guarded_def
proof
  fix s :: "'rs gateway"
  obtain res r' rs' where v: "verify_envelope (cf_crypto cf) resolve (rq_envelope rq) (gw_report s)
      (gw_resolver s) = (res, r', rs')" by (metis surj_pair)
  show "case signature_stage cf w resolve rq s of (Inr x, s') \<Rightarrow> untouched s s'
      | (Inl rep, s') \<Rightarrow> stops cf w rq s s' rep"
    using v guarded_step [OF guarded_deny_gate [of "''envelope_signature''", where 'b = json], of s
        "s\<lparr>gw_report := r', gw_resolver := rs'\<rparr>"]
    by (cases res) (simp_all add: signature_stage_def Let_def gate_names_def)
qed

lemma guarded_replay [guards]: "guarded cf w rq (replay_stage cf w rq kid :: (unit, 'rs) stage)"
  unfolding guarded_def
proof
  fix s :: "'rs gateway"
  obtain a c where c: "check_replay (rq_envelope rq) (gw_report s) (gw_replay s) = (a, c)" by (meson surj_pair)
  show "case replay_stage cf w rq kid s of (Inr x, s') \<Rightarrow> untouched s s' | (Inl rep, s') \<Rightarrow> stops cf w rq s s' rep"
    using guarded_step [OF guarded_run_gate [of "''replay''"], of s "s\<lparr>gw_replay := c\<rparr>"]
    by (simp add: replay_stage_def c gate_names_def)
qed

lemma guarded_revocation [guards]: "guarded cf w rq (revocation_stage cf w rq kid :: (unit, 'rs) stage)"
  unfolding guarded_def
proof
  fix s :: "'rs gateway"
  let ?d = "refusal (''revoked_key: kid='' @ py_str kid) kid (dc_msg_id (raw_context rq kid))
    (dc_ruri (raw_context rq kid)) (dc_rrn (raw_context rq kid))"
  let ?b = "[(''deny'', JStr ''revoked_key''), (''reason'', JStr (''kid '' @ py_str kid @ '' is revoked''))]"
  have "deny_kind (''revoked_key: kid='' @ py_str kid) = ''revoked_key''"
    using deny_kind_named [of "''revoked_key''" "'' kid='' @ py_str kid"] by (simp add: gate_names_def)
  then have d: "guarded cf w rq (deny cf w rq ?d ?b :: (unit, 'rs) stage)"
    by (intro guarded_deny) (simp_all add: refusal_def)
  obtain res c' r' where v: "is_revoked kid (w_mono_revocation w) (w_revoked w kid) (gw_revocation s)
      (gw_report s) = (res, c', r')" by (metis surj_pair)
  show "case revocation_stage cf w rq kid s of (Inr x, s') \<Rightarrow> untouched s s'
      | (Inl rep, s') \<Rightarrow> stops cf w rq s s' rep"
    using v guarded_step [OF d, of s "s\<lparr>gw_revocation := c', gw_report := r'\<rparr>"]
    by (cases res) (auto simp: revocation_stage_def Let_def split: bool.splits)
qed

lemma guarded_manifest [guards]: "guarded cf w rq (manifest_stage cf w resolve rq ie :: (json, 'rs) stage)"
  unfolding guarded_def
proof
  fix s :: "'rs gateway"
  obtain res rs' where v: "verify_manifest (cf_crypto cf) resolve (w_read w 0 (ie_manifest_path ie))
      (gw_resolver s) = (res, rs')" by (meson surj_pair)
  show "case manifest_stage cf w resolve rq ie s of (Inr x, s') \<Rightarrow> untouched s s'
      | (Inl rep, s') \<Rightarrow> stops cf w rq s s' rep"
  proof (cases res)
    case (Inr m)
    let ?d = "refusal (''manifest_provenance: '' @ mf_reason m) (JOpt (mf_kid m)) (JStr (ie_msg_id ie))
      (JStr (ie_ruri ie)) (JStr [])"
    let ?b = "[(''deny'', JStr ''manifest_provenance''), (''reason'', JStr (mf_reason m)), (''kid'', JOpt (mf_kid m))]"
    have "deny_kind (''manifest_provenance: '' @ mf_reason m) = ''manifest_provenance''"
      using deny_kind_named [of "''manifest_provenance''" "'' '' @ mf_reason m"] by (simp add: gate_names_def)
    then have d: "guarded cf w rq (deny cf w rq ?d ?b :: (json, 'rs) stage)"
      by (intro guarded_deny) (simp_all add: refusal_def)
    show ?thesis
      using v Inr guarded_step [OF d, of s "s\<lparr>gw_resolver := rs', gw_report := record_property_fail ''MF-002''
          [(''manifest_path'', JStr (ie_manifest_path ie)), (''reason'', JStr (mf_reason m)),
           (''msg_id'', JStr (ie_msg_id ie))] (gw_report s)\<rparr>"]
      by (simp add: manifest_stage_def Let_def)
  qed (use v in \<open>simp add: manifest_stage_def\<close>)
qed

lemma guarded_frontmatter [guards]: "guarded cf w rq (manifest_frontmatter cf w n path)"
  unfolding guarded_def
  by (auto simp: manifest_frontmatter_def lift_exc_def bindS_def split: option.splits prod.splits sum.splits)

lemma guarded_gates: "guarded cf w rq (gates cf w resolve rq)"
  unfolding gates_def envelope_stage_def pin_stage_def rrn_stage_def policy_stage_def confidence_stage_def
    hitl_stage_def effective_hitl_def Let_def
  by (auto intro!: guards simp: gate_names_def split: option.split)

end
