(* ===== verification/Receiver.thy ===== *)
theory Receiver
  imports Receiver_Gates
begin

text \<open>
  \<open>receiver.py\<close>: \<open>make_app\<close>'s configuration, the choice of the actuator, the dispatch between its two
  records, \<open>_invoke\<close> and the routes. The lemmas say what a dispatch implies (every configured gate
  accepted), what a refusal leaves behind, and how the records surround the actuator call.
\<close>

section \<open>Configuration\<close>

text \<open>The keyword arguments of \<open>make_app\<close> that have a default; a bearer entry is its tier and caller.\<close>

record app_args =
  arg_allowlist :: "tool_allowlist option"
  arg_tool_tiers :: "(string \<times> string list) list option"
  arg_bearer_tiers :: "(string \<times> string) list option"
  arg_bearers :: "(string \<times> string \<times> json) list option"
  arg_freshness :: "freshness_policy option"
  arg_actuator :: "actuator option"
  arg_actuator_config :: "dict option"
  arg_actuators :: "(string \<times> actuator) list option"
  arg_actuator_configs :: "(string \<times> dict) list option"

definition DEFAULT_ALLOWLIST :: tool_allowlist where
  "DEFAULT_ALLOWLIST = \<lparr>allowed_tools = [''mcp__robot__render'', ''mcp__robot__validate'']\<rparr>"

definition bearer_index :: "(string \<times> string) list \<Rightarrow> (string \<times> string \<times> json) list
    \<Rightarrow> (string \<times> string \<times> json) list" where
  "bearer_index tiers bearers =
     fold (\<lambda>(token, entry) d. AList.update token entry d) bearers
       (fold (\<lambda>(token, tier) d. AList.update token (tier, JNull) d) tiers [])"

definition fleet_of :: "app_args \<Rightarrow> fleet" where
  "fleet_of a = (case arg_actuators a of
     Some acts \<Rightarrow> Multi acts (case arg_actuator_configs a of None \<Rightarrow> [] | Some c \<Rightarrow> c)
   | None \<Rightarrow> Single (case arg_actuator a of None \<Rightarrow> NoOpActuator | Some x \<Rightarrow> x)
               (case arg_actuator_config a of None \<Rightarrow> [] | Some c \<Rightarrow> c))"

text \<open>The configuration, from the defaulted arguments and the others (already fields of \<open>cf\<close>).\<close>

definition make_app :: "app_args \<Rightarrow> gateway_config \<Rightarrow> gateway_config" where
  "make_app a cf = cf\<lparr>
     cf_allowlist := (case arg_allowlist a of None \<Rightarrow> DEFAULT_ALLOWLIST | Some x \<Rightarrow> x),
     cf_tool_tiers := (case arg_tool_tiers a of None \<Rightarrow> [] | Some x \<Rightarrow> x),
     cf_bearers := bearer_index (case arg_bearer_tiers a of None \<Rightarrow> [] | Some x \<Rightarrow> x)
                     (case arg_bearers a of None \<Rightarrow> [] | Some x \<Rightarrow> x),
     cf_freshness := (case arg_freshness a of None \<Rightarrow> default_freshness | Some x \<Rightarrow> x),
     cf_fleet := fleet_of a\<rparr>"

text \<open>The boot-time audit of the allowlist.\<close>

definition stop_findings :: "gateway_config \<Rightarrow> dict list" where
  "stop_findings cf = audit_allowlist_for_stop (cf_allowlist cf)
     (case cf_fleet cf of Single act c \<Rightarrow> [(act_name act, act)] | Multi acts cs \<Rightarrow> acts)"

definition new_replay_cache :: replay_cache where
  "new_replay_cache = \<lparr>replay_seen = [], replay_max = 100000\<rparr>"

definition new_revocation_cache :: revocation_cache where
  "new_revocation_cache = \<lparr>ttl_s = FFin 60, rev_cache = []\<rparr>"

definition principal :: "gateway_config \<Rightarrow> string option \<Rightarrow> string \<times> json" where
  "principal cf authorization =
     (case authorization of
        Some a \<Rightarrow>
          if startswith a ''Bearer '' then
            (case map_of (cf_bearers cf) (drop 7 a) of Some e \<Rightarrow> e | None \<Rightarrow> (''anon'', JNull))
          else (''anon'', JNull)
      | None \<Rightarrow> (''anon'', JNull))"

text \<open>Stops run on worker threads of their own.\<close>

definition stop_lane :: "gateway_config \<Rightarrow> dict \<Rightarrow> bool" where
  "stop_lane cf env = (case get env ''tool_name'' of JStr t \<Rightarrow> t \<in> set (stop_tools cf) | _ \<Rightarrow> False)"

section \<open>Routing\<close>

definition config_of :: "(string \<times> dict) list \<Rightarrow> string \<Rightarrow> dict" where
  "config_of cs n = (case map_of cs n of None \<Rightarrow> [] | Some c \<Rightarrow> c)"

definition by_name :: "(string \<times> actuator) list \<Rightarrow> (string \<times> actuator) list" where
  "by_name acts = sort_key fst acts"

definition name_list :: "(string \<times> actuator) list \<Rightarrow> json" where
  "name_list acts = JArr (map (JStr \<circ> fst) acts)"

text \<open>Without a name: the actuators that declare the tool, or, when none does, those that declare
  nothing.\<close>

definition candidates :: "(string \<times> actuator) list \<Rightarrow> string \<Rightarrow> (string \<times> actuator) list" where
  "candidates acts tool =
     (let declare = [na \<leftarrow> by_name acts. tool \<in> set (rcan_tools (snd na))] in
      if declare \<noteq> [] then declare else [na \<leftarrow> by_name acts. rcan_tools (snd na) = []])"

definition route :: "fleet \<Rightarrow> invoke_envelope \<Rightarrow> reply + actuator \<times> dict" where
  "route fleet ie =
     (case fleet of
        Single act c \<Rightarrow> Inr (act, c)
      | Multi acts cs \<Rightarrow>
         (case ie_actuator_name ie of
            Some n \<Rightarrow>
              (case map_of acts n of
                 Some act \<Rightarrow> Inr (act, config_of cs n)
               | None \<Rightarrow> Inl (Http 404 (JObj [(''deny'', JStr ''unknown_actuator''),
                   (''reason'', JStr (''no actuator named '' @ repr_str n @ '' is registered on this gateway'')),
                   (''known'', name_list (by_name acts))])))
          | None \<Rightarrow>
              (case candidates acts (ie_tool_name ie) of
                 [(n, act)] \<Rightarrow> Inr (act, config_of cs n)
               | [] \<Rightarrow> Inl (Http 422 (JObj [(''deny'', JStr ''actuator_name_required''),
                   (''reason'', JStr (''gateway is configured for multiple actuators ''
                      @ ''and none declares this tool; envelope must set actuator_name'')),
                   (''known'', name_list (by_name acts))]))
               | many \<Rightarrow> Inl (Http 422 (JObj [(''deny'', JStr ''actuator_name_required''),
                   (''reason'', JStr (nat_str (length many) @ '' actuators declare ''
                      @ repr_str (ie_tool_name ie) @ ''; envelope must set actuator_name to choose one'')),
                   (''candidates'', name_list many)])))))"

section \<open>Dispatch\<close>

definition crashed_outcome :: "string \<Rightarrow> actuator_outcome" where
  "crashed_outcome m = \<lparr>success = False, outcome_kind = ''error'', telemetry = [],
     error_message = Some m, telemetry_path = None\<rparr>"

definition final_reply :: "invoke_envelope \<Rightarrow> json \<Rightarrow> actuator \<Rightarrow> actuator_outcome \<Rightarrow> string option
    \<Rightarrow> dict option \<times> string \<Rightarrow> reply" where
  "final_reply ie kid act out error_kind sm =
     (if \<not> success out \<and> outcome_kind out = ''denied'' then
        Http 403 (JObj (attach_signature
          ([(''deny'', JStr ''actuator_policy''), (''reason'', JOpt (error_message out)),
            (''actuator_name'', JStr (act_name act))]
           @ (if telemetry out = [] then [] else [(''telemetry'', JObj (telemetry out))])) sm))
      else if \<not> success out then
        Http 500 (JObj [(''actuator_error'', JOpt (error_message out)),
          (''actuator_error_kind'', JOpt error_kind)])
      else Answer (attach_signature
        [(''ok'', JBool True), (''manifest_kid'', kid), (''scope'', JStr (ie_scope ie)),
         (''tool_name'', JStr (ie_tool_name ie)), (''actuator_name'', JStr (act_name act)),
         (''outcome_kind'', JStr (outcome_kind out)), (''telemetry'', JObj (telemetry out))] sm))"

definition allowed_record :: "world \<Rightarrow> invoke_envelope \<Rightarrow> json \<Rightarrow> json \<Rightarrow> actuator \<Rightarrow> actuator_outcome
    \<Rightarrow> string option \<Rightarrow> string option \<Rightarrow> decision_record" where
  "allowed_record w ie kid rrn act out error_kind intent_hash =
     \<lparr>rc_decision = ''allow'', rc_reason = ''ok'', rc_kid = kid, rc_msg_id = JStr (ie_msg_id ie),
      rc_outcome = Some out, rc_error_kind = error_kind, rc_actuator = Some (act_name act),
      rc_ruri = JStr (ie_ruri ie), rc_rrn = rrn, rc_ended = Some (w_ended w), rc_intent_hash = intent_hash\<rparr>"

text \<open>After the call: the outcome and, when the actuator raised, the exception's class.\<close>

fun outcome_of :: "execution \<Rightarrow> (actuator_outcome \<times> string option) option" where
  "outcome_of (Returned out) = Some (out, None)"
| "outcome_of (Raised c m) = Some (crashed_outcome m, Some c)"
| "outcome_of NeverReturns = None"

definition dispatch_to :: "gateway_config \<Rightarrow> world \<Rightarrow> request \<Rightarrow> invoke_envelope \<Rightarrow> json \<Rightarrow> json
    \<Rightarrow> actuator \<times> dict \<Rightarrow> 'rs gateway \<Rightarrow> reply \<times> 'rs gateway" where
  "dispatch_to cf w rq ie kid rrn target s =
     (let (act, config) = target;
          (hash, s1) = record_intent cf w rq (ie_msg_id ie) (JStr (ie_ruri ie)) rrn (ie_tool_name ie)
            (act_name act) kid s;
          call = \<lparr>dp_actuator = act_name act, dp_tool = ie_tool_name ie, dp_envelope = rq_envelope rq,
            dp_tier = rq_tier rq, dp_chain = gw_chain s1\<rparr>;
          s2 = s1\<lparr>gw_dispatched := gw_dispatched s1 @ [call]\<rparr> in
      case outcome_of (execute act (length (gw_dispatched s1)) (rq_envelope rq) (ie_manifest_path ie)
             (rq_tier rq) config) of
        None \<Rightarrow> (Hung, s2)
      | Some (out, error_kind) \<Rightarrow>
         (case record_with_outcome cf w rq (allowed_record w ie kid rrn act out error_kind hash) s2 of
            (Inl e, s3) \<Rightarrow> (Crash e, s3)
          | (Inr sm, s3) \<Rightarrow> (final_reply ie kid act out error_kind sm, s3)))"

section \<open>The routes\<close>

definition request_of :: "gateway_config \<Rightarrow> dict \<Rightarrow> string option \<Rightarrow> request" where
  "request_of cf env authorization =
     \<lparr>rq_envelope = env, rq_tier = fst (principal cf authorization), rq_caller = snd (principal cf authorization)\<rparr>"

definition invoke :: "gateway_config \<Rightarrow> 'rs resolver \<Rightarrow> world \<Rightarrow> dict \<Rightarrow> string option \<Rightarrow> 'rs gateway
    \<Rightarrow> reply \<times> 'rs gateway" where
  "invoke cf resolve w env authorization s =
     (let rq = request_of cf env authorization in
      case gates cf w resolve rq s of
        (Inl rep, t) \<Rightarrow> (rep, t)
      | (Inr (ie, kid, rrn), t) \<Rightarrow>
         (case route (cf_fleet cf) ie of
            Inl rep \<Rightarrow> (rep, t)
          | Inr target \<Rightarrow> dispatch_to cf w rq ie kid rrn target t))"

definition audit_last :: "gateway_config \<Rightarrow> string option \<Rightarrow> 'rs gateway \<Rightarrow> reply" where
  "audit_last cf authorization s =
     (case authorization of
        None \<Rightarrow> Http 401 (JStr ''missing Authorization header'')
      | Some a \<Rightarrow>
         if \<not> startswith a ''Bearer '' then Http 401 (JStr ''missing Authorization header'')
         else if map_of (cf_bearers cf) (drop 7 a) = None then Http 403 (JStr ''unknown bearer'')
         else case gw_chain s of
           None \<Rightarrow> Http 404 (JStr ''audit chain empty'')
         | Some ch \<Rightarrow> if ch = [] then Http 404 (JStr ''audit chain empty'')
                     else Answer (entry_dict (last ch)))"

section \<open>Complete mediation\<close>

text \<open>The fields the gates read besides the report.\<close>

definition same_inputs :: "'rs gateway \<Rightarrow> 'rs gateway \<Rightarrow> bool" where
  "same_inputs s t \<longleftrightarrow> gw_replay t = gw_replay s \<and> gw_resolver t = gw_resolver s \<and>
     gw_revocation t = gw_revocation s \<and> gw_frontmatter t = gw_frontmatter s"

definition safety_cleared :: "world \<Rightarrow> 'rs gateway \<Rightarrow> bool" where
  "safety_cleared w s \<longleftrightarrow> (case gw_monitor s of None \<Rightarrow> True
     | Some m \<Rightarrow> mon_state m = READY \<and> \<not> stale (w_mono_tick w) m)"

text \<open>The envelope's signature verified under the key its kid resolved to, its timestamp and its id
  were fresh, and the kid was not revoked.\<close>

definition envelope_cleared :: "gateway_config \<Rightarrow> 'rs resolver \<Rightarrow> world \<Rightarrow> dict \<Rightarrow> 'rs gateway \<Rightarrow> bool" where
  "envelope_cleared cf resolve w env s \<longleftrightarrow>
     (\<exists>sig pem. get env ''envelope_signature'' = JObj sig \<and>
        fst (resolve (get sig ''kid'') (gw_resolver s)) = Inr (Some pem) \<and>
        envelope_ok (cf_crypto cf) env sig pem \<and>
        (\<exists>r. accepts (check_freshness env (cf_freshness cf) (w_ms_freshness w) r)) \<and>
        (\<exists>r. accepts (fst (check_replay env r (gw_replay s)))) \<and>
        (cf_check_revocation cf \<and> truthy (get sig ''kid'') \<longrightarrow>
           (\<exists>r. fst (is_revoked (get sig ''kid'') (w_mono_revocation w) (w_revoked w (get sig ''kid''))
              (gw_revocation s) r) = Inr False)))"

definition resolver_after_envelope :: "gateway_config \<Rightarrow> 'rs resolver \<Rightarrow> dict \<Rightarrow> 'rs gateway \<Rightarrow> 'rs" where
  "resolver_after_envelope cf resolve env s =
     (if cf_require_signature cf then
        (case get env ''envelope_signature'' of
           JObj sig \<Rightarrow> snd (resolve (get sig ''kid'') (gw_resolver s)) | _ \<Rightarrow> gw_resolver s)
      else gw_resolver s)"

definition manifest_cleared :: "gateway_config \<Rightarrow> 'rs resolver \<Rightarrow> world \<Rightarrow> invoke_envelope \<Rightarrow> json \<Rightarrow> 'rs \<Rightarrow> bool" where
  "manifest_cleared cf resolve w ie kid rs \<longleftrightarrow>
     (\<forall>pin. cf_pin cf = Some pin \<longrightarrow>
        (\<exists>p. w_realpath w (ie_manifest_path ie) = Inr p \<and> w_realpath w pin = Inr p)) \<and>
     (\<exists>k text pem. kid = JStr k \<and> w_read w 0 (ie_manifest_path ie) = Inr text \<and>
        fst (resolve (JStr k) rs) = Inr (Some pem) \<and> manifest_signed (cf_crypto cf) text k pem)"

definition policy_cleared :: "gateway_config \<Rightarrow> string \<Rightarrow> invoke_envelope \<Rightarrow> bool" where
  "policy_cleared cf tier ie \<longleftrightarrow>
     (tier \<in> set NON_ACTUATING_TIERS \<longrightarrow> \<not> is_actuation_scope (JStr (ie_scope ie))) \<and>
     (upper (ie_scope ie) = ''COMMISSION'' \<longrightarrow> tier = ''commission'') \<and>
     is_allowed (cf_allowlist cf) (ie_tool_name ie) \<and>
     (\<forall>ts. map_of (cf_tool_tiers cf) (ie_tool_name ie) = Some ts \<longrightarrow> tier \<in> set ts) \<and>
     (is_motion cf ie \<longrightarrow> is_actuation_scope (JStr (ie_scope ie)))"

text \<open>The human-in-the-loop policy of the request, after the first reading of the frontmatter.\<close>

definition hitl_in_force :: "gateway_config \<Rightarrow> world \<Rightarrow> invoke_envelope \<Rightarrow> 'rs gateway \<Rightarrow> reply + hitl_policy option" where
  "hitl_in_force cf w ie s =
     fst (effective_hitl cf w ie (snd (manifest_frontmatter cf w 1 (ie_manifest_path ie) s)))"

definition cleared :: "gateway_config \<Rightarrow> 'rs resolver \<Rightarrow> world \<Rightarrow> request \<Rightarrow> 'rs gateway
    \<Rightarrow> invoke_envelope \<Rightarrow> json \<Rightarrow> json \<Rightarrow> bool" where
  "cleared cf resolve w rq s ie kid rrn \<longleftrightarrow>
     safety_cleared w s \<and>
     (cf_require_signature cf \<longrightarrow> envelope_cleared cf resolve w (rq_envelope rq) s) \<and>
     parse_envelope (rq_envelope rq) = Some ie \<and>
     manifest_cleared cf resolve w ie kid (resolver_after_envelope cf resolve (rq_envelope rq) s) \<and>
     (cf_require_rrn cf \<longrightarrow> (\<exists>r. rrn_from_ruri (Some (ie_ruri ie)) = Some r \<and> rrn = JStr r)) \<and>
     policy_cleared cf (rq_tier rq) ie \<and>
     (\<forall>p. cf_confidence cf = Some p \<longrightarrow> (\<exists>r. accepts (check_confidence (rq_envelope rq) p (is_motion cf ie) r))) \<and>
     (\<exists>policy. hitl_in_force cf w ie s = Inr policy \<and>
        (\<forall>p. policy = Some p \<longrightarrow> (\<exists>r. accepts (check_hitl (rq_envelope rq) p (is_motion cf ie) r))))"

text \<open>What each stage guarantees when it passes.\<close>

lemma same_inputs_refl [simp]: "same_inputs s s"
  by (simp add: same_inputs_def)

lemma same_inputs_trans: "same_inputs s t \<Longrightarrow> same_inputs t u \<Longrightarrow> same_inputs s u"
  by (simp add: same_inputs_def)

lemma deny_never_passes [simp]: "deny cf w rq d b s \<noteq> (Inr x, t)" "deny_gate cf w rq dc g why s \<noteq> (Inr x, t)"
  by (simp_all add: deny_def deny_gate_def split: prod.splits sum.splits)

lemma lift_exc_Inr [simp]: "lift_exc x s = (Inr v, t) \<longleftrightarrow> x = Inr v \<and> t = s"
  by (cases x) (auto simp: lift_exc_def)

lemma go_on_Inr [simp]: "go_on x s = (Inr v, t) \<longleftrightarrow> v = x \<and> t = s"
  by (auto simp: go_on_def)

lemma run_gate_pass:
  assumes "run_gate cf w rq dc g check s = (Inr u, t)"
  shows "(\<exists>r. accepts (check r)) \<and> accepts (check (gw_report s)) \<and> same_inputs s t"
proof -
  obtain a r where a: "check (gw_report s) = (a, r)" by (meson surj_pair)
  with assms obtain why where "a = Inr (True, why)" "t = s\<lparr>gw_report := r\<rparr>"
    by (auto simp: run_gate_def split: sum.splits bool.splits prod.splits)
  with a have "accepts (check (gw_report s))" "same_inputs s t" by (simp_all add: same_inputs_def)
  then show ?thesis by blast
qed

lemma safety_pass:
  assumes "safety_stage cf w rq s = (Inr u, t)"
  shows "safety_cleared w s \<and> same_inputs s t"
proof (cases "gw_monitor s")
  case None
  with assms show ?thesis by (simp add: safety_stage_def safety_cleared_def)
next
  case (Some m)
  obtain m' r' where t: "tick (w_mono_tick w) m (gw_report s) = (m', r')" by (meson surj_pair)
  with assms Some have "can_actuate m'" "t = s\<lparr>gw_monitor := Some m', gw_report := r'\<rparr>"
    by (auto simp: safety_stage_def Let_def split: if_splits)
  with t Some show ?thesis
    by (auto simp: safety_cleared_def can_actuate_def tick_def same_inputs_def split: if_splits)
qed

lemma signature_pass:
  assumes "signature_stage cf w resolve rq s = (Inr kid, t)"
  obtains sig pem where "get (rq_envelope rq) ''envelope_signature'' = JObj sig" "kid = get sig ''kid''"
    "fst (resolve kid (gw_resolver s)) = Inr (Some pem)" "envelope_ok (cf_crypto cf) (rq_envelope rq) sig pem"
    "gw_replay t = gw_replay s" "gw_revocation t = gw_revocation s" "gw_frontmatter t = gw_frontmatter s"
    "gw_resolver t = snd (resolve kid (gw_resolver s))"
proof -
  obtain res r' rs' where v: "verify_envelope (cf_crypto cf) resolve (rq_envelope rq) (gw_report s)
      (gw_resolver s) = (res, r', rs')" by (metis surj_pair)
  with assms obtain x where x: "res = Inr x" "env_accepted x" "kid = env_kid x"
      "t = s\<lparr>gw_report := r', gw_resolver := rs'\<rparr>"
    by (auto simp: signature_stage_def Let_def split: sum.splits if_splits)
  obtain sig where sig: "get (rq_envelope rq) ''envelope_signature'' = JObj sig"
    using v x by (auto simp: verify_envelope_def split: json.splits)
  obtain a u where a: "resolve (get sig ''kid'') (gw_resolver s) = (a, u)" by (meson surj_pair)
  obtain p where p: "a = Inr p" "verify_with_pem (cf_crypto cf) (rq_envelope rq) sig (get sig ''kid'') p = Inr x"
      "rs' = u"
    using v x sig a by (cases a) (auto simp: verify_envelope_def Let_def)
  with x have "\<exists>y. verify_with_pem (cf_crypto cf) (rq_envelope rq) sig (get sig ''kid'') p = Inr y \<and> env_accepted y"
    by blast
  then obtain pem where "p = Some pem" "envelope_ok (cf_crypto cf) (rq_envelope rq) sig pem"
    using verify_with_pem_accepts by blast
  with sig a p x verify_with_pem_kid [OF p(2)] show thesis by (intro that [of sig pem]) auto
qed

lemma replay_pass:
  assumes "replay_stage cf w rq kid s = (Inr u, t)"
  shows "(\<exists>r. accepts (fst (check_replay (rq_envelope rq) r (gw_replay s)))) \<and>
    gw_replay t = snd (check_replay (rq_envelope rq) (gw_report s) (gw_replay s)) \<and>
    accepts (fst (check_replay (rq_envelope rq) (gw_report s) (gw_replay s))) \<and>
    gw_resolver t = gw_resolver s \<and> gw_revocation t = gw_revocation s \<and> gw_frontmatter t = gw_frontmatter s"
proof -
  obtain a c where c: "check_replay (rq_envelope rq) (gw_report s) (gw_replay s) = (a, c)" by (meson surj_pair)
  with assms have "run_gate cf w rq (raw_context rq kid) ''replay'' (\<lambda>r. a) (s\<lparr>gw_replay := c\<rparr>) = (Inr u, t)"
    by (simp add: replay_stage_def)
  from run_gate_pass [OF this] c show ?thesis by (auto simp: same_inputs_def intro: exI [of _ "gw_report s"])
qed

lemma revocation_pass:
  assumes "revocation_stage cf w rq kid s = (Inr u, t)"
  shows "(cf_check_revocation cf \<and> truthy kid \<longrightarrow>
      (\<exists>r. fst (is_revoked kid (w_mono_revocation w) (w_revoked w kid) (gw_revocation s) r) = Inr False)) \<and>
    gw_resolver t = gw_resolver s \<and> gw_frontmatter t = gw_frontmatter s \<and> gw_replay t = gw_replay s"
proof (cases "cf_check_revocation cf \<and> truthy kid")
  case True
  obtain res c' r' where v: "is_revoked kid (w_mono_revocation w) (w_revoked w kid) (gw_revocation s)
      (gw_report s) = (res, c', r')" by (metis surj_pair)
  with True assms have "res = Inr False" "t = s\<lparr>gw_revocation := c', gw_report := r'\<rparr>"
    by (auto simp: revocation_stage_def Let_def split: sum.splits bool.splits)
  with v show ?thesis by (auto intro: exI [of _ "gw_report s"])
qed (use assms in \<open>auto simp: revocation_stage_def\<close>)

lemma envelope_pass:
  assumes "envelope_stage cf w resolve rq s = (Inr u, t)" "cf_require_signature cf"
  shows "envelope_cleared cf resolve w (rq_envelope rq) s \<and> gw_frontmatter t = gw_frontmatter s \<and>
    gw_resolver t = resolver_after_envelope cf resolve (rq_envelope rq) s \<and>
    (\<exists>r. accepts (fst (check_replay (rq_envelope rq) r (gw_replay s))) \<and>
       gw_replay t = snd (check_replay (rq_envelope rq) r (gw_replay s)))"
proof -
  let ?env = "rq_envelope rq"
  obtain kid a b c v v' where st: "signature_stage cf w resolve rq s = (Inr kid, a)"
      "run_gate cf w rq (raw_context rq kid) ''envelope_freshness''
         (check_freshness ?env (cf_freshness cf) (w_ms_freshness w)) a = (Inr v, b)"
      "replay_stage cf w rq kid b = (Inr v', c)" "revocation_stage cf w rq kid c = (Inr u, t)"
    using assms unfolding envelope_stage_def by (auto simp: bindS_Inr)
  obtain sig pem where s1: "get ?env ''envelope_signature'' = JObj sig" "kid = get sig ''kid''"
    "fst (resolve kid (gw_resolver s)) = Inr (Some pem)" "envelope_ok (cf_crypto cf) ?env sig pem"
    "gw_replay a = gw_replay s" "gw_revocation a = gw_revocation s" "gw_frontmatter a = gw_frontmatter s"
    "gw_resolver a = snd (resolve kid (gw_resolver s))"
    by (rule signature_pass [OF st(1)])
  note s2 = run_gate_pass [OF st(2)] and s3 = replay_pass [OF st(3)] and s4 = revocation_pass [OF st(4)]
  have same: "gw_replay b = gw_replay s" "gw_revocation c = gw_revocation s" "gw_frontmatter t = gw_frontmatter s"
      "gw_resolver t = snd (resolve kid (gw_resolver s))" "gw_replay t = gw_replay c"
    using s1 s2 s3 s4 by (simp_all add: same_inputs_def)
  have "envelope_cleared cf resolve w ?env s"
    unfolding envelope_cleared_def
    by (intro exI [of _ sig] exI [of _ pem]) (use s1 s2 s3 s4 same in auto)
  then show ?thesis
    using same s1 s3 assms(2) by (auto simp: resolver_after_envelope_def)
qed

lemma envelope_pass_off:
  "envelope_stage cf w resolve rq s = (Inr u, t) \<Longrightarrow> \<not> cf_require_signature cf \<Longrightarrow> t = s"
  by (simp add: envelope_stage_def)

lemma pin_pass:
  "pin_stage cf w rq ie s = (Inr u, t) \<Longrightarrow> t = s \<and> (\<forall>pin. cf_pin cf = Some pin \<longrightarrow>
     (\<exists>p. w_realpath w (ie_manifest_path ie) = Inr p \<and> w_realpath w pin = Inr p))"
  by (auto simp: pin_stage_def bindS_Inr split: option.splits if_splits)

lemma manifest_pass:
  assumes "manifest_stage cf w resolve rq ie s = (Inr kid, t)"
  shows "(\<exists>k text pem. kid = JStr k \<and> w_read w 0 (ie_manifest_path ie) = Inr text \<and>
      fst (resolve (JStr k) (gw_resolver s)) = Inr (Some pem) \<and> manifest_signed (cf_crypto cf) text k pem) \<and>
    gw_frontmatter t = gw_frontmatter s \<and> gw_replay t = gw_replay s"
proof -
  obtain res rs' where v: "verify_manifest (cf_crypto cf) resolve (w_read w 0 (ie_manifest_path ie))
      (gw_resolver s) = (res, rs')" by (meson surj_pair)
  with assms obtain x where x: "res = Inr x" "mf_accepted x" "kid = JOpt (mf_kid x)"
      "gw_frontmatter t = gw_frontmatter s" "gw_replay t = gw_replay s"
    by (auto simp: manifest_stage_def Let_def split: sum.splits if_splits)
  have "verify_manifest (cf_crypto cf) resolve (w_read w 0 (ie_manifest_path ie)) (gw_resolver s) = (Inr x, rs')"
    using v x(1) by simp
  from accepted_has_kid [OF this x(2)] obtain k where k: "mf_kid x = Some k" by blast
  have "\<exists>v rs'. verify_manifest (cf_crypto cf) resolve (w_read w 0 (ie_manifest_path ie)) (gw_resolver s) =
      (Inr v, rs') \<and> mf_accepted v \<and> mf_kid v = Some k" using v x k by blast
  then obtain body pem rs'' where "w_read w 0 (ie_manifest_path ie) = Inr body"
      "resolve (JStr k) (gw_resolver s) = (Inr (Some pem), rs'')" "manifest_signed (cf_crypto cf) body k pem"
    unfolding verify_manifest_accepts by blast
  with x k show ?thesis by auto
qed

lemma frontmatter_inputs:
  "manifest_frontmatter cf w n path s = (Inr fm, t) \<Longrightarrow> gw_replay t = gw_replay s"
  by (auto simp: manifest_frontmatter_def bindS_Inr split: option.splits prod.splits if_splits)

lemma frontmatter_depends:
  assumes "gw_frontmatter s = gw_frontmatter s'"
  shows "fst (manifest_frontmatter cf w n path s) = fst (manifest_frontmatter cf w n path s') \<and>
    gw_frontmatter (snd (manifest_frontmatter cf w n path s)) = gw_frontmatter (snd (manifest_frontmatter cf w n path s'))"
  using assms
  by (auto simp: manifest_frontmatter_def bindS_def lift_exc_def split: option.splits prod.splits sum.splits)

lemma rrn_pass:
  assumes "rrn_stage cf w rq ie kid s = (Inr rrn, t)"
  shows "(cf_require_rrn cf \<longrightarrow> (\<exists>r. rrn_from_ruri (Some (ie_ruri ie)) = Some r \<and> rrn = JStr r)) \<and>
    gw_frontmatter t = gw_frontmatter (snd (manifest_frontmatter cf w 1 (ie_manifest_path ie) s)) \<and>
    gw_replay t = gw_replay s"
proof -
  obtain fm a found where f: "manifest_frontmatter cf w 1 (ie_manifest_path ie) s = (Inr fm, a)"
      "manifest_rrn_of fm = Inr found"
    and rest: "(let rrn = py_or found (JStr []) in
       if \<not> cf_require_rrn cf then go_on rrn
       else bindS (run_gate cf w rq (parsed_context ie kid rrn) ''rrn_binding'' (\<lambda>r.
              let (v, r') = verify_rrn_binding (Some (ie_ruri ie)) rrn (ie_msg_id ie) r in
              (Inr (rrn_accepted v, rrn_reason v), r'))) (\<lambda>_. go_on rrn)) a = (Inr rrn, t)"
    using assms by (auto simp: rrn_stage_def bindS_Inr)
  show ?thesis
  proof (cases "cf_require_rrn cf")
    case True
    with rest obtain u where u: "run_gate cf w rq (parsed_context ie kid (py_or found (JStr []))) ''rrn_binding'' (\<lambda>r.
              let (v, r') = verify_rrn_binding (Some (ie_ruri ie)) (py_or found (JStr [])) (ie_msg_id ie) r in
              (Inr (rrn_accepted v, rrn_reason v), r')) a = (Inr u, t)" "rrn = py_or found (JStr [])"
      by (auto simp: Let_def bindS_Inr)
    have "rrn_accepted (fst (verify_rrn_binding (Some (ie_ruri ie)) rrn (ie_msg_id ie) (gw_report a)))"
      using run_gate_pass [OF u(1)] u(2) by (auto simp: accepts_iff split: prod.splits)
    with run_gate_pass [OF u(1)] f frontmatter_inputs [OF f(1)] show ?thesis
      by (auto simp: verify_rrn_binding_accepts same_inputs_def)
  next
    case False
    with rest f frontmatter_inputs [OF f(1)] show ?thesis by (auto simp: Let_def)
  qed
qed

lemma policy_pass:
  assumes "policy_stage cf w rq ie kid rrn s = (Inr u, t)"
  shows "policy_cleared cf (rq_tier rq) ie \<and> same_inputs s t"
proof -
  obtain a b c where st:
      "run_gate cf w rq (parsed_context ie kid rrn) ''tier_policy''
         (check_tier (rq_tier rq) (JStr (ie_scope ie)) (JStr (ie_msg_id ie))) s = (Inr (), a)"
      "run_gate cf w rq (parsed_context ie kid rrn) ''tool_allowlist''
         (check_tool (ie_tool_name ie) (cf_allowlist cf) (JStr (ie_msg_id ie))) a = (Inr (), b)"
      "run_gate cf w rq (parsed_context ie kid rrn) ''tool_tier''
         (check_tool_tier (ie_tool_name ie) (rq_tier rq) (cf_tool_tiers cf)) b = (Inr (), c)"
      "run_gate cf w rq (parsed_context ie kid rrn) ''tool_scope''
         (check_tool_scope (ie_tool_name ie) (JStr (ie_scope ie)) (motion_tools cf)) c = (Inr u, t)"
    using assms by (auto simp: policy_stage_def Let_def bindS_Inr)
  note p = st [THEN run_gate_pass]
  have "same_inputs s t" using p by (auto intro: same_inputs_trans)
  moreover have "policy_cleared cf (rq_tier rq) ie"
    using p by (auto simp: policy_cleared_def check_tier_accepts is_motion_def)
  ultimately show ?thesis by simp
qed

lemma confidence_pass:
  "confidence_stage cf w rq ie kid rrn s = (Inr u, t) \<Longrightarrow> same_inputs s t \<and>
     (\<forall>p. cf_confidence cf = Some p \<longrightarrow> (\<exists>r. accepts (check_confidence (rq_envelope rq) p (is_motion cf ie) r)))"
  by (auto simp: confidence_stage_def split: option.splits dest!: run_gate_pass)

lemma effective_hitl_depends:
  assumes "gw_frontmatter s = gw_frontmatter s'"
  shows "fst (effective_hitl cf w ie s) = fst (effective_hitl cf w ie s')"
proof (cases "cf_hitl_from_manifest cf")
  case True
  obtain a t where a: "manifest_frontmatter cf w 2 (ie_manifest_path ie) s = (a, t)" by (meson surj_pair)
  obtain a' t' where a': "manifest_frontmatter cf w 2 (ie_manifest_path ie) s' = (a', t')" by (meson surj_pair)
  have "a = a'" using frontmatter_depends [OF assms, of cf w 2 "ie_manifest_path ie"] a a' by simp
  with True a a' show ?thesis
    by (cases a) (auto simp: effective_hitl_def bindS_def lift_exc_def go_on_def split: sum.splits)
qed (simp add: effective_hitl_def go_on_def)

lemma effective_hitl_inputs: "effective_hitl cf w ie s = (Inr p, t) \<Longrightarrow> gw_replay t = gw_replay s"
  by (auto simp: effective_hitl_def bindS_Inr dest: frontmatter_inputs split: if_splits)

lemma hitl_pass:
  assumes "hitl_stage cf w rq ie kid rrn s = (Inr u, t)"
  shows "(\<exists>policy. fst (effective_hitl cf w ie s) = Inr policy \<and>
     (\<forall>p. policy = Some p \<longrightarrow> (\<exists>r. accepts (check_hitl (rq_envelope rq) p (is_motion cf ie) r)))) \<and>
     gw_replay t = gw_replay s"
proof -
  obtain policy a where a: "effective_hitl cf w ie s = (Inr policy, a)"
      "(case policy of None \<Rightarrow> go_on () | Some p \<Rightarrow> run_gate cf w rq (parsed_context ie kid rrn) ''hitl_required''
         (check_hitl (rq_envelope rq) p (is_motion cf ie))) a = (Inr u, t)"
    using assms by (auto simp: hitl_stage_def bindS_Inr)
  show ?thesis
  proof (cases policy)
    case None
    with a effective_hitl_inputs [OF a(1)] show ?thesis by auto
  next
    case (Some p)
    with a(2) have "run_gate cf w rq (parsed_context ie kid rrn) ''hitl_required''
         (check_hitl (rq_envelope rq) p (is_motion cf ie)) a = (Inr u, t)" by simp
    from run_gate_pass [OF this] Some a(1) effective_hitl_inputs [OF a(1)] show ?thesis
      by (auto simp: same_inputs_def)
  qed
qed

text \<open>All the gates together.\<close>

lemma gates_pass:
  assumes "gates cf w resolve rq s = (Inr (ie, kid, rrn), t)"
  shows "cleared cf resolve w rq s ie kid rrn"
    and "cf_require_signature cf \<Longrightarrow> \<exists>r. accepts (fst (check_replay (rq_envelope rq) r (gw_replay s))) \<and>
      gw_replay t = snd (check_replay (rq_envelope rq) r (gw_replay s))"
proof -
  obtain u1 s1 u2 s2 s3 u4 s4 s5 s6 u7 s7 u8 s8 u9 where st:
      "safety_stage cf w rq s = (Inr u1, s1)"
      "envelope_stage cf w resolve rq s1 = (Inr u2, s2)"
      "schema_stage cf rq s2 = (Inr ie, s3)"
      "pin_stage cf w rq ie s3 = (Inr u4, s4)"
      "manifest_stage cf w resolve rq ie s4 = (Inr kid, s5)"
      "rrn_stage cf w rq ie kid s5 = (Inr rrn, s6)"
      "policy_stage cf w rq ie kid rrn s6 = (Inr u7, s7)"
      "confidence_stage cf w rq ie kid rrn s7 = (Inr u8, s8)"
      "hitl_stage cf w rq ie kid rrn s8 = (Inr u9, t)"
    using assms unfolding gates_def bindS_Inr go_on_Inr by blast
  have schema: "parse_envelope (rq_envelope rq) = Some ie" "s3 = s2"
    using st(3) by (auto simp: schema_stage_def stop_with_def split: option.splits)
  note safety = safety_pass [OF st(1)] and pin = pin_pass [OF st(4)] and manifest = manifest_pass [OF st(5)]
    and rrn = rrn_pass [OF st(6)] and policy = policy_pass [OF st(7)] and conf = confidence_pass [OF st(8)]
    and hitl = hitl_pass [OF st(9)]
  have env: "gw_frontmatter s2 = gw_frontmatter s \<and>
      gw_resolver s2 = resolver_after_envelope cf resolve (rq_envelope rq) s \<and>
      (cf_require_signature cf \<longrightarrow> envelope_cleared cf resolve w (rq_envelope rq) s \<and>
        (\<exists>r. accepts (fst (check_replay (rq_envelope rq) r (gw_replay s))) \<and>
           gw_replay s2 = snd (check_replay (rq_envelope rq) r (gw_replay s))))"
  proof (cases "cf_require_signature cf")
    case True
    from envelope_pass [OF st(2) True] safety True show ?thesis
      by (auto simp: same_inputs_def envelope_cleared_def resolver_after_envelope_def)
  next
    case False
    from envelope_pass_off [OF st(2) False] safety False show ?thesis
      by (simp add: same_inputs_def resolver_after_envelope_def)
  qed
  have "manifest_cleared cf resolve w ie kid (resolver_after_envelope cf resolve (rq_envelope rq) s)"
    using manifest pin env schema by (simp add: manifest_cleared_def)
  moreover have "gw_frontmatter s8 = gw_frontmatter (snd (manifest_frontmatter cf w 1 (ie_manifest_path ie) s))"
    using frontmatter_depends [of s5 s cf w 1 "ie_manifest_path ie"] manifest pin env schema rrn policy conf
    by (simp add: same_inputs_def)
  then have "fst (effective_hitl cf w ie s8) = hitl_in_force cf w ie s"
    unfolding hitl_in_force_def by (rule effective_hitl_depends)
  ultimately show "cleared cf resolve w rq s ie kid rrn"
    using safety env schema rrn policy conf hitl by (auto simp: cleared_def)
  have "gw_replay t = gw_replay s2"
    using hitl conf policy rrn manifest pin schema by (simp add: same_inputs_def)
  then show "cf_require_signature cf \<Longrightarrow> \<exists>r. accepts (fst (check_replay (rq_envelope rq) r (gw_replay s))) \<and>
      gw_replay t = snd (check_replay (rq_envelope rq) r (gw_replay s))" using env by auto
qed

section \<open>The dispatch between its records\<close>

lemma dispatch_to_calls:
  assumes "dispatch_to cf w rq ie kid rrn (act, config) s = (rep, s')"
  obtains call where "gw_dispatched s' = gw_dispatched s @ [call]" "dp_actuator call = act_name act"
    "dp_tool call = ie_tool_name ie" "dp_envelope call = rq_envelope rq" "dp_tier call = rq_tier rq"
    "gw_replay s' = gw_replay s" "gw_monitor s' = gw_monitor s"
proof -
  obtain hash s1 where h: "record_intent cf w rq (ie_msg_id ie) (JStr (ie_ruri ie)) rrn (ie_tool_name ie)
      (act_name act) kid s = (hash, s1)" by (meson surj_pair)
  note f = evidence_only_fields [OF record_intent_frame [OF h]]
  let ?call = "\<lparr>dp_actuator = act_name act, dp_tool = ie_tool_name ie, dp_envelope = rq_envelope rq,
            dp_tier = rq_tier rq, dp_chain = gw_chain s1\<rparr>"
  have "gw_dispatched s' = gw_dispatched s @ [?call] \<and> gw_replay s' = gw_replay s \<and> gw_monitor s' = gw_monitor s"
    using assms h f
    by (auto simp: dispatch_to_def Let_def evidence_only_fields split: option.splits prod.splits sum.splits
        dest!: record_with_outcome_frame)
  then show thesis by (intro that [of ?call]) auto
qed

text \<open>The three ways a request ends: stopped by a gate, unroutable, or dispatched once.\<close>

lemma invoke_cases:
  assumes "invoke cf resolve w env auth s = (rep, s')"
  obtains
    (stopped) "gates cf w resolve (request_of cf env auth) s = (Inl rep, s')"
      "stops cf w (request_of cf env auth) s s' rep"
  | (unrouted) ie kid rrn where "gates cf w resolve (request_of cf env auth) s = (Inr (ie, kid, rrn), s')"
      "route (cf_fleet cf) ie = Inl rep" "untouched s s'"
  | (dispatched) ie kid rrn act config t where
      "gates cf w resolve (request_of cf env auth) s = (Inr (ie, kid, rrn), t)"
      "route (cf_fleet cf) ie = Inr (act, config)" "untouched s t"
      "dispatch_to cf w (request_of cf env auth) ie kid rrn (act, config) t = (rep, s')"
proof -
  obtain a t where g: "gates cf w resolve (request_of cf env auth) s = (a, t)" by (meson surj_pair)
  show thesis
  proof (cases a)
    case (Inl r)
    with g assms guarded_stops [OF guarded_gates] show thesis
      by (intro stopped) (auto simp: invoke_def)
  next
    case (Inr x)
    obtain ie kid rrn where x: "x = (ie, kid, rrn)" by (metis surj_pair)
    have un: "untouched s t" using guarded_passes [OF guarded_gates] g Inr by blast
    show thesis
    proof (cases "route (cf_fleet cf) ie")
      case (Inl r)
      with g \<open>a = Inr x\<close> x assms un show thesis by (intro unrouted) (auto simp: invoke_def)
    next
      case (Inr target)
      with g \<open>a = Inr x\<close> x assms un show thesis by (cases target) (intro dispatched, auto simp: invoke_def)
    qed
  qed
qed

section \<open>Properties\<close>

text \<open>The actuator is never guessed: in a gateway of several actuators a routed request goes to the actuator the
  envelope names, or, when it names none, to the only one that declares the tool, or, when none
  declares it, to the only one that declares nothing at all.\<close>

theorem routing_is_unambiguous:
  assumes "route (Multi acts cs) ie = Inr (act, config)" "distinct (map fst acts)"
  shows "\<exists>n. (n, act) \<in> set acts \<and> config = config_of cs n \<and>
    (case ie_actuator_name ie of
       Some m \<Rightarrow> m = n
     | None \<Rightarrow>
        let tool = ie_tool_name ie; declares = (\<lambda>(n, a). tool \<in> set (rcan_tools a)) in
        (declares (n, act) \<and> (\<forall>x \<in> set acts. declares x \<longrightarrow> x = (n, act))) \<or>
        ((\<forall>x \<in> set acts. \<not> declares x) \<and> rcan_tools act = [] \<and>
           (\<forall>(n', a) \<in> set acts. rcan_tools a = [] \<longrightarrow> (n', a) = (n, act))))"
proof (cases "ie_actuator_name ie")
  case (Some m)
  with assms show ?thesis by (auto simp: route_def split: option.splits dest: map_of_SomeD)
next
  case None
  then obtain n where c: "candidates acts (ie_tool_name ie) = [(n, act)]" "config = config_of cs n"
    using assms(1) by (auto simp: route_def split: list.splits)
  let ?d = "[na \<leftarrow> by_name acts. ie_tool_name ie \<in> set (rcan_tools (snd na))]"
  have sub: "set (by_name acts) = set acts" by (simp add: by_name_def)
  have one: "\<forall>x \<in> set acts. P x \<longrightarrow> x = y" "y \<in> set acts" "P y" if "[na \<leftarrow> by_name acts. P na] = [y]" for P y
  proof -
    have "{x \<in> set acts. P x} = {y}" using arg_cong [OF that, of set] sub by simp
    then show "\<forall>x \<in> set acts. P x \<longrightarrow> x = y" "y \<in> set acts" "P y" by auto
  qed
  show ?thesis
  proof (cases "?d = []")
    case False
    with c have d: "?d = [(n, act)]" by (simp add: candidates_def Let_def)
    show ?thesis
      using one [OF d] c(2) None by (auto simp: Let_def intro!: exI [of _ n])
  next
    case True
    with c have d: "[na \<leftarrow> by_name acts. rcan_tools (snd na) = []] = [(n, act)]"
      by (simp add: candidates_def Let_def)
    have free: "\<forall>x \<in> set acts. \<not> (\<lambda>(n, a). ie_tool_name ie \<in> set (rcan_tools a)) x"
      using True sub by (simp add: filter_empty_conv case_prod_unfold)
    have only: "\<forall>(n', a) \<in> set acts. rcan_tools a = [] \<longrightarrow> (n', a) = (n, act)" "rcan_tools act = []"
      using one(1) [OF d] one(3) [OF d] by (simp_all only: case_prod_unfold prod.collapse snd_conv)
    show ?thesis
      unfolding None option.case Let_def
      by (intro exI [of _ n] conjI disjI2) (rule one(2) [OF d] c(2) free only)+
  qed
qed

definition arm_actuator :: actuator where
  "arm_actuator = NoOpActuator\<lparr>act_name := ''arm'', rcan_tools := [''arm.home'']\<rparr>"

definition routed_envelope :: invoke_envelope where
  "routed_envelope = \<lparr>ie_msg_id = ''m'', ie_ruri = ''u'', ie_scope = ''Manipulate'', ie_tool_name = ''arm.home'',
     ie_manifest_path = ''p'', ie_actuator_name = None\<rparr>"

theorem routing_is_unambiguous_witness:
  "\<exists>n. (n, arm_actuator) \<in> set [(''arm'', arm_actuator), (''noop'', NoOpActuator)] \<and> [] = config_of [] n \<and>
    (case ie_actuator_name routed_envelope of
       Some m \<Rightarrow> m = n
     | None \<Rightarrow>
        let tool = ie_tool_name routed_envelope; declares = (\<lambda>(n, a). tool \<in> set (rcan_tools a)) in
        (declares (n, arm_actuator) \<and>
           (\<forall>x \<in> set [(''arm'', arm_actuator), (''noop'', NoOpActuator)]. declares x \<longrightarrow> x = (n, arm_actuator))) \<or>
        ((\<forall>x \<in> set [(''arm'', arm_actuator), (''noop'', NoOpActuator)]. \<not> declares x) \<and> rcan_tools arm_actuator = [] \<and>
           (\<forall>(n', a) \<in> set [(''arm'', arm_actuator), (''noop'', NoOpActuator)]. rcan_tools a = [] \<longrightarrow>
              (n', a) = (n, arm_actuator))))"
proof (rule routing_is_unambiguous)
  have s: "by_name [(''arm'', arm_actuator), (''noop'', NoOpActuator)] = [(''arm'', arm_actuator), (''noop'', NoOpActuator)]"
    by (simp add: by_name_def)
  have "candidates [(''arm'', arm_actuator), (''noop'', NoOpActuator)] ''arm.home'' = [(''arm'', arm_actuator)]"
    unfolding candidates_def s by (simp add: arm_actuator_def NoOpActuator_def)
  then show "route (Multi [(''arm'', arm_actuator), (''noop'', NoOpActuator)] []) routed_envelope = Inr (arm_actuator, [])"
    by (simp add: route_def routed_envelope_def config_of_def)
qed simp

lemma no_pair_iff: "\<not> (\<exists>n a. (n, a) \<in> S \<and> P a \<and> Q a) \<longleftrightarrow> (\<forall>a \<in> snd ` S. P a \<longrightarrow> \<not> Q a)"
  by force

text \<open>A boot without findings is a gateway that can stop what it can move: \<open>make_app\<close> reports exactly the
  configured actuators that have an allowlisted motion tool and no allowlisted stop tool.\<close>

theorem boot_findings_exact:
  "stop_findings cf = [] \<longleftrightarrow>
     (\<forall>act \<in> set (fleet_actuators (cf_fleet cf)).
        (\<exists>t \<in> set (as_tool_set (motion_capabilities act)). is_allowed (cf_allowlist cf) t) \<longrightarrow>
        (\<exists>t \<in> set (as_tool_set (stop_capabilities act)). is_allowed (cf_allowlist cf) t))"
proof -
  let ?acts = "case cf_fleet cf of Single act c \<Rightarrow> [(act_name act, act)] | Multi acts cs \<Rightarrow> acts"
  have named: "\<exists>n. get f ''actuator'' = JStr n"
    if "f \<in> set (audit_allowlist_for_stop al acts)" for f al and acts :: "(string \<times> actuator) list"
    using that by (induction al acts rule: audit_allowlist_for_stop.induct) (auto simp: Let_def split: if_splits)
  have acts: "set (fleet_actuators (cf_fleet cf)) = snd ` set ?acts"
    by (auto simp: fleet_actuators_def split: fleet.splits)
  have "stop_findings cf = [] \<longleftrightarrow>
      \<not> (\<exists>n. \<exists>f \<in> set (stop_findings cf). get f ''actuator'' = JStr n)"
    using named [of _ "cf_allowlist cf" ?acts] by (cases "stop_findings cf") (auto simp: stop_findings_def)
  also have "\<dots> \<longleftrightarrow> \<not> (\<exists>n act. (n, act) \<in> set ?acts \<and>
     (\<exists>t \<in> set (as_tool_set (motion_capabilities act)). is_allowed (cf_allowlist cf) t) \<and>
     (\<forall>t \<in> set (as_tool_set (stop_capabilities act)). \<not> is_allowed (cf_allowlist cf) t))"
    unfolding stop_findings_def audit_allowlist_complete by blast
  finally show ?thesis unfolding acts no_pair_iff by simp
qed

definition still_config :: gateway_config where
  "still_config = undefined\<lparr>cf_fleet := Single NoOpActuator []\<rparr>"

theorem boot_findings_exact_witness:
  "stop_findings still_config = [] \<longleftrightarrow>
     (\<forall>act \<in> set (fleet_actuators (cf_fleet still_config)).
        (\<exists>t \<in> set (as_tool_set (motion_capabilities act)). is_allowed (cf_allowlist still_config) t) \<longrightarrow>
        (\<exists>t \<in> set (as_tool_set (stop_capabilities act)). is_allowed (cf_allowlist still_config) t))"
  by (rule boot_findings_exact)

text \<open>The bearer index: a token's whole entry in \<open>bearers\<close> wins over its tier in \<open>bearer_tiers\<close>, a token of
  neither resolves to the anon tier, and so does any header that is not a bearer header.\<close>

theorem bearer_index_precedence:
  assumes "distinct (map fst bearers)" "distinct (map fst tiers)"
  shows "principal (cf\<lparr>cf_bearers := bearer_index tiers bearers\<rparr>) (Some (''Bearer '' @ token)) =
     (case map_of bearers token of Some e \<Rightarrow> e
      | None \<Rightarrow> (case map_of tiers token of Some t \<Rightarrow> (t, JNull) | None \<Rightarrow> (''anon'', JNull)))"
proof -
  have up: "map_of (fold (\<lambda>(k, v) d. AList.update k (f v) d) xs d) x =
      (case map_of xs x of Some v \<Rightarrow> Some (f v) | None \<Rightarrow> map_of d x)"
    if "distinct (map fst xs)" for f :: "'x \<Rightarrow> string \<times> json" and xs d x
    using that
  proof (induction xs arbitrary: d)
    case (Cons kv xs)
    obtain k v where "kv = (k, v)" by (cases kv)
    moreover from this Cons.prems have "map_of xs k = None" by (simp add: map_of_eq_None_iff)
    ultimately show ?case using Cons by (auto simp: update_conv' split: option.splits)
  qed simp
  show ?thesis
    using up [of bearers "\<lambda>e. e" _ token] up [of tiers "\<lambda>t. (t, JNull)" "[]" token] assms
    by (auto simp: principal_def bearer_index_def startswith_def split: option.splits)
qed

theorem bearer_index_precedence_witness:
  "principal (still_config\<lparr>cf_bearers := bearer_index [(''t'', ''read'')] [(''t'', ''actuate'', JStr ''craig'')]\<rparr>)
     (Some (''Bearer '' @ ''t'')) =
     (case map_of [(''t'', ''actuate'', JStr ''craig'')] ''t'' of Some e \<Rightarrow> e
      | None \<Rightarrow> (case map_of [(''t'', ''read'')] ''t'' of Some t \<Rightarrow> (t, JNull) | None \<Rightarrow> (''anon'', JNull)))"
  by (rule bearer_index_precedence) simp_all

end
