(* ===== verification/Gateway_Runs.thy ===== *)
theory Gateway_Runs
  imports Receiver
begin

text \<open>
  Sequences of requests: what one gateway process does over its life. The replay window holds across
  requests (the receiver interprets \<open>replay_window\<close>), the audit chain stays a linked extension of what it
  was, and the optional attestation never changes a decision, an actuator call or the audit chain.
\<close>

type_synonym arrival = "world \<times> dict \<times> string option"

definition handle :: "gateway_config \<Rightarrow> 'rs resolver \<Rightarrow> arrival \<Rightarrow> 'rs gateway \<Rightarrow> 'rs gateway" where
  "handle cf resolve a s = (let (w, env, auth) = a in snd (invoke cf resolve w env auth s))"

definition serve :: "gateway_config \<Rightarrow> 'rs resolver \<Rightarrow> arrival list \<Rightarrow> 'rs gateway \<Rightarrow> 'rs gateway" where
  "serve cf resolve as s = fold (handle cf resolve) as s"

text \<open>The request reached an actuator.\<close>

definition reached :: "gateway_config \<Rightarrow> 'rs resolver \<Rightarrow> arrival \<Rightarrow> 'rs gateway \<Rightarrow> bool" where
  "reached cf resolve a s \<longleftrightarrow> gw_dispatched (handle cf resolve a s) \<noteq> gw_dispatched s"

section \<open>The replay cache over a request\<close>

definition keeps_replay :: "('a, 'rs) stage \<Rightarrow> bool" where
  "keeps_replay m \<longleftrightarrow> (\<forall>s. gw_replay (snd (m s)) = gw_replay s)"

named_theorems replay_frames

lemma keeps_replay_bind [replay_frames]:
  "keeps_replay m \<Longrightarrow> (\<And>x. keeps_replay (f x)) \<Longrightarrow> keeps_replay (bindS m f)"
  unfolding keeps_replay_def bindS_def by (auto split: prod.splits sum.splits) (metis snd_conv)+

lemma keeps_replay_pure [replay_frames]:
  "keeps_replay (go_on x)" "keeps_replay (stop_with rep)" "keeps_replay (lift_exc y)"
  by (auto simp: keeps_replay_def go_on_def stop_with_def lift_exc_def split: sum.splits)

lemma deny_replay [simp]: "gw_replay (snd (deny cf w rq d b s)) = gw_replay s"
  by (auto simp: deny_def evidence_only_fields split: prod.splits sum.splits dest!: record_with_outcome_frame)

lemma deny_gate_replay [simp]: "gw_replay (snd (deny_gate cf w rq dc g why s)) = gw_replay s"
  by (simp add: deny_gate_def)

lemma run_gate_replay [simp]: "gw_replay (snd (run_gate cf w rq dc g check s)) = gw_replay s"
  by (auto simp: run_gate_def split: prod.splits sum.splits bool.splits)

lemma keeps_replay_stages [replay_frames]:
  "keeps_replay (deny_gate cf w rq dc g why)" "keeps_replay (run_gate cf w rq dc g check)"
  "keeps_replay (safety_stage cf w rq)" "keeps_replay (signature_stage cf w resolve rq)"
  "keeps_replay (revocation_stage cf w rq kid)" "keeps_replay (schema_stage cf rq)"
  "keeps_replay (manifest_stage cf w resolve rq ie)" "keeps_replay (manifest_frontmatter cf w n path)"
  by (auto simp: keeps_replay_def safety_stage_def signature_stage_def revocation_stage_def schema_stage_def
      manifest_stage_def manifest_frontmatter_def bindS_def lift_exc_def go_on_def stop_with_def Let_def
      split: option.splits prod.splits sum.splits bool.splits)

text \<open>Everything after the envelope block.\<close>

definition later_gates :: "gateway_config \<Rightarrow> world \<Rightarrow> 'rs resolver \<Rightarrow> request
    \<Rightarrow> (invoke_envelope \<times> json \<times> json, 'rs) stage" where
  "later_gates cf w resolve rq =
     bindS (schema_stage cf rq) (\<lambda>ie.
     bindS (pin_stage cf w rq ie) (\<lambda>_.
     bindS (manifest_stage cf w resolve rq ie) (\<lambda>kid.
     bindS (rrn_stage cf w rq ie kid) (\<lambda>rrn.
     bindS (policy_stage cf w rq ie kid rrn) (\<lambda>_.
     bindS (confidence_stage cf w rq ie kid rrn) (\<lambda>_.
     bindS (hitl_stage cf w rq ie kid rrn) (\<lambda>_. go_on (ie, kid, rrn))))))))"

lemma later_gates_replay: "keeps_replay (later_gates cf w resolve rq)"
  unfolding later_gates_def pin_stage_def rrn_stage_def policy_stage_def confidence_stage_def hitl_stage_def
    effective_hitl_def Let_def
  by (auto intro!: replay_frames split: option.split)

lemma gates_split:
  "gates cf w resolve rq = bindS (safety_stage cf w rq) (\<lambda>_.
     bindS (envelope_stage cf w resolve rq) (\<lambda>_. later_gates cf w resolve rq))"
  by (simp add: gates_def later_gates_def)

lemma keeps_replayD: "keeps_replay m \<Longrightarrow> m s = (a, t) \<Longrightarrow> gw_replay t = gw_replay s"
  unfolding keeps_replay_def by (metis snd_conv)

lemma replay_stage_effect:
  "gw_replay (snd (replay_stage cf w rq kid s)) =
     snd (check_replay (rq_envelope rq) (gw_report s) (gw_replay s))"
  by (simp add: replay_stage_def split: prod.splits)

lemma envelope_stage_effect:
  obtains "gw_replay (snd (envelope_stage cf w resolve rq s)) = gw_replay s"
    | r where "gw_replay (snd (envelope_stage cf w resolve rq s)) =
        snd (check_replay (rq_envelope rq) r (gw_replay s))"
proof (cases "cf_require_signature cf")
  case False
  with that(1) show thesis by (simp add: envelope_stage_def go_on_def)
next
  case True
  obtain a s1 where s1: "signature_stage cf w resolve rq s = (a, s1)" by (meson surj_pair)
  note r1 = keeps_replayD [OF keeps_replay_stages(4) s1]
  show thesis
  proof (cases a)
    case (Inl rep)
    with True s1 r1 that(1) show thesis by (simp add: envelope_stage_def bindS_def)
  next
    case (Inr kid)
    obtain b s2 where s2: "run_gate cf w rq (raw_context rq kid) ''envelope_freshness''
        (check_freshness (rq_envelope rq) (cf_freshness cf) (w_ms_freshness w)) s1 = (b, s2)" by (meson surj_pair)
    note r2 = keeps_replayD [OF keeps_replay_stages(2) s2]
    show thesis
    proof (cases b)
      case (Inl rep)
      with True s1 s2 r1 r2 \<open>a = Inr kid\<close> that(1) show thesis by (simp add: envelope_stage_def bindS_def)
    next
      case (Inr u)
      obtain c s3 where s3: "replay_stage cf w rq kid s2 = (c, s3)" by (meson surj_pair)
      have r3: "gw_replay s3 = snd (check_replay (rq_envelope rq) (gw_report s2) (gw_replay s))"
        using replay_stage_effect [of cf w rq kid s2] s3 r1 r2 by simp
      have "gw_replay (snd (revocation_stage cf w rq kid s3)) = gw_replay s3"
        using keeps_replay_stages(5) unfolding keeps_replay_def by blast
      with True s1 s2 s3 r3 \<open>a = Inr kid\<close> Inr that(2) [of "gw_report s2"] show thesis
        by (cases c) (simp_all add: envelope_stage_def bindS_def)
    qed
  qed
qed

lemma gates_replay_effect:
  assumes "gates cf w resolve rq s = (a, t)"
  obtains "gw_replay t = gw_replay s"
    | r where "gw_replay t = snd (check_replay (rq_envelope rq) r (gw_replay s))"
proof -
  obtain x s1 where s1: "safety_stage cf w rq s = (x, s1)" by (meson surj_pair)
  note r1 = keeps_replayD [OF keeps_replay_stages(3) s1]
  show thesis
  proof (cases x)
    case (Inl rep)
    with assms s1 r1 that(1) show thesis by (simp add: gates_split bindS_def)
  next
    case (Inr u)
    obtain y s2 where s2: "envelope_stage cf w resolve rq s1 = (y, s2)" by (meson surj_pair)
    have "gw_replay t = gw_replay s2"
      using assms s1 s2 Inr keeps_replayD [OF later_gates_replay, of cf w resolve rq s2]
      by (cases y) (auto simp: gates_split bindS_def)
    with that s2 r1 show thesis
      using envelope_stage_effect [of cf w resolve rq s1] by (metis snd_conv)
  qed
qed

lemma handle_replay_effect:
  obtains "gw_replay (handle cf resolve (w, env, auth) s) = gw_replay s"
    | r where "gw_replay (handle cf resolve (w, env, auth) s) = snd (check_replay env r (gw_replay s))"
proof -
  obtain rep s' where i: "invoke cf resolve w env auth s = (rep, s')" by (meson surj_pair)
  have env: "rq_envelope (request_of cf env auth) = env" by (simp add: request_of_def)
  from i show thesis
  proof (cases rule: invoke_cases)
    case stopped
    with that i env show thesis by (auto simp: handle_def elim: gates_replay_effect)
  next
    case (unrouted ie kid rrn)
    with that i env show thesis by (auto simp: handle_def elim: gates_replay_effect)
  next
    case (dispatched ie kid rrn act config t)
    then have "gw_replay s' = gw_replay t" by (auto elim: dispatch_to_calls)
    with dispatched(1) that i env show thesis by (auto simp: handle_def elim: gates_replay_effect)
  qed
qed

lemma reached_admitted:
  assumes "cf_require_signature cf" "reached cf resolve (w, env, auth) s"
  obtains r where "accepts (fst (check_replay env r (gw_replay s)))"
    "gw_replay (handle cf resolve (w, env, auth) s) = snd (check_replay env r (gw_replay s))"
proof -
  obtain rep s' where i: "invoke cf resolve w env auth s = (rep, s')" by (meson surj_pair)
  have env: "rq_envelope (request_of cf env auth) = env" by (simp add: request_of_def)
  from i show thesis
  proof (cases rule: invoke_cases)
    case stopped
    with assms(2) i show thesis by (simp add: reached_def handle_def stops_def)
  next
    case (unrouted ie kid rrn)
    with assms(2) i show thesis by (simp add: reached_def handle_def untouched_def)
  next
    case (dispatched ie kid rrn act config t)
    then have "gw_replay s' = gw_replay t" by (auto elim: dispatch_to_calls)
    with gates_pass(2) [OF dispatched(1) assms(1)] env i that show thesis by (auto simp: handle_def)
  qed
qed

lemma replay_result_cases:
  assumes "0 < replay_max c"
  shows "replay_max (snd (check_replay env r c)) = replay_max c \<and>
    (replay_seen (snd (check_replay env r c)) = replay_seen c \<or>
     replay_seen (snd (check_replay env r c)) =
       drop (Suc (length (replay_seen c)) - nat (replay_max c)) (replay_seen c) @ [get env ''msg_id''])"
  by (rule check_replay_cases [OF assms, of env r]) simp_all

interpretation gateway_replay: replay_window
  "handle (cf\<lparr>cf_require_signature := True\<rparr>) resolve"
  "reached (cf\<lparr>cf_require_signature := True\<rparr>) resolve"
  "\<lambda>(w, env, auth). get env ''msg_id''" "\<lambda>s. replay_seen (gw_replay s)" "\<lambda>s. replay_max (gw_replay s)"
  for cf and resolve :: "'rs resolver"
proof unfold_locales
  fix e :: arrival and s :: "'rs gateway"
  obtain w env auth where e: "e = (w, env, auth)" by (metis surj_pair)
  let ?cf = "cf\<lparr>cf_require_signature := True\<rparr>"
  show "replay_max (gw_replay (handle ?cf resolve e s)) = replay_max (gw_replay s)"
    unfolding e by (rule handle_replay_effect [of ?cf resolve w env auth s])
      (auto simp: check_replay_def record_seen_def Let_def bindE_eq_iff split: sum.splits)
next
  fix e :: arrival and s :: "'rs gateway"
  obtain w env auth where e: "e = (w, env, auth)" by (metis surj_pair)
  let ?cf = "cf\<lparr>cf_require_signature := True\<rparr>"
  let ?new = "drop (Suc (length (replay_seen (gw_replay s))) - nat (replay_max (gw_replay s)))
    (replay_seen (gw_replay s)) @ [(\<lambda>(w, env, auth). get env ''msg_id'') e]"
  assume pos: "0 < replay_max (gw_replay s)"
  show "replay_seen (gw_replay (handle ?cf resolve e s)) = replay_seen (gw_replay s) \<or>
      replay_seen (gw_replay (handle ?cf resolve e s)) = ?new"
    unfolding e by (rule handle_replay_effect [of ?cf resolve w env auth s])
      (use replay_result_cases [OF pos, of env] in auto)
  assume r: "reached ?cf resolve e s"
  obtain r where r: "accepts (fst (check_replay env r (gw_replay s)))"
    "gw_replay (handle ?cf resolve e s) = snd (check_replay env r (gw_replay s))"
    unfolding e by (rule reached_admitted [of ?cf resolve w env auth s]) (use r e in simp_all)
  show "replay_seen (gw_replay (handle ?cf resolve e s)) = ?new"
    by (rule check_replay_cases [OF pos, of env r]) (use r e in simp_all)
  show "\<not> (\<exists>x \<in> set (replay_seen (gw_replay s)). key_eq x ((\<lambda>(w, env, auth). get env ''msg_id'') e))"
    by (rule check_replay_cases [OF pos, of env r]) (use r e in \<open>simp_all add: has_seen_def\<close>)
qed

section \<open>The records around a dispatch\<close>

lemma dispatch_records:
  assumes "dispatch_to cf w rq ie kid rrn (act, config) s = (rep, s')" "gw_chain s = Some ch"
  obtains call intents where "gw_dispatched s' = gw_dispatched s @ [call]" "dp_actuator call = act_name act"
    "dp_chain call = Some (ch @ intents)"
    "intents = [] \<or> (\<exists>i. intents = [i] \<and> ae_entry_kind i = ''intent'' \<and> ae_msg_id i = JStr (ie_msg_id ie) \<and>
       ae_tool_name i = Some (ie_tool_name ie) \<and> ae_actuator_name i = Some (act_name act) \<and>
       ae_actuator_outcome_kind i = None \<and> ae_caller i = rq_caller rq \<and> next_entry (cf_crypto cf) ch i)"
    "(rep = Hung \<or> (\<exists>e. rep = Crash e)) \<and> gw_chain s' = Some (ch @ intents) \<or>
     (\<exists>out. gw_chain s' = Some (ch @ intents @ [out]) \<and> ae_entry_kind out = ''outcome'' \<and>
        ae_decision out = ''allow'' \<and> ae_caller out = rq_caller rq \<and>
        ae_intent_chain_hash out = (if intents = [] then None else Some (ae_chain_hash (last intents))) \<and>
        next_entry (cf_crypto cf) (ch @ intents) out)"
proof -
  obtain hash s1 where h: "record_intent cf w rq (ie_msg_id ie) (JStr (ie_ruri ie)) rrn (ie_tool_name ie)
      (act_name act) kid s = (hash, s1)" by (meson surj_pair)
  note f = evidence_only_fields [OF record_intent_frame [OF h]]
  obtain intents where intents: "gw_chain s1 = Some (ch @ intents)"
      "hash = (if intents = [] then None else Some (ae_chain_hash (last intents)))"
      "intents = [] \<or> (\<exists>i. intents = [i] \<and> ae_entry_kind i = ''intent'' \<and> ae_msg_id i = JStr (ie_msg_id ie) \<and>
       ae_tool_name i = Some (ie_tool_name ie) \<and> ae_actuator_name i = Some (act_name act) \<and>
       ae_actuator_outcome_kind i = None \<and> ae_caller i = rq_caller rq \<and> next_entry (cf_crypto cf) ch i)"
    using record_intent_entry [OF h assms(2)]
  proof
    assume "hash = None \<and> gw_chain s1 = Some ch"
    then show thesis by (intro that [of "[]"]) auto
  next
    assume "\<exists>e. gw_chain s1 = Some (ch @ [e]) \<and> hash = Some (ae_chain_hash e) \<and> ae_entry_kind e = ''intent'' \<and>
       ae_msg_id e = JStr (ie_msg_id ie) \<and> ae_tool_name e = Some (ie_tool_name ie) \<and>
       ae_actuator_name e = Some (act_name act) \<and> ae_caller e = rq_caller rq \<and> ae_tier e = Some (rq_tier rq) \<and>
       ae_actuator_outcome_kind e = None \<and> next_entry (cf_crypto cf) ch e"
    then obtain e where "gw_chain s1 = Some (ch @ [e])" "hash = Some (ae_chain_hash e)" "ae_entry_kind e = ''intent''"
       "ae_msg_id e = JStr (ie_msg_id ie)" "ae_tool_name e = Some (ie_tool_name ie)"
       "ae_actuator_name e = Some (act_name act)" "ae_caller e = rq_caller rq"
       "ae_actuator_outcome_kind e = None" "next_entry (cf_crypto cf) ch e" by blast
    then show thesis by (intro that [of "[e]"]) auto
  qed
  let ?call = "\<lparr>dp_actuator = act_name act, dp_tool = ie_tool_name ie, dp_envelope = rq_envelope rq,
            dp_tier = rq_tier rq, dp_chain = gw_chain s1\<rparr>"
  let ?s2 = "s1\<lparr>gw_dispatched := gw_dispatched s1 @ [?call]\<rparr>"
  let ?ex = "outcome_of (execute act (length (gw_dispatched s1)) (rq_envelope rq) (ie_manifest_path ie) (rq_tier rq) config)"
  show thesis
  proof (cases ?ex)
    case None
    with assms(1) h have "rep = Hung" "s' = ?s2" by (simp_all add: dispatch_to_def Let_def)
    with intents f show thesis by (intro that [of ?call intents]) auto
  next
    case (Some oe)
    obtain out ek where oe: "oe = (out, ek)" by (cases oe)
    let ?d = "allowed_record w ie kid rrn act out ek hash"
    obtain b s3 where b: "record_with_outcome cf w rq ?d ?s2 = (b, s3)" by (meson surj_pair)
    show thesis
    proof (cases b)
      case (Inl e)
      with assms(1) h Some oe b have "rep = Crash e" "s' = s3" by (simp_all add: dispatch_to_def Let_def)
      moreover have "s3 = ?s2" using record_with_outcome_error b Inl by blast
      ultimately show thesis using intents f by (intro that [of ?call intents]) auto
    next
      case (Inr sm)
      with assms(1) h Some oe b have s3: "s' = s3" by (simp add: dispatch_to_def Let_def)
      have fr: "evidence_only ?s2 s3" using record_with_outcome_frame b by blast
      have "gw_chain ?s2 = Some (ch @ intents)" using intents by simp
      then obtain e where e: "gw_chain s3 = Some ((ch @ intents) @ [e])" "entry_matches rq ?d e"
          "next_entry (cf_crypto cf) (ch @ intents) e"
        using record_with_outcome_entry [of cf w rq ?d ?s2 sm s3 "ch @ intents"] b Inr by blast
      show thesis
        by (rule that [of ?call intents])
          (use s3 e intents f evidence_only_fields(7) [OF fr] in
            \<open>auto simp: entry_matches_def allowed_record_def\<close>)
    qed
  qed
qed

lemma invoke_chain:
  assumes "invoke cf resolve w env auth s = (rep, s')" "gw_chain s = Some ch" "chain_ok (cf_crypto cf) ch"
  shows "\<exists>new. gw_chain s' = Some (ch @ new) \<and> chain_ok (cf_crypto cf) (ch @ new)"
  using assms(1)
proof (cases rule: invoke_cases)
  case stopped
  from stopped(2) assms(2,3) show ?thesis
    by (auto simp: stops_def untouched_def refused_def one_entry_def chain_ok_snoc
        intro: exI [of _ "[]"] split: reply.splits)
next
  case (unrouted ie kid rrn)
  with assms show ?thesis by (auto simp: untouched_def intro: exI [of _ "[]"])
next
  case (dispatched ie kid rrn act config t)
  then have "gw_chain t = Some ch" using assms(2) by (simp add: untouched_def)
  from dispatch_records [OF dispatched(4) this] obtain call intents where
    i: "intents = [] \<or> (\<exists>i. intents = [i] \<and> next_entry (cf_crypto cf) ch i)"
       "gw_chain s' = Some (ch @ intents) \<or>
        (\<exists>out. gw_chain s' = Some (ch @ intents @ [out]) \<and> next_entry (cf_crypto cf) (ch @ intents) out)"
    by metis
  have ok: "chain_ok (cf_crypto cf) (ch @ intents)" using i(1) assms(3) chain_ok_snoc by auto
  from i(2) show ?thesis
  proof
    assume "gw_chain s' = Some (ch @ intents)"
    with ok show ?thesis by blast
  next
    assume "\<exists>out. gw_chain s' = Some (ch @ intents @ [out]) \<and> next_entry (cf_crypto cf) (ch @ intents) out"
    then obtain out where "gw_chain s' = Some (ch @ intents @ [out])" "next_entry (cf_crypto cf) (ch @ intents) out"
      by blast
    with chain_ok_snoc [OF ok] show ?thesis by (intro exI [of _ "intents @ [out]"]) simp
  qed
qed

lemma serve_chain:
  assumes "gw_chain s = Some ch" "chain_ok (cf_crypto cf) ch"
  shows "\<exists>new. gw_chain (serve cf resolve as s) = Some (ch @ new) \<and> chain_ok (cf_crypto cf) (ch @ new)"
  using assms
proof (induction as arbitrary: s ch)
  case (Cons a as)
  obtain w env auth where a: "a = (w, env, auth)" by (metis surj_pair)
  obtain rep t where t: "invoke cf resolve w env auth s = (rep, t)" by (meson surj_pair)
  from invoke_chain [OF t Cons.prems] obtain new where
    n: "gw_chain t = Some (ch @ new)" "chain_ok (cf_crypto cf) (ch @ new)" by blast
  from Cons.IH [OF n] obtain more where
    "gw_chain (serve cf resolve as t) = Some ((ch @ new) @ more)" "chain_ok (cf_crypto cf) ((ch @ new) @ more)"
    by blast
  with t a show ?case by (intro exI [of _ "new @ more"]) (simp add: serve_def handle_def)
qed (simp add: serve_def)

end
