(* ===== verification/Attestation_Apart.thy ===== *)
theory Attestation_Apart
  imports Gateway_Runs
begin

text \<open>
  The attestation is apart from the decisions: two gateways that differ in their signing identity, their
  export and their disks' faults answer every request with the same status, call the same actuators
  and keep the same audit chain. \<open>alike\<close> relates the two sides of a stage; the record's best-effort
  \<open>except\<close> clauses are what makes it hold.
\<close>

definition apart_from_trace :: "'rs gateway \<Rightarrow> 'rs gateway \<Rightarrow> bool" where
  "apart_from_trace s t \<longleftrightarrow> t = s\<lparr>gw_trace := gw_trace t\<rparr>"

fun same_status :: "reply \<Rightarrow> reply \<Rightarrow> bool" where
  "same_status (Answer _) (Answer _) = True"
| "same_status (Http c _) (Http c' _) = (c = c')"
| "same_status (Crash e) (Crash e') = (e = e')"
| "same_status Hung Hung = True"
| "same_status _ _ = False"

text \<open>Two results that differ only in the trace and in the bodies of the replies.\<close>

definition agree :: "(reply + 'a) \<times> 'rs gateway \<Rightarrow> (reply + 'a) \<times> 'rs gateway \<Rightarrow> bool" where
  "agree p q \<longleftrightarrow> apart_from_trace (snd p) (snd q) \<and>
     (case (fst p, fst q) of
        (Inr x, Inr y) \<Rightarrow> x = y | (Inl r, Inl r') \<Rightarrow> same_status r r' | _ \<Rightarrow> False)"

definition alike :: "('a, 'rs) stage \<Rightarrow> ('a, 'rs) stage \<Rightarrow> bool" where
  "alike m m' \<longleftrightarrow> (\<forall>s t. apart_from_trace s t \<longrightarrow> agree (m s) (m' t))"

named_theorems apart

lemma apart_refl [simp]: "apart_from_trace s s"
  by (simp add: apart_from_trace_def)

lemma same_status_refl [simp]: "same_status r r"
  by (cases r) simp_all

lemma apart_fields:
  assumes "apart_from_trace s t"
  shows "gw_monitor t = gw_monitor s" "gw_chain t = gw_chain s" "gw_replay t = gw_replay s"
    "gw_revocation t = gw_revocation s" "gw_report t = gw_report s" "gw_frontmatter t = gw_frontmatter s"
    "gw_resolver t = gw_resolver s" "gw_dispatched t = gw_dispatched s"
  using assms unfolding apart_from_trace_def by (cases s; cases t; auto)+

lemma apart_updates [intro]:
  assumes "apart_from_trace s t"
  shows "apart_from_trace (s\<lparr>gw_report := r\<rparr>) (t\<lparr>gw_report := r\<rparr>)"
    "apart_from_trace (s\<lparr>gw_replay := c\<rparr>) (t\<lparr>gw_replay := c\<rparr>)"
    "apart_from_trace (s\<lparr>gw_resolver := rs\<rparr>) (t\<lparr>gw_resolver := rs\<rparr>)"
    "apart_from_trace (s\<lparr>gw_report := r, gw_resolver := rs\<rparr>) (t\<lparr>gw_report := r, gw_resolver := rs\<rparr>)"
    "apart_from_trace (s\<lparr>gw_resolver := rs, gw_report := r\<rparr>) (t\<lparr>gw_resolver := rs, gw_report := r\<rparr>)"
    "apart_from_trace (s\<lparr>gw_revocation := v, gw_report := r\<rparr>) (t\<lparr>gw_revocation := v, gw_report := r\<rparr>)"
    "apart_from_trace (s\<lparr>gw_monitor := m, gw_report := r\<rparr>) (t\<lparr>gw_monitor := m, gw_report := r\<rparr>)"
    "apart_from_trace (s\<lparr>gw_frontmatter := f\<rparr>) (t\<lparr>gw_frontmatter := f\<rparr>)"
    "apart_from_trace (s\<lparr>gw_chain := ch\<rparr>) (t\<lparr>gw_chain := ch\<rparr>)"
    "apart_from_trace (s\<lparr>gw_dispatched := d\<rparr>) (t\<lparr>gw_dispatched := d\<rparr>)"
  using assms unfolding apart_from_trace_def by (cases s; cases t; auto)+

lemma apart_emit:
  assumes "apart_from_trace s t"
  shows "apart_from_trace (emit_attestation cf w rq d sg s) (emit_attestation cf' w' rq d' sg' t)"
    "apart_from_trace (emit_line cf w n rec s) t" "apart_from_trace s (emit_line cf' w' n rec t)"
  using assms unfolding apart_from_trace_def emit_attestation_def emit_line_def
  by (cases s; cases t; auto split: option.splits)+

text \<open>The other gateway: \<open>idn\<close>, \<open>ex\<close> and the faults are its own.\<close>

definition other_config :: "signing_identity option \<Rightarrow> string option \<Rightarrow> gateway_config \<Rightarrow> gateway_config" where
  "other_config idn ex cf = cf\<lparr>cf_identity := idn, cf_export := ex\<rparr>"

definition other_world :: "(nat \<Rightarrow> io_fault) \<Rightarrow> (nat \<Rightarrow> nat) \<Rightarrow> nat \<Rightarrow> world \<Rightarrow> world" where
  "other_world f h now w = w\<lparr>w_fault := f, w_head_at := h, w_now := now\<rparr>"

lemma other_config_fields [simp]:
  "cf_crypto (other_config i x cf) = cf_crypto cf" "cf_yaml (other_config i x cf) = cf_yaml cf"
  "cf_allowlist (other_config i x cf) = cf_allowlist cf" "cf_tool_tiers (other_config i x cf) = cf_tool_tiers cf"
  "cf_bearers (other_config i x cf) = cf_bearers cf"
  "cf_require_signature (other_config i x cf) = cf_require_signature cf"
  "cf_freshness (other_config i x cf) = cf_freshness cf" "cf_confidence (other_config i x cf) = cf_confidence cf"
  "cf_hitl (other_config i x cf) = cf_hitl cf"
  "cf_hitl_from_manifest (other_config i x cf) = cf_hitl_from_manifest cf"
  "cf_require_rrn (other_config i x cf) = cf_require_rrn cf" "cf_pin (other_config i x cf) = cf_pin cf"
  "cf_check_revocation (other_config i x cf) = cf_check_revocation cf" "cf_fleet (other_config i x cf) = cf_fleet cf"
  "cf_schema_errors (other_config i x cf) = cf_schema_errors cf"
  by (simp_all add: other_config_def)

lemma other_world_fields [simp]:
  "w_started (other_world f h n w) = w_started w" "w_intent_at (other_world f h n w) = w_intent_at w"
  "w_ended (other_world f h n w) = w_ended w" "w_mono_tick (other_world f h n w) = w_mono_tick w"
  "w_mono_revocation (other_world f h n w) = w_mono_revocation w"
  "w_ms_freshness (other_world f h n w) = w_ms_freshness w" "w_ms_intent (other_world f h n w) = w_ms_intent w"
  "w_ms_outcome (other_world f h n w) = w_ms_outcome w" "w_read (other_world f h n w) = w_read w"
  "w_mtime (other_world f h n w) = w_mtime w" "w_realpath (other_world f h n w) = w_realpath w"
  "w_revoked (other_world f h n w) = w_revoked w" "w_telemetry (other_world f h n w) = w_telemetry w"
  by (simp_all add: other_world_def)

section \<open>Stage by stage\<close>

lemma agree_same [simp]: "agree (v, s) (v, t) \<longleftrightarrow> apart_from_trace s t"
  by (cases v) (simp_all add: agree_def)

lemma alikeI: "(\<And>s t. apart_from_trace s t \<Longrightarrow> agree (m s) (m' t)) \<Longrightarrow> alike m m'"
  by (simp add: alike_def)

lemma alikeD: "alike m m' \<Longrightarrow> apart_from_trace s t \<Longrightarrow> agree (m s) (m' t)"
  by (simp add: alike_def)

lemma agree_cases:
  assumes "agree (a, s) (b, t)"
  obtains x where "a = Inr x" "b = Inr x" "apart_from_trace s t"
    | r r' where "a = Inl r" "b = Inl r'" "same_status r r'" "apart_from_trace s t"
  using assms by (cases a; cases b) (auto simp: agree_def)

lemma alike_bind [apart]:
  fixes m m' :: "('a, 'rs) stage"
  assumes "alike m m'" "\<And>x. alike (f x) (f' x)"
  shows "alike (bindS m f) (bindS m' f')"
proof (rule alikeI)
  fix s t :: "'rs gateway"
  assume "apart_from_trace s t"
  moreover obtain a s1 where m: "m s = (a, s1)" by (meson surj_pair)
  moreover obtain b t1 where m': "m' t = (b, t1)" by (meson surj_pair)
  ultimately have "agree (a, s1) (b, t1)" using alikeD [OF assms(1)] by metis
  then show "agree (bindS m f s) (bindS m' f' t)"
  proof (cases rule: agree_cases)
    case (1 x)
    with m m' alikeD [OF assms(2)] show ?thesis by (simp add: bindS_def)
  next
    case (2 r r')
    with m m' show ?thesis by (simp add: bindS_def agree_def)
  qed
qed

lemma alike_pure [apart]:
  "alike (go_on x) (go_on x)" "alike (lift_exc y) (lift_exc y)" "alike (stop_with rep) (stop_with rep)"
  by (auto simp: alike_def go_on_def lift_exc_def stop_with_def split: sum.splits)

lemma audit_telemetry_other [simp]:
  "audit_telemetry (other_config i x cf) (other_world f h n w) out = audit_telemetry cf w out"
  by (simp add: audit_telemetry_def cong: option.case_cong if_cong)

lemma decision_entry_other [simp]:
  "decision_entry (other_config i x cf) (other_world f h n w) rq d = decision_entry cf w rq d"
  by (simp add: decision_entry_def Let_def cong: option.case_cong)

lemma apart_record:
  assumes "apart_from_trace s t"
    and "record_with_outcome cf w rq d s = (a, s')"
    and "record_with_outcome (other_config i x cf) (other_world f h n w) rq d t = (b, t')"
  shows "apart_from_trace s' t' \<and> (case (a, b) of (Inl e, Inl e') \<Rightarrow> e = e' | (Inr _, Inr _) \<Rightarrow> True | _ \<Rightarrow> False)"
  using assms apart_fields(2) [OF assms(1)] assms(1)
  by (auto simp: record_with_outcome_def Let_def intro!: apart_emit apart_updates
      split: option.splits sum.splits prod.splits)

lemma alike_deny [apart]:
  "alike (deny cf w rq d body) (deny (other_config i x cf) (other_world f h n w) rq d body)"
proof (rule alikeI)
  fix s t :: "'a gateway"
  assume st: "apart_from_trace s t"
  obtain a s' where r: "record_with_outcome cf w rq d s = (a, s')" by (meson surj_pair)
  obtain b t' where r': "record_with_outcome (other_config i x cf) (other_world f h n w) rq d t = (b, t')"
    by (meson surj_pair)
  from apart_record [OF st r r']
  show "agree (deny cf w rq d body s) (deny (other_config i x cf) (other_world f h n w) rq d body t)"
    using r r' by (cases a; cases b) (simp_all add: deny_def agree_def)
qed

lemma alike_deny_gate [apart]:
  "alike (deny_gate cf w rq dc g why) (deny_gate (other_config i x cf) (other_world f h n w) rq dc g why)"
  unfolding deny_gate_def by (rule alike_deny)

lemmas agree_deny = alikeD [OF alike_deny] alikeD [OF alike_deny_gate]

lemma alike_run_gate [apart]:
  "alike (run_gate cf w rq dc g check) (run_gate (other_config i x cf) (other_world f h n w) rq dc g check)"
  by (rule alikeI) (auto simp: run_gate_def apart_fields intro!: agree_deny apart_updates
      split: prod.split sum.split bool.split)

lemma alike_safety [apart]:
  "alike (safety_stage cf w rq) (safety_stage (other_config i x cf) (other_world f h n w) rq)"
  by (rule alikeI) (auto simp: safety_stage_def Let_def apart_fields intro!: agree_deny apart_updates
      split: option.split prod.split)

lemma alike_signature [apart]:
  "alike (signature_stage cf w resolve rq) (signature_stage (other_config i x cf) (other_world f h n w) resolve rq)"
  by (rule alikeI) (auto simp: signature_stage_def Let_def apart_fields intro!: agree_deny apart_updates
      split: sum.split prod.split)

lemma alike_replay [apart]:
  "alike (replay_stage cf w rq kid) (replay_stage (other_config i x cf) (other_world f h n w) rq kid)"
  by (rule alikeI) (auto simp: replay_stage_def Let_def apart_fields intro!: alikeD [OF alike_run_gate] apart_updates
      split: prod.split)

lemma alike_revocation [apart]:
  "alike (revocation_stage cf w rq kid) (revocation_stage (other_config i x cf) (other_world f h n w) rq kid)"
  by (rule alikeI) (auto simp: revocation_stage_def Let_def apart_fields intro!: agree_deny apart_updates
      split: sum.split prod.split bool.split)

lemma alike_schema [apart]: "alike (schema_stage cf rq) (schema_stage (other_config i x cf) rq)"
  unfolding schema_stage_def by (simp add: apart split: option.split)

lemma alike_manifest [apart]:
  "alike (manifest_stage cf w resolve rq ie) (manifest_stage (other_config i x cf) (other_world f h n w) resolve rq ie)"
  by (rule alikeI) (auto simp: manifest_stage_def Let_def apart_fields intro!: agree_deny apart_updates
      split: sum.split prod.split)

lemma fresh_frontmatter_other [simp]:
  "fresh_frontmatter (other_config i x cf) (other_world f h n w) k path = fresh_frontmatter cf w k path"
  by (simp add: fresh_frontmatter_def cong: sum.case_cong option.case_cong)

lemma alike_frontmatter [apart]:
  "alike (manifest_frontmatter cf w k path) (manifest_frontmatter (other_config i x cf) (other_world f h n w) k path)"
  by (rule alikeI) (auto simp: manifest_frontmatter_def bindS_def lift_exc_def apart_fields intro!: apart_updates
      split: option.split prod.split sum.split)

lemma motion_other [simp]:
  "motion_tools (other_config i x cf) = motion_tools cf" "is_motion (other_config i x cf) = is_motion cf"
  by (simp_all add: motion_tools_def is_motion_def fun_eq_iff)

lemma alike_gates: "alike (gates cf w resolve rq) (gates (other_config i x cf) (other_world f h n w) resolve rq)"
  unfolding gates_def envelope_stage_def pin_stage_def rrn_stage_def policy_stage_def confidence_stage_def
    hitl_stage_def effective_hitl_def Let_def
  by (auto intro!: apart split: option.split)

section \<open>Dispatch\<close>

lemma intent_entry_other [simp]:
  "intent_entry (other_world f h n w) rq m kid tool act = intent_entry w rq m kid tool act"
  by (simp add: intent_entry_def)

lemma apart_intent:
  assumes "apart_from_trace s t"
    and "record_intent cf w rq m u r tool act kid s = (a, s')"
    and "record_intent (other_config i x cf) (other_world f h n w) rq m u r tool act kid t = (b, t')"
  shows "a = b \<and> apart_from_trace s' t'"
proof -
  have emit: "apart_from_trace (emit_line cf' w' k rec p) q" "apart_from_trace p (emit_line cf' w' k rec q)"
    "apart_from_trace (emit_line cf' w' k rec p) (emit_line cf'' w'' k' rec' q)"
    if "apart_from_trace p q" for cf' cf'' w' w'' k k' rec rec' and p q :: "'a gateway"
    using that unfolding apart_from_trace_def emit_line_def by (cases p; cases q; auto split: option.splits)+
  show ?thesis
    using assms(2,3) apart_fields(2) [OF assms(1)] assms(1)
    by (auto simp: record_intent_def Let_def split: option.splits sum.splits prod.splits
        intro!: emit apart_updates)
qed

lemma final_reply_status: "same_status (final_reply ie kid act out ek sm) (final_reply ie kid act out ek sm')"
  by (simp add: final_reply_def)

lemma apart_dispatch:
  assumes "apart_from_trace s t"
    and "dispatch_to cf w rq ie kid rrn target s = (rep, s')"
    and "dispatch_to (other_config i x cf) (other_world f h n w) rq ie kid rrn target t = (rep', t')"
  shows "same_status rep rep' \<and> apart_from_trace s' t'"
proof -
  obtain act config where target: "target = (act, config)" by (cases target)
  obtain a s1 where a: "record_intent cf w rq (ie_msg_id ie) (JStr (ie_ruri ie)) rrn (ie_tool_name ie)
      (act_name act) kid s = (a, s1)" by (meson surj_pair)
  obtain b t1 where b: "record_intent (other_config i x cf) (other_world f h n w) rq (ie_msg_id ie)
      (JStr (ie_ruri ie)) rrn (ie_tool_name ie) (act_name act) kid t = (b, t1)" by (meson surj_pair)
  have ab: "b = a" "apart_from_trace s1 t1" using apart_intent [OF assms(1) a b] by simp_all
  note eq = apart_fields(2,8) [OF ab(2)]
  let ?call = "\<lparr>dp_actuator = act_name act, dp_tool = ie_tool_name ie, dp_envelope = rq_envelope rq,
            dp_tier = rq_tier rq, dp_chain = gw_chain s1\<rparr>"
  let ?s2 = "s1\<lparr>gw_dispatched := gw_dispatched s1 @ [?call]\<rparr>"
  let ?t2 = "t1\<lparr>gw_dispatched := gw_dispatched s1 @ [?call]\<rparr>"
  have st2: "apart_from_trace ?s2 ?t2" using ab(2) by (rule apart_updates)
  let ?ex = "outcome_of (execute act (length (gw_dispatched s1)) (rq_envelope rq) (ie_manifest_path ie) (rq_tier rq) config)"
  show ?thesis
  proof (cases ?ex)
    case None
    with assms(2,3) a b ab eq st2 target show ?thesis by (simp add: dispatch_to_def Let_def)
  next
    case (Some oe)
    obtain out ek where oe: "oe = (out, ek)" by (cases oe)
    have rec: "allowed_record (other_world f h n w) ie kid rrn act out ek a = allowed_record w ie kid rrn act out ek a"
      by (simp add: allowed_record_def)
    obtain c s3 where c: "record_with_outcome cf w rq (allowed_record w ie kid rrn act out ek a) ?s2 = (c, s3)"
      by (meson surj_pair)
    obtain d t3 where d: "record_with_outcome (other_config i x cf) (other_world f h n w) rq
        (allowed_record w ie kid rrn act out ek a) ?t2 = (d, t3)" by (meson surj_pair)
    from apart_record [OF st2 c d] assms(2,3) a b ab eq target Some oe c d rec show ?thesis
      by (cases c; cases d) (auto simp: dispatch_to_def Let_def final_reply_status)
  qed
qed

lemma request_of_other [simp]: "request_of (other_config i x cf) env auth = request_of cf env auth"
  by (simp add: request_of_def principal_def cong: option.case_cong if_cong)

lemma apart_invoke:
  assumes "apart_from_trace s t"
    and "invoke cf resolve w env auth s = (rep, s')"
    and "invoke (other_config i x cf) resolve (other_world f h n w) env auth t = (rep', t')"
  shows "same_status rep rep' \<and> apart_from_trace s' t'"
proof -
  let ?rq = "request_of cf env auth"
  obtain a s1 where a: "gates cf w resolve ?rq s = (a, s1)" by (meson surj_pair)
  obtain b t1 where b: "gates (other_config i x cf) (other_world f h n w) resolve ?rq t = (b, t1)"
    by (meson surj_pair)
  have "agree (a, s1) (b, t1)" using alikeD [OF alike_gates assms(1), of cf w resolve ?rq i x f h n] a b by simp
  then show ?thesis
  proof (cases rule: agree_cases)
    case (1 y)
    obtain ie kid rrn where y: "y = (ie, kid, rrn)" by (metis surj_pair)
    show ?thesis
    proof (cases "route (cf_fleet cf) ie")
      case (Inl r)
      with 1 y a b assms(2,3) show ?thesis by (auto simp: invoke_def Let_def)
    next
      case (Inr target)
      with 1 y a b assms(2,3) have
        "dispatch_to cf w ?rq ie kid rrn target s1 = (rep, s')"
        "dispatch_to (other_config i x cf) (other_world f h n w) ?rq ie kid rrn target t1 = (rep', t')"
        by (simp_all add: invoke_def Let_def)
      with 1 apart_dispatch show ?thesis by blast
    qed
  next
    case (2 r r')
    with a b assms(2,3) show ?thesis by (simp add: invoke_def Let_def)
  qed
qed

section \<open>Runs\<close>

fun replies :: "gateway_config \<Rightarrow> 'rs resolver \<Rightarrow> arrival list \<Rightarrow> 'rs gateway \<Rightarrow> reply list" where
  "replies cf resolve [] s = []"
| "replies cf resolve ((w, env, auth) # as) s =
     (let (rep, s') = invoke cf resolve w env auth s in rep # replies cf resolve as s')"

text \<open>The same request in a world that differs in the attestation's faults and clock readings only.\<close>

definition same_request :: "arrival \<Rightarrow> arrival \<Rightarrow> bool" where
  "same_request a b \<longleftrightarrow> (\<exists>f h n. fst b = other_world f h n (fst a) \<and> snd b = snd a)"

text \<open>C7. The attestation never interferes: a gateway with any signing identity, any export file and any disk
  faults answers every request of a run with the same status, and ends with the same audit chain, the
  same actuator calls and the same state but for the trace, as a gateway with none.\<close>

theorem attestation_never_interferes:
  assumes "apart_from_trace s t" "list_all2 same_request as bs"
  shows "list_all2 same_status (replies cf resolve as s) (replies (other_config i x cf) resolve bs t) \<and>
    apart_from_trace (serve cf resolve as s) (serve (other_config i x cf) resolve bs t)"
  using assms(2,1)
proof (induction as bs arbitrary: s t rule: list_all2_induct)
  case (Cons a as b bs)
  obtain w env auth where a: "a = (w, env, auth)" by (metis surj_pair)
  obtain f h n where b: "b = (other_world f h n w, env, auth)"
    using Cons.hyps(1) a by (cases b) (auto simp: same_request_def)
  obtain rep s' where s: "invoke cf resolve w env auth s = (rep, s')" by (meson surj_pair)
  obtain rep' t' where t: "invoke (other_config i x cf) resolve (other_world f h n w) env auth t = (rep', t')"
    by (meson surj_pair)
  note step = apart_invoke [OF Cons.prems s t]
  then show ?case using Cons.IH [of s' t'] s t a b by (simp add: serve_def handle_def)
qed (simp add: serve_def)

end
