(* ===== verification/Demo_Gateway.thy ===== *)
theory Demo_Gateway
  imports Attestation_Apart
begin

text \<open>
  A concrete gateway, one request and its world, on which the theorems' hypotheses are discharged: a
  no-op actuator behind the allowlist, the tier policy, the manifest and the signature, freshness and
  replay checks. Its crypto library is a trivial one, so the evaluation stays small.
\<close>

definition tiny_crypto :: crypto where
  "tiny_crypto = \<lparr>canonical_json = (\<lambda>ex d. Inr []), load_pem_public_key = (\<lambda>pem. PemKey (Ed25519PublicKey pem)),
     ed_sign = (\<lambda>priv m. []), ed_verify = (\<lambda>pub s m. s = [] \<and> pub = ''P'')\<rparr>"

definition demo_manifest :: string where
  "demo_manifest = ''robot'' @ [CHR 0x0A] @ ''<!-- ROBOT-MD-SIG kid=K sig== -->''"

definition demo_config :: gateway_config where
  "demo_config = \<lparr>cf_crypto = tiny_crypto, cf_yaml = (\<lambda>_. Inr JNull),
     cf_allowlist = \<lparr>allowed_tools = [''arm.home'']\<rparr>, cf_tool_tiers = [],
     cf_bearers = [(''t'', ''actuate'', JStr ''craig'')], cf_require_signature = True,
     cf_freshness = default_freshness, cf_confidence = None, cf_hitl = None, cf_hitl_from_manifest = False,
     cf_require_rrn = False, cf_pin = None, cf_check_revocation = False,
     cf_fleet = Single (NoOpActuator\<lparr>motion_capabilities := BareName ''arm.home''\<rparr>) [],
     cf_identity = None, cf_export = None, cf_schema_errors = (\<lambda>_. JNull)\<rparr>"

definition demo_world :: world where
  "demo_world = \<lparr>w_started = 0, w_intent_at = 0, w_ended = 0, w_now = 0, w_mono_tick = FFin 0,
     w_mono_revocation = FFin 0, w_ms_freshness = 0, w_ms_intent = 0, w_ms_outcome = 0,
     w_read = (\<lambda>n p. Inr demo_manifest), w_mtime = (\<lambda>n p. None), w_realpath = Inr,
     w_revoked = (\<lambda>_. Inr None), w_telemetry = (\<lambda>n p. None), w_fault = (\<lambda>_. NoFault), w_head_at = (\<lambda>_. 0)\<rparr>"

definition demo_envelope :: dict where
  "demo_envelope = [(''msg_id'', JStr ''m1''), (''type'', JStr ''INVOKE''), (''ruri'', JStr ''rcan://RRN-1/x''),
     (''scope'', JStr ''Manipulate''), (''tool_name'', JStr ''arm.home''), (''manifest_path'', JStr ''ROBOT.md''),
     (''envelope_signature'', JObj [(''kid'', JStr ''K''), (''sig'', JStr [])])]"

definition demo_resolver :: "unit resolver" where
  "demo_resolver kid rs = (Inr (Some ''P''), rs)"

definition demo_gateway :: "audit_chain option \<Rightarrow> unit gateway" where
  "demo_gateway ch = \<lparr>gw_monitor = None, gw_chain = ch, gw_replay = \<lparr>replay_seen = [], replay_max = 4\<rparr>,
     gw_revocation = \<lparr>ttl_s = FFin 60, rev_cache = []\<rparr>, gw_report = initial_report (\<lambda>_. []), gw_frontmatter = [],
     gw_trace = \<lparr>export = None, head_file = None\<rparr>, gw_resolver = (), gw_dispatched = []\<rparr>"

lemma demo_footer: "search_footer demo_manifest = Some (5, ''K'', ''='')"
  by code_simp

text \<open>The request, the same without a bearer, and the same under a pressed stop.\<close>

definition demo_run :: "audit_chain option \<Rightarrow> reply \<times> unit gateway" where
  "demo_run ch = invoke demo_config demo_resolver demo_world demo_envelope (Some ''Bearer t'') (demo_gateway ch)"

definition demo_refusal :: "reply \<times> unit gateway" where
  "demo_refusal = invoke demo_config demo_resolver demo_world demo_envelope None (demo_gateway (Some []))"

definition stopped_monitor :: safety_monitor where
  "stopped_monitor = \<lparr>mon_state = ESTOP_ACTIVE, last_heartbeat_at = FFin 0, heartbeat_staleness_s = FFin 3\<rparr>"

definition stopped_gateway :: "unit gateway" where
  "stopped_gateway = demo_gateway None\<lparr>gw_monitor := Some stopped_monitor\<rparr>"

definition demo_stopped :: "reply \<times> unit gateway" where
  "demo_stopped = invoke demo_config demo_resolver demo_world demo_envelope (Some ''Bearer t'') stopped_gateway"

lemma demo_run_eq: "invoke demo_config demo_resolver demo_world demo_envelope (Some ''Bearer t'') (demo_gateway ch) =
    (fst (demo_run ch), snd (demo_run ch))"
  and demo_refusal_eq: "invoke demo_config demo_resolver demo_world demo_envelope None (demo_gateway (Some [])) =
    (fst demo_refusal, snd demo_refusal)"
  and demo_stopped_eq: "invoke demo_config demo_resolver demo_world demo_envelope (Some ''Bearer t'') stopped_gateway =
    (fst demo_stopped, snd demo_stopped)"
  by (simp_all add: demo_run_def demo_refusal_def demo_stopped_def)

lemma demo_gateway_chain [simp]: "gw_chain (demo_gateway ch) = ch"
  by (simp add: demo_gateway_def)

text \<open>The gates pass whatever the chain holds, so the request is dispatched.\<close>

definition demo_request :: request where
  "demo_request = request_of demo_config demo_envelope (Some ''Bearer t'')"

lemma demo_gates: "(case fst (gates demo_config demo_world demo_resolver demo_request (demo_gateway None)) of
    Inr (ie, kid, rrn) \<Rightarrow> True | _ \<Rightarrow> False)"
  by code_simp

lemma demo_gates_chain: "(case fst (gates demo_config demo_world demo_resolver demo_request (demo_gateway (Some []))) of
    Inr (ie, kid, rrn) \<Rightarrow> True | _ \<Rightarrow> False)"
  by code_simp

lemma demo_run_dispatches:
  assumes "ch \<in> {None, Some []}"
  shows "gw_dispatched (snd (demo_run ch)) \<noteq> gw_dispatched (demo_gateway ch)"
proof -
  obtain ie kid rrn t where g: "gates demo_config demo_world demo_resolver demo_request (demo_gateway ch) =
      (Inr (ie, kid, rrn), t)"
    using assms demo_gates demo_gates_chain
    by (cases "gates demo_config demo_world demo_resolver demo_request (demo_gateway ch)")
      (auto split: sum.splits)
  have t: "untouched (demo_gateway ch) t" by (rule guarded_passes [OF guarded_gates g])
  obtain act c where r: "route (cf_fleet demo_config) ie = Inr (act, c)"
    by (simp add: route_def demo_config_def)
  have "demo_run ch = dispatch_to demo_config demo_world demo_request ie kid rrn (act, c) t"
    using g r by (simp add: demo_run_def invoke_def demo_request_def Let_def)
  then obtain rep s' where "demo_run ch = (rep, s')"
      "dispatch_to demo_config demo_world demo_request ie kid rrn (act, c) t = (rep, s')" by (metis surj_pair)
  with t show ?thesis by (auto simp: untouched_def elim: dispatch_to_calls)
qed

text \<open>Without a bearer the tier is anon, and an anon never clears the tier policy of a manipulation.\<close>

lemma anon_not_cleared: "\<not> cleared demo_config demo_resolver demo_world (request_of demo_config demo_envelope None) s ie kid rrn"
proof
  assume c: "cleared demo_config demo_resolver demo_world (request_of demo_config demo_envelope None) s ie kid rrn"
  have p: "parse_envelope demo_envelope = Some ie"
    using c by (simp add: cleared_def request_of_def)
  have "rq_tier (request_of demo_config demo_envelope None) = ''anon''"
    by (simp add: request_of_def principal_def)
  with c have "\<not> is_actuation_scope (JStr (ie_scope ie))"
    by (simp add: cleared_def policy_cleared_def NON_ACTUATING_TIERS_def)
  moreover have "map_option ie_scope (parse_envelope demo_envelope) = Some ''Manipulate''" by code_simp
  moreover have "is_actuation_scope (JStr ''Manipulate'')" by code_simp
  ultimately show False using p by simp
qed

lemma demo_dispatch: "map dp_tool (gw_dispatched (snd (demo_run None))) = [''arm.home'']"
  by code_simp

lemma demo_refusal_still: "gw_dispatched (snd demo_refusal) = gw_dispatched (demo_gateway (Some []))"
  using demo_refusal_eq
proof (cases rule: invoke_cases)
  case stopped
  then show ?thesis by (simp add: stops_def)
next
  case unrouted
  then show ?thesis by (simp add: untouched_def)
next
  case (dispatched ie kid rrn act config t)
  with gates_pass(1) [OF dispatched(1)] anon_not_cleared show ?thesis by blast
qed

theorem attestation_never_interferes_witness:
  "list_all2 same_status
     (replies demo_config demo_resolver [(demo_world, demo_envelope, Some ''Bearer t'')] (demo_gateway (Some [])))
     (replies (other_config (Some \<lparr>id_priv = ''P'', id_kid = ''G'', id_ran = None\<rparr>) (Some ''t.ndjson'') demo_config)
        demo_resolver [(other_world (\<lambda>_. LineTorn 0 TypeError) (\<lambda>_. 0) 0 demo_world, demo_envelope, Some ''Bearer t'')]
        (demo_gateway (Some []))) \<and>
    apart_from_trace (serve demo_config demo_resolver [(demo_world, demo_envelope, Some ''Bearer t'')] (demo_gateway (Some [])))
     (serve (other_config (Some \<lparr>id_priv = ''P'', id_kid = ''G'', id_ran = None\<rparr>) (Some ''t.ndjson'') demo_config)
        demo_resolver [(other_world (\<lambda>_. LineTorn 0 TypeError) (\<lambda>_. 0) 0 demo_world, demo_envelope, Some ''Bearer t'')]
        (demo_gateway (Some [])))"
  by (rule attestation_never_interferes) (auto simp: same_request_def)

end
