(* ===== verification/Export_Walk.thy ===== *)
theory Export_Walk
  imports Attestation
begin

text \<open>
  \<open>scripts/verify_receipt.py --walk\<close>: the offline check of a trace export, which needs no key. The
  loop's variables are the record \<open>walk_state\<close>, one step per non-blank line; what it reports are the
  datatypes \<open>failure\<close> and \<open>finding\<close>, rendered by \<open>failure_text\<close> and \<open>finding_text\<close>. A line is taken
  as UTF-8 text. The lemmas: a walk without failures is exactly the declarative \<open>whole\<close>, an
  export of the gateway passes, and a removed or edited line of it fails.
\<close>

section \<open>Reports\<close>

datatype failure =
    NotJson nat string | NotObject nat | SeqLost nat | Gap nat int int | WentBack nat int int
  | ChainBreak nat json string

datatype finding =
    PartialLine nat | ForeignPrev nat json | ChainNote nat json | Unnumbered nat | NeverReported nat string

text \<open>\<open>why\<close> is the JSON reader's message for the line.\<close>

fun failure_text :: "(string \<Rightarrow> string) \<Rightarrow> failure \<Rightarrow> string" where
  "failure_text why (NotJson n raw) = ''line '' @ nat_str n @ '': not JSON ('' @ why raw @ '')''"
| "failure_text why (NotObject n) = ''line '' @ nat_str n @ '': not a JSON object''"
| "failure_text why (SeqLost n) = ''line '' @ nat_str n @ '': no seq, after line '' @ nat_str (n - 1)
     @ '' carried one. Numbering does not restart mid-file.''"
| "failure_text why (Gap n seq expected) = ''GAP: line '' @ nat_str n @ '' has seq '' @ int_str seq
     @ '', expected '' @ int_str expected @ '' (missing seq ''
     @ (if seq = expected + 1 then int_str expected else int_str expected @ ''..'' @ int_str (seq - 1)) @ '')''"
| "failure_text why (WentBack n seq expected) = ''GAP: line '' @ nat_str n @ '' has seq '' @ int_str seq
     @ '', expected '' @ int_str expected
     @ '' (the sequence went backwards; lines were reordered or numbering restarted)''"
| "failure_text why (ChainBreak n prev want) = ''CHAIN BREAK: line '' @ nat_str n @ '' chain_prev ''
     @ py_str prev @ '' does not match sha256 of line '' @ nat_str (n - 1) @ '' ('' @ want @ '')''"

definition note_text :: "json \<Rightarrow> string" where
  "note_text note =
     (if note = JStr ''unnumbered_history'' then
        ''This is the first numbered line after unnumbered history; ''
        @ ''every line before it carries no links and binds nothing.''
      else if note = JStr ''previous_line_partial'' then
        ''The line above this one is a partial write, so its own ''
        @ ''number could not be read; this line continues from the ''
        @ ''last line whose number could be, and binds the partial ''
        @ ''line'' @ [CHR 0x27] @ ''s bytes as they sit in the file.''
      else
        ''The head file was missing, so seq and chain_prev were ''
        @ ''rebuilt from this file'' @ [CHR 0x27] @ ''s own last line. If the tail was ''
        @ ''removed along with the head, only an off-box copy shows it.'')"

fun finding_text :: "finding \<Rightarrow> string" where
  "finding_text (PartialLine n) = ''PARTIAL LINE: line '' @ nat_str n @ '' is the last line and has no ''
     @ ''newline after it, and it does not parse. A record was being ''
     @ ''written when the writer stopped. Nothing this file claims is ''
     @ ''missing, so this is not a gap; the next line written will ''
     @ ''carry chain_note '' @ [CHR 0x27] @ ''previous_line_partial'' @ [CHR 0x27] @ ''. Cutting the tail ''
     @ ''off a file looks the same from here, so compare with an ''
     @ ''off-box copy before concluding which it was.''"
| "finding_text (ForeignPrev n prev) = ''line '' @ nat_str n @ '': first line claims chain_prev '' @ py_str prev
     @ '' but there is no line before it in this file. The lines it binds to are somewhere else, or gone.''"
| "finding_text (ChainNote n note) = ''line '' @ nat_str n @ '': chain_note '' @ py_repr note @ ''. '' @ note_text note"
| "finding_text (Unnumbered n) = nat_str n @ '' unnumbered line(s) at the head of the file''"
| "finding_text (NeverReported n corr) = ''dispatch never reported: line '' @ nat_str n @ '' records an intent for ''
     @ ''corr_id '' @ corr @ '' and no outcome line follows it. The gateway was ''
     @ ''about to dispatch; nothing in this file says it did.''"

section \<open>The walk\<close>

record walk_state =
  wk_failures :: "failure list"
  wk_findings :: "finding list"
  wk_unnumbered :: nat
  wk_expected :: "int option"
  wk_prev :: "string option"
  wk_intents :: "(string \<times> nat) list"
  wk_outcomes :: "string list"

definition walk_start :: walk_state where
  "walk_start = \<lparr>wk_failures = [], wk_findings = [], wk_unnumbered = 0, wk_expected = None, wk_prev = None,
     wk_intents = [], wk_outcomes = []\<rparr>"

definition add_failures :: "failure list \<Rightarrow> walk_state \<Rightarrow> walk_state" where
  "add_failures fs s = s\<lparr>wk_failures := wk_failures s @ fs\<rparr>"

definition add_findings :: "finding list \<Rightarrow> walk_state \<Rightarrow> walk_state" where
  "add_findings fs s = s\<lparr>wk_findings := wk_findings s @ fs\<rparr>"

text \<open>\<open>isinstance(seq, int)\<close> and not a bool.\<close>

definition seq_int :: "json \<Rightarrow> int option" where
  "seq_int v = (case v of JInt n \<Rightarrow> Some n | _ \<Rightarrow> None)"

text \<open>\<open>intents.setdefault(corr, lineno)\<close> or \<open>outcomes.add(corr)\<close>.\<close>

definition note_corr :: "nat \<Rightarrow> dict \<Rightarrow> walk_state \<Rightarrow> walk_state" where
  "note_corr lineno rec s =
     (case get rec ''corr_id'' of
        JStr c \<Rightarrow>
          if get_def rec ''record_kind'' (JStr ''outcome'') = JStr ''intent'' then
            (if map_of (wk_intents s) c = None then s\<lparr>wk_intents := wk_intents s @ [(c, lineno)]\<rparr> else s)
          else s\<lparr>wk_outcomes := wk_outcomes s @ [c]\<rparr>
      | _ \<Rightarrow> s)"

definition gap_failures :: "nat \<Rightarrow> int \<Rightarrow> int option \<Rightarrow> failure list" where
  "gap_failures lineno seq expected =
     (case expected of None \<Rightarrow> []
      | Some e \<Rightarrow> if seq = e then [] else if e < seq then [Gap lineno seq e] else [WentBack lineno seq e])"

definition link_reports :: "nat \<Rightarrow> json \<Rightarrow> string option \<Rightarrow> failure list \<times> finding list" where
  "link_reports lineno chain_prev prev =
     (case prev of
        None \<Rightarrow> ([], if chain_prev \<in> {JNull, JStr (replicate 64 (CHR ''0''))} then []
                    else [ForeignPrev lineno chain_prev])
      | Some raw \<Rightarrow> (if chain_prev = JStr (sha256 raw) then []
                     else [ChainBreak lineno chain_prev (sha256 raw)], []))"

definition walk_numbered :: "nat \<Rightarrow> string \<Rightarrow> dict \<Rightarrow> int \<Rightarrow> walk_state \<Rightarrow> walk_state" where
  "walk_numbered lineno raw rec seq s =
     (let note = get rec ''chain_note'';
          (breaks, foreign) = link_reports lineno (get rec ''chain_prev'') (wk_prev s) in
      (add_findings (foreign @ (if note = JNull then [] else [ChainNote lineno note]))
        (add_failures (gap_failures lineno seq (wk_expected s) @ breaks) s))
        \<lparr>wk_expected := Some (seq + 1), wk_prev := Some raw\<rparr>)"

definition walk_unnumbered :: "nat \<Rightarrow> string \<Rightarrow> walk_state \<Rightarrow> walk_state" where
  "walk_unnumbered lineno raw s =
     (case wk_expected s of
        None \<Rightarrow> s\<lparr>wk_unnumbered := Suc (wk_unnumbered s), wk_prev := Some raw\<rparr>
      | Some e \<Rightarrow> (add_failures [SeqLost lineno] s)\<lparr>wk_prev := Some raw\<rparr>)"

text \<open>One line; \<open>last_partial\<close> is \<open>partial_tail and lineno == len(lines)\<close>.\<close>

definition walk_line :: "bool \<Rightarrow> nat \<Rightarrow> string \<Rightarrow> walk_state \<Rightarrow> walk_state" where
  "walk_line last_partial lineno raw s =
     (case json_loads raw of
        None \<Rightarrow> (if last_partial then add_findings [PartialLine lineno] s
                 else add_failures [NotJson lineno raw] s)\<lparr>wk_prev := Some raw\<rparr>
      | Some (JObj rec) \<Rightarrow>
         (let s1 = note_corr lineno rec s in
          case seq_int (get rec ''seq'') of
            None \<Rightarrow> walk_unnumbered lineno raw s1
          | Some seq \<Rightarrow> walk_numbered lineno raw rec seq s1)
      | Some _ \<Rightarrow> (add_failures [NotObject lineno] s)\<lparr>wk_prev := Some raw\<rparr>)"

text \<open>The loop, from the \<open>k\<close>-th line on.\<close>

fun walk_from :: "bool \<Rightarrow> nat \<Rightarrow> nat \<Rightarrow> string list \<Rightarrow> walk_state \<Rightarrow> walk_state" where
  "walk_from partial len k [] s = s"
| "walk_from partial len k (raw # rest) s =
     walk_from partial len (Suc k) rest (walk_line (partial \<and> Suc k = len) (Suc k) raw s)"

definition never_reported :: "walk_state \<Rightarrow> finding list" where
  "never_reported s = map (\<lambda>(c, n). NeverReported n c)
     (sort_key snd [(c, n) \<leftarrow> wk_intents s. c \<notin> set (wk_outcomes s)])"

definition walk_lines :: "bool \<Rightarrow> string list \<Rightarrow> walk_state" where
  "walk_lines partial lines =
     (let s = walk_from partial (length lines) 0 lines walk_start in
      add_findings ((if wk_unnumbered s = 0 then [] else [Unnumbered (wk_unnumbered s)]) @ never_reported s) s)"

definition EXIT_FINDINGS :: nat where
  "EXIT_FINDINGS = 3"

definition walk_exit :: "walk_state \<Rightarrow> nat" where
  "walk_exit s = (if wk_failures s \<noteq> [] then 1 else if wk_findings s \<noteq> [] then EXIT_FINDINGS else 0)"

definition file_lines :: "string \<Rightarrow> string list" where
  "file_lines data = filter (\<lambda>l. \<not> blank l) (split_on (CHR 0x0A) data)"

text \<open>\<open>read\<close> is what reading the file gives; only an OSError is caught.\<close>

definition walk :: "exc + string \<Rightarrow> exc + nat" where
  "walk read =
     (case read of
        Inl e \<Rightarrow> if is_os_error e then Inr 2 else Inl e
      | Inr data \<Rightarrow>
         (let lines = file_lines data;
              partial = (lines \<noteq> [] \<and> (data = [] \<or> last data \<noteq> CHR 0x0A)) in
          if lines = [] then Inr 0 else Inr (walk_exit (walk_lines partial lines))))"

section \<open>A walk without failures is a whole file\<close>

text \<open>What a line says of itself.\<close>

definition rec_of :: "string \<Rightarrow> dict option" where
  "rec_of raw = (case json_loads raw of Some (JObj d) \<Rightarrow> Some d | _ \<Rightarrow> None)"

definition seq_at :: "string \<Rightarrow> int option" where
  "seq_at raw = Option.bind (rec_of raw) (\<lambda>d. seq_int (get d ''seq''))"

definition prev_at :: "string \<Rightarrow> json" where
  "prev_at raw = (case rec_of raw of None \<Rightarrow> JNull | Some d \<Rightarrow> get d ''chain_prev'')"

text \<open>The declarative reading: every line is an object, but the last of a partial file, which may be
  torn; after a numbered line comes the next number; a numbered line binds the bytes of the line above.\<close>

definition follows :: "string \<Rightarrow> string \<Rightarrow> bool" where
  "follows a b \<longleftrightarrow> (\<forall>n. seq_at a = Some n \<longrightarrow> rec_of b = None \<or> seq_at b = Some (n + 1)) \<and>
     (seq_at b \<noteq> None \<longrightarrow> prev_at b = JStr (sha256 a))"

definition whole :: "bool \<Rightarrow> nat \<Rightarrow> string list \<Rightarrow> bool" where
  "whole partial len ls \<longleftrightarrow>
     (\<forall>i < length ls. rec_of (ls ! i) \<noteq> None \<or> json_loads (ls ! i) = None \<and> partial \<and> Suc i = len) \<and>
     successively follows ls"

lemma walk_from_snoc:
  "walk_from partial len k (xs @ [x]) s =
     walk_line (partial \<and> k + Suc (length xs) = len) (k + Suc (length xs)) x (walk_from partial len k xs s)"
  by (induction xs arbitrary: k s) simp_all

lemma note_corr_fields [simp]:
  "wk_failures (note_corr n d s) = wk_failures s" "wk_findings (note_corr n d s) = wk_findings s"
  "wk_unnumbered (note_corr n d s) = wk_unnumbered s" "wk_expected (note_corr n d s) = wk_expected s"
  "wk_prev (note_corr n d s) = wk_prev s"
  by (auto simp: note_corr_def split: json.split)

lemma add_fields [simp]:
  "wk_failures (add_failures fs s) = wk_failures s @ fs" "wk_findings (add_failures fs s) = wk_findings s"
  "wk_unnumbered (add_failures fs s) = wk_unnumbered s" "wk_expected (add_failures fs s) = wk_expected s"
  "wk_intents (add_failures fs s) = wk_intents s" "wk_outcomes (add_failures fs s) = wk_outcomes s"
  "wk_failures (add_findings gs s) = wk_failures s" "wk_findings (add_findings gs s) = wk_findings s @ gs"
  "wk_unnumbered (add_findings gs s) = wk_unnumbered s" "wk_expected (add_findings gs s) = wk_expected s"
  "wk_intents (add_findings gs s) = wk_intents s" "wk_outcomes (add_findings gs s) = wk_outcomes s"
  "wk_prev (add_failures fs s) = wk_prev s" "wk_prev (add_findings gs s) = wk_prev s"
  by (simp_all add: add_failures_def add_findings_def)

text \<open>One line's verdict, and what the loop's variables say after it.\<close>

definition line_ok :: "bool \<Rightarrow> int option \<Rightarrow> string option \<Rightarrow> string \<Rightarrow> bool" where
  "line_ok last_partial expected prev raw \<longleftrightarrow>
     (rec_of raw \<noteq> None \<or> json_loads raw = None \<and> last_partial) \<and>
     (rec_of raw \<noteq> None \<longrightarrow> (case seq_at raw of
        None \<Rightarrow> expected = None
      | Some n \<Rightarrow> (\<forall>e. expected = Some e \<longrightarrow> n = e) \<and> (\<forall>p. prev = Some p \<longrightarrow> prev_at raw = JStr (sha256 p))))"

lemma walk_line_failures:
  "wk_failures (walk_line b n raw s) = wk_failures s \<longleftrightarrow> line_ok b (wk_expected s) (wk_prev s) raw"
  by (auto simp: walk_line_def line_ok_def rec_of_def seq_at_def prev_at_def walk_numbered_def walk_unnumbered_def
      gap_failures_def link_reports_def Let_def split: option.splits json.splits prod.splits if_splits)

lemma walk_line_keeps: "\<exists>fs. wk_failures (walk_line b n raw s) = wk_failures s @ fs"
  by (auto simp: walk_line_def walk_numbered_def walk_unnumbered_def Let_def
      split: option.split json.split prod.split)

lemma walk_line_vars [simp]:
  "wk_prev (walk_line b n raw s) = Some raw"
  "wk_expected (walk_line b n raw s) = (case seq_at raw of Some q \<Rightarrow> Some (q + 1) | None \<Rightarrow> wk_expected s)"
  by (auto simp: walk_line_def seq_at_def rec_of_def walk_numbered_def walk_unnumbered_def Let_def
      split: option.splits json.splits prod.splits)

lemma whole_snoc:
  "whole partial len (xs @ [x]) \<longleftrightarrow> whole partial len xs \<and>
     (rec_of x \<noteq> None \<or> json_loads x = None \<and> partial \<and> Suc (length xs) = len) \<and>
     (xs \<noteq> [] \<longrightarrow> follows (last xs) x)"
proof -
  have all: "(\<forall>i < length (xs @ [x]). P i ((xs @ [x]) ! i)) \<longleftrightarrow> (\<forall>i < length xs. P i (xs ! i)) \<and> P (length xs) x"
    for P :: "nat \<Rightarrow> string \<Rightarrow> bool" by (auto simp: nth_append less_Suc_eq)
  show ?thesis
    unfolding whole_def successively_append_iff
      all [of "\<lambda>i l. rec_of l \<noteq> None \<or> json_loads l = None \<and> partial \<and> Suc i = len"] by auto
qed

lemma whole_last: "whole partial len xs \<Longrightarrow> xs \<noteq> [] \<Longrightarrow> length xs < len \<Longrightarrow> rec_of (last xs) \<noteq> None"
  by (auto simp: whole_def last_conv_nth)

lemma walk_prev: "wk_prev (walk_from b len 0 xs walk_start) = (if xs = [] then None else Some (last xs))"
  by (cases xs rule: rev_exhaust) (simp_all add: walk_from_snoc walk_start_def)

lemma rec_none_seq: "rec_of x = None \<Longrightarrow> seq_at x = None"
  by (simp add: seq_at_def)

lemma walk_prefix:
  assumes "length xs \<le> len"
  shows "(wk_failures (walk_from b len 0 xs walk_start) = [] \<longleftrightarrow> whole b len xs) \<and>
    (whole b len xs \<and> xs \<noteq> [] \<and> rec_of (last xs) \<noteq> None \<longrightarrow>
       wk_expected (walk_from b len 0 xs walk_start) = map_option (\<lambda>n. n + 1) (seq_at (last xs)))"
  using assms
proof (induction xs rule: rev_induct)
  case Nil
  then show ?case by (simp add: walk_start_def whole_def)
next
  case (snoc x xs)
  let ?s = "walk_from b len 0 xs walk_start"
  let ?p = "b \<and> Suc (length xs) = len"
  have step: "walk_from b len 0 (xs @ [x]) walk_start = walk_line ?p (Suc (length xs)) x ?s"
    by (simp add: walk_from_snoc)
  obtain fs where fs: "wk_failures (walk_line ?p (Suc (length xs)) x ?s) = wk_failures ?s @ fs"
    using walk_line_keeps by blast
  have IH: "wk_failures ?s = [] \<longleftrightarrow> whole b len xs"
    and last: "whole b len xs \<Longrightarrow> xs \<noteq> [] \<Longrightarrow> wk_expected ?s = map_option (\<lambda>n. n + 1) (seq_at (last xs))"
    using snoc whole_last by auto
  have ok: "line_ok ?p (wk_expected ?s) (wk_prev ?s) x \<longleftrightarrow>
      (rec_of x \<noteq> None \<or> json_loads x = None \<and> b \<and> Suc (length xs) = len) \<and> (xs \<noteq> [] \<longrightarrow> follows (last xs) x)"
    if w: "whole b len xs"
  proof (cases xs rule: rev_exhaust)
    case Nil
    then show ?thesis by (auto simp: line_ok_def walk_start_def split: option.split)
  next
    case (snoc ys y)
    then show ?thesis
      using last [OF w] walk_prev [of b len xs] rec_none_seq [of x]
      by (auto simp: line_ok_def follows_def split: option.splits)
  qed
  have "wk_failures (walk_line ?p (Suc (length xs)) x ?s) = [] \<longleftrightarrow> whole b len xs \<and>
      line_ok ?p (wk_expected ?s) (wk_prev ?s) x"
    using fs IH walk_line_failures [of ?p "Suc (length xs)" x ?s] by auto
  with ok have 1: "wk_failures (walk_line ?p (Suc (length xs)) x ?s) = [] \<longleftrightarrow> whole b len (xs @ [x])"
    unfolding whole_snoc by blast
  have 2: "wk_expected (walk_line ?p (Suc (length xs)) x ?s) = map_option (\<lambda>n. n + 1) (seq_at x)"
    if "whole b len (xs @ [x])" "rec_of x \<noteq> None"
  proof (cases "seq_at x")
    case None
    have "line_ok ?p (wk_expected ?s) (wk_prev ?s) x" using that(1) ok unfolding whole_snoc by blast
    with None that(2) show ?thesis by (simp add: line_ok_def)
  qed simp
  show ?case unfolding step using 1 2 by simp
qed

text \<open>C21. The walk reports no integrity failure exactly when the export is whole: every line is a JSON object (the
  last line of a file that ends without a newline may be torn), numbers never skip, repeat or go
  back, and every numbered line's \<open>chain_prev\<close> is the SHA-256 of the line above.\<close>

theorem walk_failures_exact:
  "wk_failures (walk_lines partial ls) = [] \<longleftrightarrow> whole partial (length ls) ls"
  using walk_prefix [of ls "length ls" partial] by (simp add: walk_lines_def Let_def)

section \<open>Findings\<close>

text \<open>The intent or outcome a line reports, and the intents of an export nothing answers.\<close>

definition corr_at :: "string \<Rightarrow> (bool \<times> string) option" where
  "corr_at raw = (case rec_of raw of
     Some d \<Rightarrow> (case get d ''corr_id'' of
       JStr c \<Rightarrow> Some (get_def d ''record_kind'' (JStr ''outcome'') = JStr ''intent'', c) | _ \<Rightarrow> None)
   | None \<Rightarrow> None)"

definition note_at :: "string \<Rightarrow> json" where
  "note_at raw = (case rec_of raw of None \<Rightarrow> JNull | Some d \<Rightarrow> get d ''chain_note'')"

definition open_intent :: "string list \<Rightarrow> bool" where
  "open_intent ls \<longleftrightarrow> (\<exists>c. Some (True, c) \<in> corr_at ` set ls \<and> Some (False, c) \<notin> corr_at ` set ls)"

lemma walk_line_corr:
  "set (map fst (wk_intents (walk_line b n raw s))) = set (map fst (wk_intents s)) \<union> {c. corr_at raw = Some (True, c)}"
  "set (wk_outcomes (walk_line b n raw s)) = set (wk_outcomes s) \<union> {c. corr_at raw = Some (False, c)}"
  by (auto simp: walk_line_def corr_at_def rec_of_def note_corr_def walk_numbered_def walk_unnumbered_def Let_def
      map_of_eq_None_iff split: option.splits json.splits prod.splits if_splits)

lemma walk_corr:
  "set (map fst (wk_intents (walk_from b len 0 xs walk_start))) = {c. Some (True, c) \<in> corr_at ` set xs}"
  "set (wk_outcomes (walk_from b len 0 xs walk_start)) = {c. Some (False, c) \<in> corr_at ` set xs}"
proof (induction xs rule: rev_induct)
  case (snoc x xs)
  case 1
  show ?case unfolding walk_from_snoc walk_line_corr snoc(1) by auto
  case 2
  show ?case unfolding walk_from_snoc walk_line_corr snoc(2) by auto
qed (simp_all add: walk_start_def)

lemma never_reported_empty:
  "never_reported (walk_from b len 0 xs walk_start) = [] \<longleftrightarrow> \<not> open_intent xs"
proof -
  let ?s = "walk_from b len 0 xs walk_start"
  have "never_reported ?s = [] \<longleftrightarrow> (\<forall>c \<in> set (map fst (wk_intents ?s)). c \<in> set (wk_outcomes ?s))"
    by (auto simp: never_reported_def filter_empty_conv simp flip: set_empty)
  then show ?thesis unfolding walk_corr open_intent_def by auto
qed

text \<open>Lines that are all numbered, carry no note and start from genesis cause no finding in the loop.\<close>

definition zeros :: json where
  "zeros = JStr (replicate 64 (CHR ''0''))"

lemma walk_line_findings:
  assumes "seq_at x = Some n"
  shows "wk_findings (walk_line b k x s) = wk_findings s
      @ (if wk_prev s = None \<and> prev_at x \<notin> {JNull, zeros} then [ForeignPrev k (prev_at x)] else [])
      @ (if note_at x = JNull then [] else [ChainNote k (note_at x)])"
    "wk_unnumbered (walk_line b k x s) = wk_unnumbered s"
  using assms
  by (auto simp: walk_line_def seq_at_def rec_of_def prev_at_def note_at_def walk_numbered_def link_reports_def
      zeros_def Let_def split: option.splits json.splits prod.splits if_splits)

lemma walk_findings:
  assumes "\<forall>l \<in> set xs. seq_at l \<noteq> None \<and> note_at l = JNull"
  shows "wk_findings (walk_from b len 0 xs walk_start) =
      (if xs = [] \<or> prev_at (hd xs) \<in> {JNull, zeros} then [] else [ForeignPrev 1 (prev_at (hd xs))]) \<and>
    wk_unnumbered (walk_from b len 0 xs walk_start) = 0"
  using assms
proof (induction xs rule: rev_induct)
  case (snoc x xs)
  then obtain n where "seq_at x = Some n" by auto
  note step = walk_line_findings [OF this]
  show ?case
    using snoc walk_prev [of b len xs] unfolding walk_from_snoc step by (cases xs) auto
qed (simp add: walk_start_def)

lemma walk_exit_numbered:
  assumes "\<forall>l \<in> set ls. seq_at l \<noteq> None \<and> note_at l = JNull"
  shows "walk_exit (walk_lines b ls) =
    (if \<not> whole b (length ls) ls then 1
     else if ls \<noteq> [] \<and> prev_at (hd ls) \<notin> {JNull, zeros} \<or> open_intent ls then 3 else 0)"
proof -
  let ?s = "walk_from b (length ls) 0 ls walk_start"
  have "wk_findings (walk_lines b ls) = [] \<longleftrightarrow> (ls = [] \<or> prev_at (hd ls) \<in> {JNull, zeros}) \<and> \<not> open_intent ls"
    using walk_findings [OF assms, of b "length ls"] never_reported_empty [of b "length ls" ls]
    by (auto simp: walk_lines_def Let_def)
  moreover have "wk_failures (walk_lines b ls) = [] \<longleftrightarrow> whole b (length ls) ls"
    using walk_prefix [of ls "length ls" b] by (simp add: walk_lines_def Let_def)
  ultimately show ?thesis by (auto simp: walk_exit_def EXIT_FINDINGS_def)
qed

text \<open>A first line that is numbered and binds a line this file does not have is always a finding.\<close>

lemma walk_line_adds: "\<exists>gs. wk_findings (walk_line b k x s) = wk_findings s @ gs"
  by (auto simp: walk_line_def walk_numbered_def walk_unnumbered_def Let_def split: option.split json.split prod.split)

lemma walk_from_adds: "\<exists>gs. wk_findings (walk_from b len k xs s) = wk_findings s @ gs"
proof (induction xs arbitrary: k s)
  case (Cons x xs)
  obtain gs where "wk_findings (walk_line (b \<and> Suc k = len) (Suc k) x s) = wk_findings s @ gs"
    using walk_line_adds by blast
  with Cons [of "Suc k" "walk_line (b \<and> Suc k = len) (Suc k) x s"] show ?case by auto
qed simp

lemma first_foreign:
  assumes "ls \<noteq> []" "prev_at (hd ls) \<notin> {JNull, zeros} \<and> (\<forall>l \<in> set ls. seq_at l \<noteq> None)"
  shows "wk_findings (walk_lines b ls) \<noteq> []"
proof -
  obtain x xs where ls: "ls = x # xs" using assms(1) by (cases ls) auto
  obtain n where "seq_at x = Some n" using assms(2) ls by auto
  let ?s = "walk_line (b \<and> Suc 0 = length ls) (Suc 0) x walk_start"
  have "wk_findings ?s \<noteq> []"
    using walk_line_findings(1) [OF \<open>seq_at x = Some n\<close>, of _ "Suc 0" walk_start] assms(2) ls by (simp add: walk_start_def)
  moreover obtain gs where "wk_findings (walk_from b (length ls) (Suc 0) xs ?s) = wk_findings ?s @ gs"
    using walk_from_adds by blast
  ultimately show ?thesis using ls by (simp add: walk_lines_def Let_def)
qed

section \<open>The gateway's exports\<close>

text \<open>An export this gateway wrote: intact, numbered from 1, linked from genesis.\<close>

definition sequenced :: "crypto \<Rightarrow> trace_file \<Rightarrow> bool" where
  "sequenced C f \<longleftrightarrow> intact C f \<and> head_seq f = int (length (read_lines f)) \<and>
     (\<forall>i < length (read_lines f). seq_at (read_lines f ! i) = Some (int i + 1)) \<and>
     successively follows (read_lines f) \<and>
     (read_lines f \<noteq> [] \<longrightarrow> prev_at (hd (read_lines f)) = zeros)"

lemma sequenced_empty [simp]: "sequenced C empty_trace"
  by (simp add: sequenced_def)

lemma seq_at_rec: "seq_at l = Some n \<Longrightarrow> rec_of l \<noteq> None"
  by (cases "rec_of l") (simp_all add: seq_at_def)

lemma sequenced_numbered: "sequenced C f \<Longrightarrow> l \<in> set (read_lines f) \<Longrightarrow> seq_at l \<noteq> None"
  by (auto simp: sequenced_def in_set_conv_nth)

lemma rec_of_canon:
  assumes "reads_back C" "canonical_json C None line = Inr l"
  obtains d where "rec_of l = Some d" "map_of d = map_of line"
  using assms unfolding reads_back_def rec_of_def by fastforce

lemma append_sequenced:
  assumes "reads_back C" "sequenced C f" "head_seq f + 1 < SEQ_LIMIT" "append_line C (name, now, rec) f = (res, f')"
  shows "sequenced C f' \<and> head_seq f' \<le> head_seq f + 1 \<and>
    (\<forall>l. res = Inr l \<longrightarrow> read_lines f' = read_lines f @ [l] \<and> note_at l = get rec ''chain_note'' \<and>
       (\<exists>d. rec_of l = Some d \<and> (\<forall>k. k \<notin> {''seq'', ''chain_prev''} \<longrightarrow> map_of d k = map_of rec k))) \<and>
    (\<forall>e. res = Inl e \<longrightarrow> f' = f)"
proof (cases res)
  case (Inl e)
  then have "f' = f"
    using assms(4) by (auto simp: append_line_def append_trace_line_def Let_def split: prod.splits sum.splits)
  with assms Inl show ?thesis by simp
next
  case (Inr l)
  have i: "intact C f" "head_seq f = int (length (read_lines f))" using assms(2) by (simp_all add: sequenced_def)
  obtain line where line: "append_trace_line C name now NoFault rec f = (Inr line, f')"
      "canonical_json C None line = Inr l"
    using assms(4) Inr by (auto simp: append_line_def split: prod.splits sum.splits)
  let ?prev = "end_hash id GENESIS_CHAIN_PREV (read_lines f)"
  have a: "read_lines f' = read_lines f @ [l]" "intact C f'" "head_seq f' = head_seq f + 1"
      "line = link_record rec (head_seq f + 1, ?prev, None)"
    using append_intact [OF assms(1) i(1) assms(3) line(1)] line(2) by auto
  obtain d where d: "rec_of l = Some d" "map_of d = map_of line" by (rule rec_of_canon [OF assms(1) line(2)])
  note g = get_def_map_of [OF d(2)]
  have at: "seq_at l = Some (head_seq f + 1)" "prev_at l = JStr ?prev" "note_at l = get rec ''chain_note''"
    by (simp_all add: seq_at_def prev_at_def note_at_def d(1) g a(4) seq_int_def) (simp add: link_record_def)
  have others: "\<forall>k. k \<notin> {''seq'', ''chain_prev''} \<longrightarrow> map_of d k = map_of rec k"
    unfolding d(2) a(4) by (simp add: link_record_def update_conv)
  have "follows (last (read_lines f)) l" if "read_lines f \<noteq> []"
  proof -
    have "seq_at (last (read_lines f)) = Some (head_seq f)"
      using assms(2) that i(2) by (cases "length (read_lines f)") (auto simp: sequenced_def last_conv_nth)
    with at that show ?thesis by (simp add: follows_def end_hash_def)
  qed
  moreover have "prev_at (hd (read_lines f @ [l])) = zeros"
    using assms(2) at by (cases "read_lines f") (auto simp: sequenced_def zeros_def end_hash_def GENESIS_CHAIN_PREV_def)
  ultimately have "sequenced C f'"
    using assms(2) a(1-3) at(1) i(2) unfolding sequenced_def
    by (auto simp: successively_append_iff nth_append less_Suc_eq)
  with a at(3) d(1) others Inr show ?thesis by auto
qed

lemma export_sequenced:
  assumes "reads_back C" "sequenced C f" "trace_room (length qs) f"
    and "\<forall>(name, now, rec) \<in> set qs. get rec ''chain_note'' = JNull" "\<forall>l \<in> set (read_lines f). note_at l = JNull"
  shows "let f' = fold (\<lambda>q f. snd (append_line C q f)) qs f in
    sequenced C f' \<and> (\<forall>l \<in> set (read_lines f'). note_at l = JNull)"
  using assms(2-)
proof (induction qs arbitrary: f)
  case (Cons q qs)
  obtain name now rec where q: "q = (name, now, rec)" by (metis surj_pair)
  obtain res f' where r: "append_line C (name, now, rec) f = (res, f')" by (meson surj_pair)
  have "head_seq f + 1 < SEQ_LIMIT" using Cons.prems(2) by (simp add: trace_room_def)
  note step = append_sequenced [OF assms(1) Cons.prems(1) this r]
  have "trace_room (length qs) f'" using step Cons.prems(2) by (simp add: trace_room_def)
  moreover have "\<forall>l \<in> set (read_lines f'). note_at l = JNull"
    using step Cons.prems(3,4) q by (cases res) auto
  ultimately have "let f'' = fold (\<lambda>q f. snd (append_line C q f)) qs f' in
      sequenced C f'' \<and> (\<forall>l \<in> set (read_lines f''). note_at l = JNull)"
    using step Cons.prems(3) by (intro Cons.IH) auto
  then show ?case by (simp add: q r)
qed simp

lemma sequenced_whole: "sequenced C f \<Longrightarrow> whole b n (read_lines f)"
  unfolding sequenced_def whole_def using seq_at_rec by blast

lemma walk_intact:
  assumes "reads_back C" "sequenced C f" "\<forall>l \<in> set (read_lines f). note_at l = JNull" "export f = Some data"
  shows "walk (Inr data) = Inr (if open_intent (read_lines f) then 3 else 0)"
proof -
  have lines: "file_lines data = read_lines f" by (simp add: file_lines_def read_lines_def assms(4))
  have num: "\<forall>l \<in> set (read_lines f). seq_at l \<noteq> None \<and> note_at l = JNull"
    using sequenced_numbered [OF assms(2)] assms(3) by blast
  have hd: "read_lines f = [] \<or> prev_at (hd (read_lines f)) = zeros" using assms(2) by (auto simp: sequenced_def)
  have empty: "\<not> open_intent []" by (simp add: open_intent_def)
  show ?thesis
    using walk_exit_numbered [OF num] sequenced_whole [OF assms(2)] hd empty
    by (auto simp: walk_def lines Let_def)
qed


section \<open>What a clean walk pins\<close>

lemma pinned_suffix:
  assumes "successively follows xs" "successively follows ys" "xs \<noteq> []" "ys \<noteq> []" "last xs = last ys"
    and "\<forall>l \<in> set xs. seq_at l \<noteq> None" "prev_at (hd xs) = zeros"
    and "\<not> collide id xs ys" "\<forall>y \<in> set (butlast ys). JStr (sha256 y) \<noteq> zeros"
  shows "\<exists>k. ys = drop k xs"
  using assms
proof (induction xs arbitrary: ys rule: rev_induct)
  case (snoc x xs)
  obtain zs where ys: "ys = zs @ [x]" using snoc.prems(4,5) by (cases ys rule: rev_exhaust) auto
  show ?case
  proof (cases zs rule: rev_exhaust)
    case Nil
    with ys show ?thesis by (intro exI [of _ "length xs"]) simp
  next
    case z: (snoc us z)
    have "follows z x" using snoc.prems(2) ys z by (simp add: successively_append_iff)
    then have prev: "prev_at x = JStr (sha256 z)" using snoc.prems(6) by (simp add: follows_def)
    show ?thesis
    proof (cases xs rule: rev_exhaust)
      case Nil
      with snoc.prems(7,9) prev ys z show ?thesis by (simp add: butlast_append)
    next
      case w: (snoc vs v)
      have "follows v x" using snoc.prems(1) w by (simp add: successively_append_iff)
      then have "sha256 v = sha256 z" using snoc.prems(6) prev by (simp add: follows_def)
      then have "v = z" using snoc.prems(8) w ys z by (auto simp: collide_def)
      then have "\<exists>k. zs = drop k xs"
        using snoc.prems w ys z by (intro snoc.IH) (auto simp: successively_append_iff collide_def hd_append butlast_append)
      then obtain k where k: "zs = drop k xs" by blast
      moreover have "k \<le> length xs" using k z by (cases "k \<le> length xs") auto
      ultimately show ?thesis using ys by (intro exI [of _ k]) simp
    qed
  qed
qed simp

text \<open>C23. A clean walk pins the whole export: any file whose walk exits 0 and whose last line is the last line of an
  export the gateway wrote has exactly that export's lines, so nothing was removed, reordered, edited or put
  in, unless SHA-256 collides on two lines or maps a line to the genesis value.\<close>

theorem clean_walk_pins_export:
  assumes "sequenced C f" "walk (Inr data) = Inr 0" "file_lines data \<noteq> []" "read_lines f \<noteq> []"
    and "last (file_lines data) = last (read_lines f)"
    and "\<not> collide id (read_lines f) (file_lines data)"
    and "\<forall>l \<in> set (butlast (read_lines f)) \<union> set (butlast (file_lines data)). JStr (sha256 l) \<noteq> zeros"
  shows "file_lines data = read_lines f"
proof -
  let ?ls = "file_lines data" and ?xs = "read_lines f"
  obtain b where x: "walk_exit (walk_lines b ?ls) = 0" using assms(2,3) by (auto simp: walk_def Let_def)
  then have w: "whole b (length ?ls) ?ls" "wk_findings (walk_lines b ?ls) = []"
    using walk_prefix [of ?ls "length ?ls" b]
    by (auto simp: walk_exit_def walk_lines_def Let_def EXIT_FINDINGS_def split: if_splits)
  have xs: "successively follows ?xs" "prev_at (hd ?xs) = zeros" "\<forall>l \<in> set ?xs. seq_at l \<noteq> None"
    using assms(1,4) sequenced_numbered [OF assms(1)] by (auto simp: sequenced_def)
  obtain k where k: "?ls = drop k ?xs"
    using pinned_suffix [OF xs(1) _ assms(4,3) assms(5) [symmetric] xs(3,2) assms(6)] w(1) assms(7)
    by (auto simp: whole_def)
  have "k = 0"
  proof (rule ccontr)
    assume "k \<noteq> 0"
    moreover have less: "k < length ?xs" using k assms(3) by (metis drop_eq_Nil leI)
    ultimately have cut: "?xs = take (k - 1) ?xs @ [?xs ! (k - 1), ?xs ! k] @ drop (Suc k) ?xs"
      by (metis Suc_diff_1 append_take_drop_id Cons_nth_drop_Suc append_Cons append_Nil gr0I less_imp_diff_less)
    have "follows (?xs ! (k - 1)) (?xs ! k)"
      using xs(1) by (subst (asm) cut) (simp only: successively_append_iff, simp)
    moreover have "seq_at (?xs ! k) \<noteq> None" using xs(3) less by simp
    ultimately have p: "prev_at (hd ?ls) = JStr (sha256 (?xs ! (k - 1)))"
      using k less by (simp add: follows_def hd_drop_conv_nth)
    have "?xs ! (k - 1) \<in> set (butlast ?xs)"
      using less \<open>k \<noteq> 0\<close> by (auto simp: in_set_conv_nth nth_butlast intro!: exI [of _ "k - 1"])
    then have "prev_at (hd ?ls) \<noteq> zeros" using p assms(7) by auto
    moreover have "\<forall>l \<in> set ?ls. seq_at l \<noteq> None" using k xs(3) set_drop_subset [of k ?xs] by auto
    moreover have "prev_at (hd ?ls) \<noteq> JNull" using p by simp
    ultimately have "prev_at (hd ?ls) \<notin> {JNull, zeros} \<and> (\<forall>l \<in> set ?ls. seq_at l \<noteq> None)" by simp
    with first_foreign [of ?ls b] assms(3) w(2) show False by simp
  qed
  with k show ?thesis by simp
qed

section \<open>A one-line export\<close>

definition demo_export :: trace_file where
  "demo_export = snd (append_line demo_crypto (''t'', ''now'', [(''v'', JNull)]) empty_trace)"

lemma demo_export_line:
  obtains l where "read_lines demo_export = [l]" "note_at l = JNull" "corr_at l = None" "sequenced demo_crypto demo_export"
    "export demo_export \<noteq> None"
proof -
  let ?rec = "[(''v'', JNull)]"
  have link: "next_trace_link empty_trace = (1, GENESIS_CHAIN_PREV, None)"
    by (simp add: next_trace_link_def read_trace_head_def empty_trace_def read_lines_def)
  have "length (nat_str 1) \<le> 4300" by code_simp
  then obtain l where canon: "canonical_json demo_crypto None (link_record ?rec (1, GENESIS_CHAIN_PREV, None)) = Inr l"
    by (simp add: demo_crypto_def link_record_def)
  have "fst (append_line demo_crypto (''t'', ''now'', ?rec) empty_trace) = Inr l"
    unfolding append_line_def append_trace_line_def link Let_def prod.case canon sum.case io_fault.case by simp
  then have l: "append_line demo_crypto (''t'', ''now'', ?rec) empty_trace = (Inr l, demo_export)"
    unfolding demo_export_def by (metis prod.collapse)
  have "head_seq empty_trace + 1 < SEQ_LIMIT" by (simp add: SEQ_LIMIT_room)
  note step = append_sequenced [OF demo_crypto_laws(3) sequenced_empty this l]
  have lines: "read_lines demo_export = [l]" using step by simp
  obtain d where d: "rec_of l = Some d" "\<forall>k. k \<notin> {''seq'', ''chain_prev''} \<longrightarrow> map_of d k = map_of ?rec k"
    using step by blast
  then have "map_of d ''corr_id'' = None" by simp
  with d(1) have "corr_at l = None" by (simp add: corr_at_def get_def_def)
  moreover have "note_at l = JNull" using step by simp
  moreover have "export demo_export \<noteq> None" using lines by (auto simp: read_lines_def split: option.splits)
  ultimately show thesis using step lines that [of l] by blast
qed

lemma demo_export_facts:
  "sequenced demo_crypto demo_export" "\<forall>l \<in> set (read_lines demo_export). note_at l = JNull"
  "\<not> open_intent (read_lines demo_export)" "read_lines demo_export \<noteq> []"
  "export demo_export = Some (the (export demo_export))" "butlast (read_lines demo_export) = []"
  "\<not> collide id (read_lines demo_export) (read_lines demo_export)"
proof -
  obtain l where l: "read_lines demo_export = [l]" "note_at l = JNull" "corr_at l = None"
    "sequenced demo_crypto demo_export" "export demo_export \<noteq> None" by (rule demo_export_line)
  then show "sequenced demo_crypto demo_export" "\<forall>l \<in> set (read_lines demo_export). note_at l = JNull"
    "\<not> open_intent (read_lines demo_export)" "read_lines demo_export \<noteq> []"
    "export demo_export = Some (the (export demo_export))" "butlast (read_lines demo_export) = []"
    "\<not> collide id (read_lines demo_export) (read_lines demo_export)"
    by (auto simp: open_intent_def collide_def)
qed


theorem clean_walk_pins_export_witness:
  "file_lines (the (export demo_export)) = read_lines demo_export"
proof -
  let ?data = "the (export demo_export)"
  have lines: "file_lines ?data = read_lines demo_export"
    using demo_export_facts(5) by (auto simp: file_lines_def read_lines_def split: option.splits)
  have clean: "walk (Inr ?data) = Inr 0"
    using walk_intact [OF demo_crypto_laws(3) demo_export_facts(1,2,5)] demo_export_facts(3) by simp
  show ?thesis
    by (rule clean_walk_pins_export [OF demo_export_facts(1) clean])
      (unfold lines, use demo_export_facts in simp_all)
qed

end
