(* ===== verification/Verify_Receipt.thy ===== *)
theory Verify_Receipt
  imports Export_Walk Receiver_Records "HOL-Library.Multiset"
begin

text \<open>
  The rest of \<open>scripts/verify_receipt.py\<close>: the stand-alone check of one receipt. It has its own canonical
  form (\<open>canonical\<close>), finds the signed outcome in any receipt shape, and asserts both directions: the
  signature verifies, and a copy with one byte flipped does not. An exit code is a value, \<open>SystemExit2\<close>
  is an \<open>abort\<close> with its message, an exception nothing catches is \<open>Inl\<close>. Text is UTF-8, so encoding it
  is the identity (lone surrogates are not modelled); what is printed is not modelled, and a number of more
  than 4300 digits counts as unreadable JSON. The lemmas: the flip always changes the text, the
  canonical bytes tell two values of one key apart, and the gateway's own receipts pass.
\<close>

section \<open>The canonical form\<close>

text \<open>\<open>_normalize\<close>: a float that is an integer becomes that int.\<close>

fun normalize :: "json \<Rightarrow> json" where
  "normalize (JFloat (FFin r)) = (if of_int \<lfloor>r\<rfloor> = r then JInt \<lfloor>r\<rfloor> else JFloat (FFin r))"
| "normalize (JObj d) = JObj (map (\<lambda>kv. (fst kv, normalize (snd kv))) d)"
| "normalize (JArr xs) = JArr (map normalize xs)"
| "normalize v = v"

text \<open>\<open>sort_keys=True\<close>, at every depth; \<open>dumps\<close> has the compact separators and no ASCII escaping.\<close>

fun sort_keys :: "json \<Rightarrow> json" where
  "sort_keys (JObj d) = JObj (sort_key fst (map (\<lambda>kv. (fst kv, sort_keys (snd kv))) d))"
| "sort_keys (JArr xs) = JArr (map sort_keys xs)"
| "sort_keys v = v"

definition canonical :: "string option \<Rightarrow> dict \<Rightarrow> string" where
  "canonical exclude body =
     dumps (sort_keys (normalize (JObj (case exclude of None \<Rightarrow> body | Some k \<Rightarrow> without k body))))"

section \<open>Reading a receipt\<close>

datatype abort = SystemExit2 string | Uncaught exc

definition signed_part :: "json \<Rightarrow> dict option" where
  "signed_part v = (case v of JObj d \<Rightarrow> if map_of d ''envelope_signature'' = None then None else Some d | _ \<Rightarrow> None)"

fun is_obj :: "json \<Rightarrow> bool" where
  "is_obj (JObj _) = True"
| "is_obj _ = False"

definition NO_OUTCOME :: string where
  "NO_OUTCOME = ''no signed outcome (with envelope_signature) found in receipt''"

definition INTENT_RECORD :: string where
  "INTENT_RECORD = ''this is an INTENT record, not an outcome: it says a dispatch was ''
     @ ''about to happen and says nothing about whether it did. Verify the ''
     @ ''outcome record with the same corr_id, or use --walk on the export ''
     @ ''to see whether one exists at all''"

definition extract_outcome :: "json \<Rightarrow> abort + dict" where
  "extract_outcome receipt =
     (case receipt of
        JObj r \<Rightarrow>
          if get r ''record_kind'' = JStr ''intent'' \<or> is_obj (get r ''intent'') \<and> map_of r ''outcome'' = None
          then Inl (SystemExit2 INTENT_RECORD)
          else (case signed_part (get r ''outcome'') of
             Some out \<Rightarrow> Inr out
           | None \<Rightarrow>
              (case (case get r ''detail'' of JObj d \<Rightarrow> signed_part (get d ''outcome'') | _ \<Rightarrow> None) of
                 Some out \<Rightarrow> Inr out
               | None \<Rightarrow>
                  if map_of r ''envelope_signature'' \<noteq> None \<and> map_of r ''status'' \<noteq> None then Inr r
                  else Inl (SystemExit2 NO_OUTCOME)))
      | _ \<Rightarrow> Inl (Uncaught AttributeError))"

definition SUPPORTED_RECEIPT_VERSIONS :: "int list" where
  "SUPPORTED_RECEIPT_VERSIONS = [1, 2]"

definition receipt_version :: "dict \<Rightarrow> abort + int" where
  "receipt_version outcome =
     (case get outcome ''receipt_version'' of
        JNull \<Rightarrow> Inr 1
      | JInt n \<Rightarrow>
          if n \<in> set SUPPORTED_RECEIPT_VERSIONS then Inr n
          else Inl (SystemExit2 (''receipt_version '' @ int_str n @ '' is newer than this verifier understands (knows ''
            @ ''[1, 2]); upgrade robot-md-gateway and re-run''))
      | raw \<Rightarrow> Inl (SystemExit2 (''receipt_version '' @ py_repr raw @ '' is not an integer'')))"

text \<open>\<open>read\<close> is what reading the key file gives.\<close>

definition load_pubkey :: "crypto \<Rightarrow> string \<Rightarrow> exc + string \<Rightarrow> abort + string" where
  "load_pubkey C path read =
     (case read of
        Inl (OSError m) \<Rightarrow> Inl (SystemExit2 (''cannot read pubkey '' @ path @ '': '' @ m))
      | Inl e \<Rightarrow> Inl (Uncaught e)
      | Inr pem \<Rightarrow>
          (case load_pem_public_key C pem of
             PemValueError m \<Rightarrow> Inl (SystemExit2 (''bad public key PEM '' @ path @ '': '' @ m))
           | PemRaises e \<Rightarrow> Inl (Uncaught e)
           | PemKey OtherKey \<Rightarrow> Inl (SystemExit2 (path @ '' is not an Ed25519 public key''))
           | PemKey (Ed25519PublicKey pub) \<Rightarrow> Inr pub))"

text \<open>The signature's base64 may be anything the JSON holds: a value that is not a str raises
  \<open>TypeError\<close>, which is not caught.\<close>

definition verify :: "crypto \<Rightarrow> dict \<Rightarrow> string \<Rightarrow> exc + bool" where
  "verify C outcome pub =
     (case get outcome ''envelope_signature'' of
        JObj block \<Rightarrow>
          (case map_of block ''sig'' of
             None \<Rightarrow> Inr False
           | Some v \<Rightarrow>
               (case b64decode_json v of
                  Inl e \<Rightarrow> if is_value_error e then Inr False else Inl e
                | Inr sig \<Rightarrow> Inr (ed_verify C pub sig (canonical (Some ''envelope_signature'') outcome))))
      | _ \<Rightarrow> Inr False)"

section \<open>The tamper check\<close>

text \<open>\<open>bytes.decode("utf-8")\<close> succeeds: no stray or missing continuation byte, no overlong form, no
  surrogate, nothing above U+10FFFF.\<close>

definition cont :: "char \<Rightarrow> bool" where
  "cont c = (let n = of_char c :: nat in 128 \<le> n \<and> n \<le> 191)"

fun utf8_ok :: "string \<Rightarrow> bool" where
  "utf8_ok [] = True"
| "utf8_ok (a # r) = (let n = of_char a :: nat in
     if n < 128 then utf8_ok r
     else case r of [] \<Rightarrow> False
     | b # r2 \<Rightarrow>
       if 194 \<le> n \<and> n \<le> 223 then cont b \<and> utf8_ok r2
       else case r2 of [] \<Rightarrow> False
       | c # r3 \<Rightarrow>
         if 224 \<le> n \<and> n \<le> 239 then
           cont b \<and> cont c \<and> (n = 224 \<longrightarrow> 160 \<le> (of_char b :: nat)) \<and> (n = 237 \<longrightarrow> (of_char b :: nat) \<le> 159) \<and> utf8_ok r3
         else case r3 of [] \<Rightarrow> False
         | d # r4 \<Rightarrow>
           240 \<le> n \<and> n \<le> 244 \<and> cont b \<and> cont c \<and> cont d \<and> (n = 240 \<longrightarrow> 144 \<le> (of_char b :: nat))
           \<and> (n = 244 \<longrightarrow> (of_char b :: nat) \<le> 143) \<and> utf8_ok r4)"

text \<open>\<open>b ^ 0x01\<close> of a byte.\<close>

definition flip_low_bit :: "char \<Rightarrow> char" where
  "flip_low_bit c = (let n = of_char c :: nat in char_of (if even n then n + 1 else n - 1))"

definition flip_one_byte :: "string \<Rightarrow> string" where
  "flip_one_byte s =
     (case s of [] \<Rightarrow> ''X''
      | b # r \<Rightarrow> if utf8_ok (flip_low_bit b # r) then flip_low_bit b # r else s @ ''!'')"

definition tampered_copy :: "int \<Rightarrow> dict \<Rightarrow> dict" where
  "tampered_copy version outcome =
     (if 2 \<le> version then
        AList.update ''caller'' (JStr (flip_one_byte (py_str (py_or (get outcome ''caller'') (JStr ''x''))))) outcome
      else AList.update ''corr_id'' (JStr (flip_one_byte (py_str (get_def outcome ''corr_id'' (JStr ''x''))))) outcome)"

section \<open>The command\<close>

record verify_args =
  va_receipt :: "string option"
  va_pubkey :: "string option"
  va_walk :: "string option"
  va_no_tamper :: bool

definition given :: "string option \<Rightarrow> string option" where
  "given x = (if x = Some [] then None else x)"

text \<open>From \<open>kid = outcome["envelope_signature"].get("kid")\<close> on.\<close>

definition check_outcome :: "crypto \<Rightarrow> dict \<Rightarrow> int \<Rightarrow> string \<Rightarrow> bool \<Rightarrow> exc + nat" where
  "check_outcome C outcome version pub no_tamper =
     bindE (item (JObj outcome) ''envelope_signature'') (\<lambda>block.
     bindE (py_get block ''kid'') (\<lambda>kid.
     bindE (verify C outcome pub) (\<lambda>authentic.
       if \<not> authentic then Inr 1
       else if 2 \<le> version \<and> (map_of outcome ''caller'' = None \<or> map_of outcome ''tier'' = None) then Inr 1
       else if no_tamper then Inr 0
       else bindE (verify C (tampered_copy version outcome) pub) (\<lambda>still.
         Inr (if still then 1 else 0)))))"

definition open_receipt :: "crypto \<Rightarrow> string \<Rightarrow> exc + string \<Rightarrow> json \<Rightarrow> abort + dict \<times> int \<times> string" where
  "open_receipt C key_path key_read receipt =
     bindE (extract_outcome receipt) (\<lambda>outcome.
     bindE (receipt_version outcome) (\<lambda>version.
     bindE (load_pubkey C key_path key_read) (\<lambda>pub. Inr (outcome, version, pub))))"

definition check_receipt :: "crypto \<Rightarrow> string \<Rightarrow> exc + string \<Rightarrow> bool \<Rightarrow> json \<Rightarrow> exc + nat" where
  "check_receipt C key_path key_read no_tamper receipt =
     (case open_receipt C key_path key_read receipt of
        Inl (SystemExit2 m) \<Rightarrow> Inr 2
      | Inl (Uncaught e) \<Rightarrow> Inl e
      | Inr (outcome, version, pub) \<Rightarrow> check_outcome C outcome version pub no_tamper)"

text \<open>\<open>read\<close> is the file system; a receipt file that is not UTF-8 raises \<open>UnicodeDecodeError\<close>, which is
  neither of the two exceptions caught.\<close>

definition main :: "crypto \<Rightarrow> (string \<Rightarrow> exc + string) \<Rightarrow> verify_args \<Rightarrow> exc + nat" where
  "main C read args =
     (case given (va_walk args) of
        Some path \<Rightarrow> if given (va_receipt args) \<noteq> None then Inr 2 else walk (read path)
      | None \<Rightarrow>
         (case (given (va_receipt args), given (va_pubkey args)) of
            (Some path, Some key_path) \<Rightarrow>
              (case read path of
                 Inl e \<Rightarrow> if is_os_error e then Inr 2 else Inl e
               | Inr data \<Rightarrow>
                   if \<not> utf8_ok data then Inl UnicodeDecodeError
                   else case json_loads data of None \<Rightarrow> Inr 2
                   | Some receipt \<Rightarrow> check_receipt C key_path (read key_path) (va_no_tamper args) receipt)
          | _ \<Rightarrow> Inr 2))"

section \<open>The flip and the canonical bytes\<close>

lemma flip_low_bit_neq: "flip_low_bit c \<noteq> c"
proof -
  define n where "n = (of_char c :: nat)"
  have less: "n < 256" unfolding n_def by (rule nat_of_char_less_256)
  then have "(if even n then n + 1 else n - 1) < 256" "(if even n then n + 1 else n - 1) \<noteq> n" by presburger+
  then have "(of_char (char_of (if even n then n + 1 else n - 1)) :: nat) \<noteq> n" by (simp only: of_char_of mod_less not_False_eq_True)
  then show ?thesis unfolding flip_low_bit_def Let_def n_def by metis
qed

lemma flip_one_byte_neq: "flip_one_byte s \<noteq> s" "flip_one_byte s \<noteq> []"
  by (auto simp: flip_one_byte_def flip_low_bit_neq split: list.split)

lemma dump_str_inj: "dump_str s = dump_str t \<Longrightarrow> s = t"
proof -
  assume "dump_str s = dump_str t"
  then have "concat (map esc_char s) @ CHR 0x22 # [] = concat (map esc_char t) @ CHR 0x22 # []"
    unfolding dump_str_def by (rule list.inject [THEN iffD1, THEN conjunct2])
  then have "Some (s, []) = Some (t, [] :: string)" by (metis pstring_dump)
  then show "s = t" by simp
qed

text \<open>Only a str is printed with a leading quote.\<close>

lemma nat_str_no_quote: "CHR 0x22 \<notin> set (nat_str n)"
  using nat_str_digits [of n] by (auto simp: is_digit_def)

lemma layout_no_quote: "CHR 0x22 \<notin> set ds \<Longrightarrow> CHR 0x22 \<notin> set (layout_digits ds u)"
  using in_set_takeD [of "CHR 0x22" _ ds] in_set_dropD [of "CHR 0x22" _ ds] nat_str_no_quote
  by (auto simp: layout_digits_def Let_def)

lemma rstrip_char_subset: "set (rstrip_char c s) \<subseteq> set s"
  unfolding rstrip_char_def using set_dropWhileD [of _ _ "rev s"] by fastforce

lemma float_repr_no_quote: "CHR 0x22 \<notin> set (float_repr f)"
proof (cases f)
  case (FFin r)
  have "CHR 0x22 \<notin> set (rstrip_char (CHR ''0'') (nat_str m))" for m
    using rstrip_char_subset [of "CHR ''0''" "nat_str m"] nat_str_no_quote [of m] by blast
  then show ?thesis using layout_no_quote by (auto simp: FFin Let_def split: prod.split)
qed simp_all

lemma dumps_str: "dumps v = dumps (JStr s) \<longleftrightarrow> v = JStr s"
proof
  assume e: "dumps v = dumps (JStr s)"
  then have q: "hd (dumps v) = CHR 0x22" "CHR 0x22 \<in> set (dumps v)" by (simp_all add: dump_str_def)
  show "v = JStr s"
  proof (cases v)
    case (JInt i)
    with q show ?thesis using nat_str_no_quote by (auto simp: int_str_def split: if_splits)
  next
    case (JFloat f)
    with q show ?thesis using float_repr_no_quote [of f] by (auto simp: dump_float_def split: pyfloat.splits if_splits)
  next
    case (JStr t)
    with e show ?thesis using dump_str_inj by simp
  qed (use q in \<open>auto split: if_splits\<close>)
qed simp

text \<open>Sorting moves whole members, so changing one value changes the text in that member only.\<close>

lemma insort_map: "(\<And>kv. fst (h kv) = fst kv) \<Longrightarrow> insort_key fst (h x) (map h d) = map h (insort_key fst x d)"
  by (induction d) auto

lemma sort_map: "(\<And>kv. fst (h kv) = fst kv) \<Longrightarrow> sort_key fst (map h d) = map h (sort_key fst d)"
  by (induction d) (simp_all add: insort_map)

definition printed :: "string \<times> json \<Rightarrow> string \<times> json" where
  "printed kv = (fst kv, sort_keys (normalize (snd kv)))"

lemma canonical_members:
  "canonical None d = ''{'' @ dump_members (map printed (sort_key fst d)) @ ''}''"
proof -
  have "sort_key fst (map printed d) = map printed (sort_key fst d)"
    by (rule sort_map) (simp add: printed_def)
  moreover have "map (\<lambda>kv. (fst kv, sort_keys (snd kv))) (map (\<lambda>kv. (fst kv, normalize (snd kv))) d) = map printed d"
    by (simp add: printed_def)
  ultimately show ?thesis by (simp only: canonical_def option.case normalize.simps sort_keys.simps dumps.simps)
qed

lemma canonical_exclude: "canonical (Some k) d = canonical None (without k d)"
  by (simp add: canonical_def)

definition set_at :: "string \<Rightarrow> json \<Rightarrow> string \<times> json \<Rightarrow> string \<times> json" where
  "set_at k v kv = (fst kv, if fst kv = k then v else snd kv)"

lemma map_set_at_absent: "k \<notin> fst ` set d \<Longrightarrow> map (set_at k v) d = d"
  by (intro map_idI) (force simp: set_at_def)

lemma update_present:
  "distinct (map fst d) \<Longrightarrow> k \<in> fst ` set d \<Longrightarrow> AList.update k v d = map (set_at k v) d"
proof (induction d)
  case (Cons kv d)
  obtain k' w where kv: "kv = (k', w)" by (metis surj_pair)
  show ?case
  proof (cases "k' = k")
    case True
    with Cons.prems map_set_at_absent [of k d v] show ?thesis by (simp add: kv) (simp add: set_at_def)
  next
    case False
    with Cons have "AList.update k v d = map (set_at k v) d" by (auto simp: kv)
    with False show ?thesis by (simp add: kv) (simp add: set_at_def)
  qed
qed simp

lemma update_absent: "k \<notin> fst ` set d \<Longrightarrow> AList.update k v d = d @ [(k, v)]"
  by (induction d) auto

lemma members_differ:
  assumes "distinct (map fst d)" "(k, w) \<in> set d" "dumps (sort_keys (normalize v)) \<noteq> dumps (sort_keys (normalize w))"
  shows "dump_members (map printed (map (set_at k v) d)) \<noteq> dump_members (map printed d)"
  using assms
proof (induction d)
  case (Cons kv d)
  obtain k' w' where kv: "kv = (k', w')" by (metis surj_pair)
  have e: "map printed (map (set_at k v) d) = [] \<longleftrightarrow> map printed d = []" by simp
  show ?case
  proof (cases "k' = k")
    case True
    with Cons.prems(1,2) kv have w: "w' = w" by force
    have "map (set_at k v) d = d" using Cons.prems(1) True kv by (intro map_set_at_absent) auto
    with True w Cons.prems(3) show ?thesis by (simp add: kv printed_def set_at_def [of k v "(k, _)"])
  next
    case False
    then have "(k, w) \<in> set d" using Cons.prems(2) kv by simp
    with Cons have "dump_members (map printed (map (set_at k v) d)) \<noteq> dump_members (map printed d)" "d \<noteq> []" by auto
    with False show ?thesis by (simp add: kv printed_def [of "(k', _)"] set_at_def [of k v "(k', _)"])
  qed
qed simp

text \<open>An added member makes the text longer.\<close>

definition member_size :: "string \<times> json \<Rightarrow> nat" where
  "member_size kv = length (dump_str (fst kv)) + length (dumps (snd kv)) + 2"

lemma members_length: "d \<noteq> [] \<Longrightarrow> Suc (length (dump_members d)) = (\<Sum>kv\<leftarrow>d. member_size kv)"
proof (induction d)
  case (Cons kv d)
  obtain k v where "kv = (k, v)" by (metis surj_pair)
  with Cons show ?case by (cases "d = []") (simp_all add: member_size_def)
qed simp

lemma sum_sort: "(\<Sum>x\<leftarrow>sort_key f d. g x) = (\<Sum>x\<leftarrow>d. g x)" for g :: "'a \<Rightarrow> nat"
  by (metis mset_map mset_sort sum_mset_sum_list)

lemma canonical_length:
  assumes "d \<noteq> []"
  shows "length (canonical None d) = Suc (\<Sum>kv\<leftarrow>d. member_size (printed kv))"
proof -
  have "sort_key fst d \<noteq> []" using assms by (metis length_0_conv length_sort)
  then show ?thesis
    using members_length [of "map printed (sort_key fst d)"] sum_sort [of "\<lambda>kv. member_size (printed kv)" fst d]
    by (simp add: canonical_members o_def)
qed

lemma normal_str: "dumps (sort_keys (normalize v)) = dumps (JStr s) \<longleftrightarrow> v = JStr s"
  unfolding dumps_str by (cases v rule: normalize.cases) (auto simp: Let_def)

text \<open>Writing a str under a key that held another value changes the canonical bytes.\<close>

lemma canonical_update:
  assumes "distinct (map fst d)" "map_of d k \<noteq> Some (JStr s)"
  shows "canonical None (AList.update k (JStr s) d) \<noteq> canonical None d"
proof (cases "k \<in> fst ` set d")
  case True
  then obtain w where w: "(k, w) \<in> set d" by force
  then have "w \<noteq> JStr s" using assms by auto
  then have differ: "dumps (sort_keys (normalize (JStr s))) \<noteq> dumps (sort_keys (normalize w))"
    by (metis normal_str)
  have "mset (map fst (sort_key fst d)) = mset (map fst d)" by simp
  then have "distinct (map fst (sort_key fst d))" using assms(1) mset_eq_imp_distinct_iff by blast
  moreover have "(k, w) \<in> set (sort_key fst d)" using w by simp
  moreover have "sort_key fst (AList.update k (JStr s) d) = map (set_at k (JStr s)) (sort_key fst d)"
    unfolding update_present [OF assms(1) True] by (rule sort_map) (simp add: set_at_def)
  ultimately show ?thesis using members_differ differ by (simp add: canonical_members)
next
  case False
  show ?thesis
  proof (cases "d = []")
    case True
    then show ?thesis by (simp add: canonical_members dump_str_def printed_def)
  next
    case nonempty: False
    then have "length (canonical None (d @ [(k, JStr s)])) > length (canonical None d)"
      by (simp add: canonical_length member_size_def)
    with False show ?thesis by (auto simp: update_absent)
  qed
qed

lemma without_update_other: "k \<noteq> k' \<Longrightarrow> without k (AList.update k' v d) = AList.update k' v (without k d)"
  by (induction d) (auto simp: without_def)

lemma distinct_without: "distinct (map fst d) \<Longrightarrow> distinct (map fst (without k d))"
  unfolding without_def by (rule distinct_map_filter)

lemma map_of_without: "k \<noteq> k' \<Longrightarrow> map_of (without k d) k' = map_of d k'"
  by (induction d) (auto simp: without_def)

text \<open>The flipped text is never the one that was there.\<close>

lemma get_present: "map_of d k = Some v \<Longrightarrow> get_def d k x = v"
  by (simp add: get_def_def)

lemma flipped_text: "v \<noteq> JStr (flip_one_byte (py_str v))"
  using flip_one_byte_neq(1) [THEN not_sym] by (cases v) (auto simp: py_str_def)

lemma flipped_get: "map_of d k \<noteq> Some (JStr (flip_one_byte (py_str (get_def d k x))))"
  using get_present flipped_text by metis

lemma flipped_or:
  assumes "v = get d k"
  shows "map_of d k \<noteq> Some (JStr (flip_one_byte (py_str (py_or v x))))"
proof
  let ?t = "flip_one_byte (py_str (py_or v x))"
  assume "map_of d k = Some (JStr ?t)"
  then have "v = JStr ?t" unfolding assms by (rule get_present)
  moreover have "truthy (JStr ?t)" using flip_one_byte_neq(2) by simp
  ultimately have "py_or v x = JStr ?t" unfolding py_or_def by (metis (full_types))
  then have "py_str (py_or v x) = ?t" unfolding py_str_def by (metis json.case(5))
  then show False using flip_one_byte_neq(1) by metis
qed

lemma canonical_tampered:
  assumes "distinct (map fst outcome)"
  shows "canonical (Some ''envelope_signature'') (tampered_copy version outcome) \<noteq>
    canonical (Some ''envelope_signature'') outcome"
proof -
  have differ: "canonical (Some ''envelope_signature'') (AList.update k (JStr s) outcome) \<noteq>
      canonical (Some ''envelope_signature'') outcome"
    if "k \<noteq> ''envelope_signature''" "map_of outcome k \<noteq> Some (JStr s)" for k s
    using canonical_update [OF distinct_without [OF assms], of "''envelope_signature''" k s] that
    by (simp add: canonical_exclude without_update_other map_of_without)
  have "map_of outcome ''caller'' \<noteq> Some (JStr (flip_one_byte (py_str (py_or (get outcome ''caller'') (JStr ''x'')))))"
    by (rule flipped_or) simp
  moreover have "map_of outcome ''corr_id'' \<noteq> Some (JStr (flip_one_byte (py_str (get_def outcome ''corr_id'' (JStr ''x'')))))"
    by (rule flipped_get)
  ultimately show ?thesis unfolding tampered_copy_def by (simp add: differ)
qed

section \<open>The command's verdicts\<close>

text \<open>C24. The tamper check is exact: on an authentic receipt the copy with one flipped byte always has other
  canonical bytes, and the exit code is 0 exactly when the receipt's signature does not also verify
  over those bytes. So a receipt passes unless the key itself signs two messages with one signature.\<close>

theorem tamper_check_exact:
  assumes "distinct (map fst outcome)" "get outcome ''envelope_signature'' = JObj block"
    and "map_of block ''sig'' = Some (JStr b)" "b64decode b = Inr sig"
    and "ed_verify C pub sig (canonical (Some ''envelope_signature'') outcome)"
    and "2 \<le> version \<longrightarrow> map_of outcome ''caller'' \<noteq> None \<and> map_of outcome ''tier'' \<noteq> None"
  shows "let flipped = canonical (Some ''envelope_signature'') (tampered_copy version outcome) in
    flipped \<noteq> canonical (Some ''envelope_signature'') outcome \<and>
    check_outcome C outcome version pub False = Inr (if ed_verify C pub sig flipped then 1 else 0)"
proof -
  have block: "map_of outcome ''envelope_signature'' = Some (JObj block)"
    using assms(2) by (auto simp: get_def_def split: option.splits)
  have "get (tampered_copy version outcome) ''envelope_signature'' = JObj block"
    using assms(2) by (simp add: tampered_copy_def)
  with assms block canonical_tampered [OF assms(1)] show ?thesis
    by (auto simp: check_outcome_def verify_def b64decode_json_def Let_def)
qed

text \<open>What exit code 0 vouches for.\<close>

definition authentic :: "crypto \<Rightarrow> string \<Rightarrow> dict \<Rightarrow> string \<Rightarrow> bool" where
  "authentic C pub outcome sig \<longleftrightarrow>
     (\<exists>block b. get outcome ''envelope_signature'' = JObj block \<and> map_of block ''sig'' = Some (JStr b) \<and>
        b64decode b = Inr sig) \<and> ed_verify C pub sig (canonical (Some ''envelope_signature'') outcome)"

lemma verify_True: "verify C outcome pub = Inr True \<longleftrightarrow> (\<exists>sig. authentic C pub outcome sig)"
  by (auto simp: verify_def authentic_def b64decode_json_def split: json.splits option.splits sum.splits if_splits)

lemma authentic_verify: "authentic C pub outcome sig \<Longrightarrow> get t ''envelope_signature'' = get outcome ''envelope_signature'' \<Longrightarrow>
    verify C t pub = Inr (ed_verify C pub sig (canonical (Some ''envelope_signature'') t))"
  by (auto simp: authentic_def verify_def b64decode_json_def)

lemma tampered_signature [simp]:
  "get (tampered_copy version outcome) ''envelope_signature'' = get outcome ''envelope_signature''"
  by (simp add: tampered_copy_def)

lemma check_outcome_zero:
  assumes "check_outcome C outcome version pub nt = Inr 0"
  obtains sig where "authentic C pub outcome sig"
    and "2 \<le> version \<Longrightarrow> map_of outcome ''caller'' \<noteq> None \<and> map_of outcome ''tier'' \<noteq> None"
    and "\<not> nt \<Longrightarrow> \<not> ed_verify C pub sig (canonical (Some ''envelope_signature'') (tampered_copy version outcome))"
proof -
  have "verify C outcome pub = Inr True"
    using assms by (auto simp: check_outcome_def bindE_Inr_iff split: if_splits)
  then obtain sig where sig: "authentic C pub outcome sig" using verify_True by blast
  from authentic_verify [OF sig, of "tampered_copy version outcome"] assms that [OF sig] show ?thesis
    by (auto simp: check_outcome_def bindE_Inr_iff split: if_splits)
qed

lemma open_receipt_Inr:
  assumes "open_receipt C key_path key_read receipt = Inr (outcome, version, pub)"
  shows "extract_outcome receipt = Inr outcome" "receipt_version outcome = Inr version"
    "load_pubkey C key_path key_read = Inr pub"
  using assms by (auto simp: open_receipt_def bindE_Inr_iff)

lemma extract_outcome_kind:
  assumes "extract_outcome (JObj r) = Inr outcome"
  shows "get r ''record_kind'' \<noteq> JStr ''intent''" "map_of outcome ''envelope_signature'' \<noteq> None"
  using assms by (auto simp: extract_outcome_def signed_part_def split: if_splits option.splits json.splits)

text \<open>C25. Exit code 0 vouches: when the command checks a receipt and exits 0, the file is a JSON object that
  is not an intent record, the outcome found in it is of a known version, carries caller and tier when
  it is of version 2, and its signature verifies under the Ed25519 key of the key file over its own
  canonical bytes and, unless the check was skipped, not over the flipped copy's.\<close>

theorem exit_zero_vouches:
  assumes "main C read args = Inr 0" "va_walk args = None"
  shows "\<exists>path key_path data r outcome version pub sig.
    va_receipt args = Some path \<and> va_pubkey args = Some key_path \<and> read path = Inr data \<and>
    json_loads data = Some (JObj r) \<and> get r ''record_kind'' \<noteq> JStr ''intent'' \<and>
    extract_outcome (JObj r) = Inr outcome \<and> receipt_version outcome = Inr version \<and>
    load_pubkey C key_path (read key_path) = Inr pub \<and> authentic C pub outcome sig \<and>
    (2 \<le> version \<longrightarrow> map_of outcome ''caller'' \<noteq> None \<and> map_of outcome ''tier'' \<noteq> None) \<and>
    (va_no_tamper args \<or>
     \<not> ed_verify C pub sig (canonical (Some ''envelope_signature'') (tampered_copy version outcome)))"
proof -
  obtain path key_path data receipt where f: "va_receipt args = Some path" "va_pubkey args = Some key_path"
      "read path = Inr data" "json_loads data = Some receipt"
      "check_receipt C key_path (read key_path) (va_no_tamper args) receipt = Inr 0"
    using assms by (auto simp: main_def given_def split: option.splits sum.splits if_splits)
  obtain outcome version pub where op: "open_receipt C key_path (read key_path) receipt = Inr (outcome, version, pub)"
      "check_outcome C outcome version pub (va_no_tamper args) = Inr 0"
    using f(5) by (auto simp: check_receipt_def split: sum.splits abort.splits)
  obtain r where r: "receipt = JObj r"
    using open_receipt_Inr(1) [OF op(1)] by (cases receipt) (auto simp: extract_outcome_def)
  from op(2) obtain sig where "authentic C pub outcome sig"
      "2 \<le> version \<Longrightarrow> map_of outcome ''caller'' \<noteq> None \<and> map_of outcome ''tier'' \<noteq> None"
      "\<not> va_no_tamper args \<Longrightarrow>
        \<not> ed_verify C pub sig (canonical (Some ''envelope_signature'') (tampered_copy version outcome))"
    by (rule check_outcome_zero) blast
  with f r open_receipt_Inr [OF op(1)] extract_outcome_kind(1) [of r outcome] show ?thesis by blast
qed

section \<open>The gateway's own receipts\<close>

lemma build_outcome_keys:
  "distinct (map fst (build_outcome corr rrn st a b dur sha err summary caller tier))"
  "''envelope_signature'' \<notin> fst ` set (build_outcome corr rrn st a b dur sha err summary caller tier)"
  by (auto simp: build_outcome_def split: option.split)

lemma signed_receipt:
  assumes "build_signed_outcome cf w rq d = Inr (Some receipt, marker)" "cf_identity cf = Some idn"
    and "\<forall>d. canonical_json (cf_crypto cf) None d = Inr (canonical None d)"
    and "signs_for (cf_crypto cf) (id_priv idn) pub"
  shows "authentic (cf_crypto cf) pub receipt (ed_sign (cf_crypto cf) (id_priv idn) (canonical (Some ''envelope_signature'') receipt))"
    "distinct (map fst receipt)" "receipt_version receipt = Inr 2" "is_obj (get receipt ''envelope_signature'')"
    "map_of receipt ''caller'' \<noteq> None" "map_of receipt ''tier'' \<noteq> None" "map_of receipt ''status'' \<noteq> None"
    "get receipt ''record_kind'' = JNull" "get receipt ''intent'' = JNull" "get receipt ''outcome'' = JNull"
    "get receipt ''detail'' = JNull"
proof -
  obtain corr rrn st a b dur sha err body where body: "body = build_outcome corr rrn st a b dur sha err None (rq_caller rq) (Some (rq_tier rq))"
    and s: "sign_envelope (cf_crypto cf) (id_priv idn) body (id_kid idn) = Inr receipt"
    using assms(1,2) by (auto simp: build_signed_outcome_def Let_def bindE_Inr_iff)
  let ?sig = "ed_sign (cf_crypto cf) (id_priv idn) (canonical None body)"
  let ?block = "[(''kid'', JStr (id_kid idn)), (''alg'', JStr ''Ed25519''), (''sig'', JStr (b64encode ?sig))]"
  have r: "receipt = AList.update ''envelope_signature'' (JObj ?block) body"
    using s assms(3) by (simp add: sign_envelope_def)
  have fresh: "''envelope_signature'' \<notin> fst ` set body" unfolding body by (rule build_outcome_keys)
  then have ex: "canonical (Some ''envelope_signature'') receipt = canonical None body"
    by (simp add: r canonical_exclude without_fresh)
  show "authentic (cf_crypto cf) pub receipt (ed_sign (cf_crypto cf) (id_priv idn) (canonical (Some ''envelope_signature'') receipt))"
    using assms(4) by (simp add: authentic_def ex signs_for_def) (simp add: r)
  show "distinct (map fst receipt)" unfolding r by (rule distinct_update) (simp add: body build_outcome_keys)
  show "receipt_version receipt = Inr 2"
    by (simp add: receipt_version_def r body build_outcome_def RECEIPT_VERSION_def SUPPORTED_RECEIPT_VERSIONS_def)
  show "is_obj (get receipt ''envelope_signature'')"
    "map_of receipt ''caller'' \<noteq> None" "map_of receipt ''tier'' \<noteq> None" "map_of receipt ''status'' \<noteq> None"
    "get receipt ''record_kind'' = JNull" "get receipt ''intent'' = JNull" "get receipt ''outcome'' = JNull"
    "get receipt ''detail'' = JNull"
    by (simp_all add: r update_conv body build_outcome_def split: option.split)
qed

text \<open>Where a receipt is found: bare, in an answer, in the body of an error answer, in a trace line.\<close>

definition receipt_shapes :: "dict \<Rightarrow> string \<Rightarrow> dict \<Rightarrow> dict \<Rightarrow> json list" where
  "receipt_shapes receipt marker answer envelope =
     [JObj receipt,
      JObj (attach_signature answer (Some receipt, marker)),
      JObj [(''detail'', JObj (attach_signature answer (Some receipt, marker)))],
      JObj (build_action_trace envelope receipt JNull JNull None)]"

lemma extract_shapes:
  assumes "is_obj (get receipt ''envelope_signature'')" "map_of receipt ''status'' \<noteq> None"
    and "get receipt ''record_kind'' = JNull" "get receipt ''intent'' = JNull" "get receipt ''outcome'' = JNull"
    and "get receipt ''detail'' = JNull" "get answer ''record_kind'' \<noteq> JStr ''intent''"
    and "body \<in> set (receipt_shapes receipt marker answer envelope)"
  shows "extract_outcome body = Inr receipt"
proof -
  have "map_of receipt ''envelope_signature'' \<noteq> None" using assms(1) by (auto simp: get_def_def split: option.splits)
  then have part: "signed_part (JObj receipt) = Some receipt" "signed_part JNull = None"
    and sig: "map_of receipt ''envelope_signature'' \<noteq> None"
    by (simp_all add: signed_part_def split: option.splits)
  let ?a = "attach_signature answer (Some receipt, marker)"
  have a: "get ?a ''outcome'' = JObj receipt" "get ?a ''record_kind'' \<noteq> JStr ''intent''" "map_of ?a ''outcome'' \<noteq> None"
    using assms(7) by (simp_all add: attach_signature_def Let_def update_conv)
  from assms(8) consider "body = JObj receipt" | "body = JObj ?a" | "body = JObj [(''detail'', JObj ?a)]"
    | "body = JObj (build_action_trace envelope receipt JNull JNull None)"
    unfolding receipt_shapes_def by auto
  then show ?thesis
  proof cases
    case 1
    with assms(2-6) sig part show ?thesis by (simp add: extract_outcome_def)
  next
    case 2
    with a part show ?thesis by (simp add: extract_outcome_def)
  next
    case 3
    with a(1) part show ?thesis by (simp add: extract_outcome_def)
  next
    case 4
    with part show ?thesis by (simp add: extract_outcome_def build_action_trace_def)
  qed
qed

text \<open>C26. The gateway and its stand-alone verifier agree: a receipt the gateway signed, in every shape it hands
  out (the bare outcome, an answer, the body of a 403, a line of the trace export), passes the check under
  the gateway's public key, provided both compute the same canonical bytes. With the tamper check the exit
  code is 1 only if this very signature also verifies over the different bytes of the flipped copy.\<close>

theorem own_receipts_pass:
  assumes "build_signed_outcome cf w rq d = Inr (Some receipt, marker)" "cf_identity cf = Some idn"
    and "\<forall>d. canonical_json (cf_crypto cf) None d = Inr (canonical None d)"
    and "signs_for (cf_crypto cf) (id_priv idn) pub"
    and "load_pem_public_key (cf_crypto cf) pem = PemKey (Ed25519PublicKey pub)"
    and "get answer ''record_kind'' \<noteq> JStr ''intent''"
  shows "\<exists>other. other \<noteq> canonical (Some ''envelope_signature'') receipt \<and>
    (\<forall>body \<in> set (receipt_shapes receipt marker answer envelope).
      check_receipt (cf_crypto cf) path (Inr pem) no_tamper body =
        Inr (if no_tamper \<or> \<not> ed_verify (cf_crypto cf) pub
               (ed_sign (cf_crypto cf) (id_priv idn) (canonical (Some ''envelope_signature'') receipt)) other
             then 0 else 1))"
proof -
  note facts = signed_receipt [OF assms(1-4)]
  let ?t = "tampered_copy 2 receipt"
  have v: "verify (cf_crypto cf) receipt pub = Inr True" using facts(1) verify_True by blast
  obtain block where block: "map_of receipt ''envelope_signature'' = Some (JObj block)"
    using facts(4) by (auto simp: get_def_def split: option.splits elim: is_obj.elims)
  have t: "verify (cf_crypto cf) ?t pub = Inr (ed_verify (cf_crypto cf) pub (ed_sign (cf_crypto cf) (id_priv idn)
      (canonical (Some ''envelope_signature'') receipt)) (canonical (Some ''envelope_signature'') ?t))"
    using authentic_verify [OF facts(1), of ?t] by simp
  have "check_receipt (cf_crypto cf) path (Inr pem) no_tamper body =
      Inr (if no_tamper \<or> \<not> ed_verify (cf_crypto cf) pub (ed_sign (cf_crypto cf) (id_priv idn)
        (canonical (Some ''envelope_signature'') receipt)) (canonical (Some ''envelope_signature'') ?t) then 0 else 1)"
    if "body \<in> set (receipt_shapes receipt marker answer envelope)" for body
  proof -
    have "open_receipt (cf_crypto cf) path (Inr pem) body = Inr (receipt, 2, pub)"
      using extract_shapes [OF facts(4,7-11) assms(6) that] facts(3) assms(5)
      by (simp add: open_receipt_def load_pubkey_def)
    with v t block facts(5,6) show ?thesis by (simp add: check_receipt_def check_outcome_def)
  qed
  with canonical_tampered [OF facts(2), of 2] show ?thesis by blast
qed

text \<open>A signature that is not a str is neither a failed check nor an input error: the command raises.\<close>

lemma nonstring_sig_escapes:
  "check_receipt C path (Inr pem) nt (JObj [(''status'', JStr ''ok''),
     (''envelope_signature'', JObj [(''sig'', JInt 5)])]) = Inl TypeError"
  if "load_pem_public_key C pem = PemKey (Ed25519PublicKey pub)"
  using that by (simp add: check_receipt_def open_receipt_def extract_outcome_def signed_part_def receipt_version_def
      load_pubkey_def check_outcome_def verify_def b64decode_json_def)

section \<open>Witnesses\<close>

definition demo_receipt :: dict where
  "demo_receipt = (let body = [(''caller'', JStr ''c''), (''receipt_version'', JInt 2), (''status'', JStr ''ok''), (''tier'', JNull)] in
     body @ [(''envelope_signature'', JObj [(''sig'', JStr (b64encode (''K'' @ canonical None body)))])])"

definition demo_files :: "string \<Rightarrow> exc + string" where
  "demo_files path = Inr (if path = ''key'' then ''K'' else dumps (JObj demo_receipt))"

definition demo_args :: verify_args where
  "demo_args = \<lparr>va_receipt = Some ''r'', va_pubkey = Some ''key'', va_walk = None, va_no_tamper = False\<rparr>"

lemma demo_receipt_authentic:
  "authentic demo_crypto ''K'' demo_receipt (''K'' @ canonical (Some ''envelope_signature'') demo_receipt)"
  by (simp add: authentic_def demo_receipt_def Let_def canonical_exclude demo_crypto_def)

theorem tamper_check_exact_witness:
  "check_outcome demo_crypto demo_receipt 2 ''K'' False = Inr 0"
proof -
  obtain block b where b: "get demo_receipt ''envelope_signature'' = JObj block" "map_of block ''sig'' = Some (JStr b)"
      "b64decode b = Inr (''K'' @ canonical (Some ''envelope_signature'') demo_receipt)"
    using demo_receipt_authentic by (auto simp: authentic_def)
  have v: "ed_verify demo_crypto ''K'' (''K'' @ m) m' \<longleftrightarrow> m = m'" for m m' by (simp add: demo_crypto_def)
  have "distinct (map fst demo_receipt)" "map_of demo_receipt ''caller'' \<noteq> None" "map_of demo_receipt ''tier'' \<noteq> None"
    by (simp_all add: demo_receipt_def Let_def)
  with tamper_check_exact [of demo_receipt block b _ demo_crypto "''K''" 2, OF _ b] v show ?thesis
    by (auto simp: Let_def split: if_splits)
qed

lemma demo_main: "main demo_crypto demo_files demo_args = Inr 0"
  by code_simp

theorem exit_zero_vouches_witness:
  "\<exists>r outcome sig. json_loads (dumps (JObj demo_receipt)) = Some (JObj r) \<and> extract_outcome (JObj r) = Inr outcome \<and>
     authentic demo_crypto ''K'' outcome sig"
  using exit_zero_vouches [OF demo_main]
  by (auto simp: demo_args_def demo_files_def load_pubkey_def demo_crypto_def)

definition agreeing_config :: gateway_config where
  "agreeing_config = receipt_config\<lparr>cf_crypto := demo_crypto\<lparr>canonical_json := \<lambda>exclude d. Inr (canonical exclude d)\<rparr>\<rparr>"

theorem own_receipts_pass_witness:
  "\<exists>w receipt. build_signed_outcome agreeing_config w receipt_request receipt_refusal = Inr (Some receipt, ''attested'') \<and>
     (\<exists>other. other \<noteq> canonical (Some ''envelope_signature'') receipt \<and>
       (\<forall>body \<in> set (receipt_shapes receipt ''attested'' [] []).
         check_receipt (cf_crypto agreeing_config) ''key'' (Inr ''P'') False body = Inr 0))"
proof -
  have C: "cf_crypto agreeing_config = demo_crypto\<lparr>canonical_json := \<lambda>exclude d. Inr (canonical exclude d)\<rparr>"
    and idn: "cf_identity agreeing_config = Some \<lparr>id_priv = ''P'', id_kid = ''G'', id_ran = None\<rparr>"
    by (simp_all add: agreeing_config_def receipt_config_def)
  have laws: "\<forall>d. canonical_json (cf_crypto agreeing_config) None d = Inr (canonical None d)"
    "signs_for (cf_crypto agreeing_config) ''P'' ''P''"
    "load_pem_public_key (cf_crypto agreeing_config) ''P'' = PemKey (Ed25519PublicKey ''P'')"
    "\<And>m m'. ed_verify (cf_crypto agreeing_config) ''P'' (ed_sign (cf_crypto agreeing_config) ''P'' m) m' \<longleftrightarrow> m = m'"
    by (auto simp: C demo_crypto_def signs_for_def)
  obtain w :: world where True by blast
  obtain receipt where r: "build_signed_outcome agreeing_config w receipt_request receipt_refusal = Inr (Some receipt, ''attested'')"
    by (simp add: build_signed_outcome_def idn Let_def outcome_error_def outcome_status_def receipt_refusal_def refusal_def
        telemetry_sha256_of_def sign_envelope_def laws(1))
  obtain other where "other \<noteq> canonical (Some ''envelope_signature'') receipt"
      "\<forall>body \<in> set (receipt_shapes receipt ''attested'' [] []).
         check_receipt (cf_crypto agreeing_config) ''key'' (Inr ''P'') False body =
           Inr (if canonical (Some ''envelope_signature'') receipt \<noteq> other then 0 else 1)"
    using own_receipts_pass [OF r idn laws(1) _ laws(3), of "[]" "[]" "''key''" False] laws(2,4) by auto
  with r show ?thesis by auto
qed

end
