(* ===== verification/Shipper.thy ===== *)
theory Shipper
  imports Py_Json
begin

text \<open>
  \<open>shipper.py\<close>: the sidecar that posts the trace export, line by line, to the ingest server and remembers
  a byte offset in a file. The disk and what the server was sent are the record \<open>ship_disk\<close>; one pass of
  \<open>ship_once\<close> sees the outside through \<open>pass_world\<close>: the server's status per line, and what each write of
  the offset file does, which may fail and may leave a torn text. Text is bytes, so \<open>len(line)\<close> is its
  length. The lemmas: whatever fails, every line before the offset was delivered (or is an intent
  that is kept local on purpose); without failing writes delivery is exactly once and in order; an
  offset past the end stops the shipper.
\<close>

section \<open>Configuration\<close>

record shipper_config =
  sc_ingest_key :: string
  sc_org_slug :: string
  sc_base_url :: "string option"
  sc_export_file :: string
  sc_offset_file :: string
  sc_ship_intents :: bool

text \<open>An environment variable that is set and not empty.\<close>

definition env_text :: "(string \<Rightarrow> string option) \<Rightarrow> string \<Rightarrow> string option" where
  "env_text env k = (if env k = Some [] then None else env k)"

text \<open>\<open>ShipperConfig.from_env\<close>; \<open>Inl\<close> is the SystemExit's message. The export path names a file as pathlib
  writes it, so \<open>with_suffix(suffix + ".offset")\<close> appends.\<close>

definition shipper_from_env :: "(string \<Rightarrow> string option) \<Rightarrow> string + shipper_config" where
  "shipper_from_env env =
     (case (env_text env ''PLATATLAS_INGEST_KEY'', env_text env ''PLATATLAS_ORG_SLUG'',
            env_text env ''ROBOT_MD_ATTESTATION_EXPORT_FILE'') of
        (Some key, Some slug, Some export) \<Rightarrow>
          Inr \<lparr>sc_ingest_key = key, sc_org_slug = slug, sc_base_url = env ''PLATATLAS_BASE_URL'',
            sc_export_file = export,
            sc_offset_file = (case env_text env ''PLATATLAS_OFFSET_FILE'' of Some f \<Rightarrow> f | None \<Rightarrow> export @ ''.offset''),
            sc_ship_intents = (case env ''PLATATLAS_SHIP_INTENTS'' of None \<Rightarrow> False
               | Some v \<Rightarrow> strip v \<in> {''1'', ''true'', ''yes''})\<rparr>
      | _ \<Rightarrow> Inl (''platatlas-shipper requires PLATATLAS_INGEST_KEY, PLATATLAS_ORG_SLUG, ''
                 @ ''and ROBOT_MD_ATTESTATION_EXPORT_FILE''))"

definition target_url :: "shipper_config \<Rightarrow> string" where
  "target_url cfg =
     (let base = (case sc_base_url cfg of
            Some b \<Rightarrow> if b = [] then ''https://'' @ sc_org_slug cfg @ ''.platatlas.com'' else b
          | None \<Rightarrow> ''https://'' @ sc_org_slug cfg @ ''.platatlas.com'') in
      rstrip_char (CHR ''/'') base @ ''/api/traces?source=rcan'')"

section \<open>One pass\<close>

text \<open>The export and the offset file (\<open>None\<close>: absent), and every line posted with its status.\<close>

record ship_disk =
  sh_export :: "string option"
  sh_offset :: "string option"
  sh_sent :: "(string \<times> int) list"

datatype offset_write = Written | Unwritten exc | Torn nat exc

record pass_world =
  pw_post :: "nat \<Rightarrow> string \<Rightarrow> int"
  pw_write :: "nat \<Rightarrow> offset_write"
  pw_stat_fails :: bool
  pw_open :: "exc option"

datatype ship_error = ShipperTamperStop string | ShipRaises exc

text \<open>\<open>int(text.strip())\<close>, 0 when the file cannot be read or is no integer.\<close>

definition read_offset :: "ship_disk \<Rightarrow> int" where
  "read_offset s = (case sh_offset s of None \<Rightarrow> 0
     | Some t \<Rightarrow> (case int_of_str t of Inl _ \<Rightarrow> 0 | Inr n \<Rightarrow> n))"

definition write_offset :: "pass_world \<Rightarrow> nat \<Rightarrow> ship_disk \<Rightarrow> exc option \<times> ship_disk" where
  "write_offset p offset s =
     (case pw_write p offset of
        Written \<Rightarrow> (None, s\<lparr>sh_offset := Some (nat_str offset)\<rparr>)
      | Unwritten e \<Rightarrow> (Some e, s)
      | Torn n e \<Rightarrow> (Some e, s\<lparr>sh_offset := Some (take n (nat_str offset))\<rparr>))"

definition is_intent_line :: "string \<Rightarrow> bool" where
  "is_intent_line line = (case json_loads line of
     Some (JObj d) \<Rightarrow> get d ''record_kind'' = JStr ''intent'' | _ \<Rightarrow> False)"

text \<open>What \<open>readline\<close> gives until a line does not end in a newline.\<close>

fun complete_lines :: "string \<Rightarrow> string list" where
  "complete_lines [] = []"
| "complete_lines (c # cs) =
     (if c = CHR 0x0A then [c] # complete_lines cs
      else case complete_lines cs of [] \<Rightarrow> [] | l # ls \<Rightarrow> (c # l) # ls)"

text \<open>The loop from byte \<open>pos\<close> on.\<close>

fun ship_lines :: "shipper_config \<Rightarrow> pass_world \<Rightarrow> string list \<Rightarrow> nat \<Rightarrow> nat \<Rightarrow> ship_disk
    \<Rightarrow> (ship_error + nat) \<times> ship_disk" where
  "ship_lines cfg p [] pos shipped s = (Inr shipped, s)"
| "ship_lines cfg p (line # lines) pos shipped s =
     (let pos' = pos + length line in
      if \<not> sc_ship_intents cfg \<and> is_intent_line line then
        (case write_offset p pos' s of
           (Some e, s') \<Rightarrow> (Inl (ShipRaises e), s')
         | (None, s') \<Rightarrow> ship_lines cfg p lines pos' shipped s')
      else
        (let status = pw_post p pos line; s1 = s\<lparr>sh_sent := sh_sent s @ [(line, status)]\<rparr> in
         if \<not> (200 \<le> status \<and> status < 300) then (Inr shipped, s1)
         else case write_offset p pos' s1 of
           (Some e, s') \<Rightarrow> (Inl (ShipRaises e), s')
         | (None, s') \<Rightarrow> ship_lines cfg p lines pos' (shipped + 1) s'))"

definition ship_once :: "shipper_config \<Rightarrow> pass_world \<Rightarrow> ship_disk \<Rightarrow> (ship_error + nat) \<times> ship_disk" where
  "ship_once cfg p s =
     (case sh_export s of None \<Rightarrow> (Inr 0, s)
      | Some data \<Rightarrow>
         (let offset = read_offset s; size = (if pw_stat_fails p then 0 else length data) in
          if int size < offset then
            (Inl (ShipperTamperStop (''TRUNCATED: offset '' @ int_str offset @ '' past end of ''
               @ sc_export_file cfg @ '' (size '' @ nat_str size @ '')'')), s)
          else case pw_open p of Some e \<Rightarrow> (Inl (ShipRaises e), s)
          | None \<Rightarrow>
             if offset < 0 then (Inl (ShipRaises (OSError ''[Errno 22] Invalid argument'')), s)
             else ship_lines cfg p (complete_lines (drop (nat offset) data)) (nat offset) 0 s))"

section \<open>The loop of the sidecar\<close>

datatype poll = Sleep pyfloat | ExitCode nat

text \<open>\<open>min(backoff * 2, 60.0)\<close>\<close>

definition next_backoff :: "pyfloat \<Rightarrow> pyfloat" where
  "next_backoff b = (let d = (case b of FFin r \<Rightarrow> fl (2 * r) | _ \<Rightarrow> b) in if flt (FFin 60) d then FFin 60 else d)"

text \<open>One turn of \<open>while True\<close>: what it does next, and the backoff it keeps.\<close>

definition poll_once :: "shipper_config \<Rightarrow> pass_world \<Rightarrow> pyfloat \<Rightarrow> pyfloat \<Rightarrow> ship_disk \<Rightarrow> poll \<times> pyfloat \<times> ship_disk" where
  "poll_once cfg p poll_s backoff s =
     (case ship_once cfg p s of
        (Inr n, s') \<Rightarrow> (Sleep poll_s, poll_s, s')
      | (Inl (ShipperTamperStop m), s') \<Rightarrow> (ExitCode 3, backoff, s')
      | (Inl (ShipRaises e), s') \<Rightarrow> (Sleep (next_backoff backoff), next_backoff backoff, s'))"

section \<open>Lines and offsets\<close>

text \<open>A prefix of the export that ends a line.\<close>

definition ends_line :: "string \<Rightarrow> bool" where
  "ends_line s \<longleftrightarrow> s = [] \<or> last s = CHR 0x0A"

lemma complete_lines_append:
  "ends_line a \<Longrightarrow> complete_lines (a @ b) = complete_lines a @ complete_lines b"
proof (induction a)
  case (Cons c a)
  show ?case
  proof (cases "a = []")
    case True
    with Cons.prems show ?thesis by (simp add: ends_line_def)
  next
    case False
    then have IH: "complete_lines (a @ b) = complete_lines a @ complete_lines b" and e: "last a = CHR 0x0A"
      using Cons by (simp_all add: ends_line_def)
    have "complete_lines a \<noteq> []" using False e
    proof (induction a)
      case (Cons d a)
      then show ?case by (cases "a = []") (auto split: list.split)
    qed simp
    with IH show ?thesis by (auto split: list.splits)
  qed
qed simp

lemma complete_lines_Cons:
  assumes "complete_lines s = l # ls"
  obtains t where "s = l @ t" "ls = complete_lines t" "l \<noteq> []" "last l = CHR 0x0A" "CHR 0x0A \<notin> set (butlast l)"
  using assms
proof (induction s arbitrary: l ls thesis)
  case (Cons c s)
  show ?case
  proof (cases "c = CHR 0x0A")
    case True
    with Cons.prems show ?thesis by auto
  next
    case False
    with Cons.prems(2) obtain l' where l': "complete_lines s = l' # ls" "l = c # l'" by (auto split: list.splits)
    from l'(1) obtain t where "s = l' @ t" "ls = complete_lines t" "l' \<noteq> []" "last l' = CHR 0x0A" "CHR 0x0A \<notin> set (butlast l')"
      using Cons.IH by blast
    with l'(2) False show ?thesis by (intro Cons.prems(1)) auto
  qed
qed simp

lemma one_line: "l \<noteq> [] \<Longrightarrow> last l = CHR 0x0A \<Longrightarrow> CHR 0x0A \<notin> set (butlast l) \<Longrightarrow> complete_lines l = [l]"
proof (induction l)
  case (Cons c l)
  then show ?case by (cases "l = []") (auto split: if_splits)
qed simp

lemma digits_val_prefix: "digits_val a \<le> digits_val (a @ b)"
proof (induction b rule: rev_induct)
  case (snoc c b)
  have "digits_val (a @ b) \<le> digits_val ((a @ b) @ [c])" unfolding digits_val_snoc by simp
  with snoc show ?case by simp
qed simp

text \<open>A torn offset reads as a smaller offset, so it only repeats deliveries.\<close>

lemma torn_offset: "int_of_str (take n (nat_str m)) = Inr v \<Longrightarrow> 0 \<le> v \<and> v \<le> int m"
proof -
  let ?t = "take n (nat_str m)"
  assume v: "int_of_str ?t = Inr v"
  have d: "\<forall>c \<in> set ?t. is_digit c" using nat_str_digits [of m] by (meson in_set_takeD)
  have "int_of_str [] = Inl ValueError" by (simp add: int_of_str_def strip_def lstrip_def rstrip_def)
  with v have ne: "?t \<noteq> []" by (metis Inl_Inr_False)
  then obtain c cs where c: "?t = c # cs" "is_digit c" using d by (cases ?t) auto
  have "udigits False ?t = Some ?t" using d udigits_digits [of cs True] by (simp only: c(1) udigits.simps) (simp add: c)
  moreover have "\<not> startswith ?t ''-''" "\<not> startswith ?t ''+''" using c by (auto simp: is_digit_def)
  ultimately have "v = int (digits_val ?t)" using v by (auto simp: int_of_str_def strip_digits [OF d] Let_def split: if_splits)
  moreover have "digits_val ?t \<le> digits_val (nat_str m)" using digits_val_prefix [of ?t "drop n (nat_str m)"] by simp
  ultimately show ?thesis by simp
qed

section \<open>At least once\<close>

definition acked :: "ship_disk \<Rightarrow> string list" where
  "acked s = map fst (filter (\<lambda>(l, st). 200 \<le> st \<and> st < 300) (sh_sent s))"

text \<open>A line the shipper is done with: delivered, or an intent that stays local by configuration.\<close>

definition kept_local :: "shipper_config \<Rightarrow> string \<Rightarrow> bool" where
  "kept_local cfg l \<longleftrightarrow> \<not> sc_ship_intents cfg \<and> is_intent_line l"

definition passed :: "shipper_config \<Rightarrow> ship_disk \<Rightarrow> string \<Rightarrow> bool" where
  "passed cfg s l \<longleftrightarrow> kept_local cfg l \<or> l \<in> set (acked s)"

text \<open>Everything up to byte \<open>n\<close>, which ends a line, is done with.\<close>

definition done_to :: "shipper_config \<Rightarrow> ship_disk \<Rightarrow> string \<Rightarrow> nat \<Rightarrow> bool" where
  "done_to cfg s data n \<longleftrightarrow> n \<le> length data \<and> ends_line (take n data) \<and>
     (\<forall>l \<in> set (complete_lines (take n data)). passed cfg s l)"

lemma acked_snoc: "acked (s\<lparr>sh_sent := sh_sent s @ [(l, st)]\<rparr>) = acked s @ (if 200 \<le> st \<and> st < 300 then [l] else [])"
  by (simp add: acked_def)

lemma done_to_mono: "done_to cfg s data n \<Longrightarrow> set (acked s) \<subseteq> set (acked s') \<Longrightarrow> done_to cfg s' data n"
  by (auto simp: done_to_def passed_def)

lemma done_to_offset [simp]: "done_to cfg (s\<lparr>sh_offset := off\<rparr>) data n = done_to cfg s data n"
  by (simp add: done_to_def passed_def acked_def)

lemma done_to_advance:
  assumes "done_to cfg s data hw" "pos \<le> hw" "drop pos data = line @ t" "passed cfg s line"
    and "line \<noteq> []" "last line = CHR 0x0A" "CHR 0x0A \<notin> set (butlast line)"
  shows "done_to cfg s data (max hw (pos + length line))"
proof (cases "pos + length line \<le> hw")
  case True
  with assms(1) show ?thesis by (simp add: max_def)
next
  case False
  have len: "pos + length line \<le> length data" using arg_cong [OF assms(3), of length] assms(5) by (cases line) simp_all
  have "pos = hw"
  proof (rule ccontr)
    assume "pos \<noteq> hw"
    with assms(2) have less: "pos < hw" "hw \<le> length data" using assms(1) by (simp_all add: done_to_def)
    then have "last (take hw data) = CHR 0x0A" "take hw data \<noteq> []" using assms(1) by (auto simp: done_to_def ends_line_def)
    then have "data ! (hw - 1) = CHR 0x0A" using less by (simp add: last_conv_nth)
    moreover have "data ! (hw - 1) = (line @ t) ! (hw - 1 - pos)"
      using less by (simp flip: assms(3))
    moreover have inside: "hw - 1 - pos < length (butlast line)" using False less by simp
    then have "(line @ t) ! (hw - 1 - pos) = butlast line ! (hw - 1 - pos)"
      using nth_append_left [of "hw - 1 - pos" line t] nth_butlast [OF inside] by simp
    ultimately have "butlast line ! (hw - 1 - pos) = CHR 0x0A" by metis
    with assms(7) nth_mem [OF inside] show False by metis
  qed
  then have pre: "take (pos + length line) data = take hw data @ line"
    using assms(3) by (simp add: take_add)
  have "ends_line (take hw data)" using assms(1) by (simp add: done_to_def)
  then have "complete_lines (take (pos + length line) data) = complete_lines (take hw data) @ [line]"
    unfolding pre by (simp add: complete_lines_append one_line assms(5-7))
  moreover have "ends_line (take (pos + length line) data)" unfolding pre using assms(5,6) by (simp add: ends_line_def)
  moreover have "max hw (pos + length line) = pos + length line" using False by simp
  ultimately show ?thesis using assms(1,4) len unfolding done_to_def by auto
qed

definition safe_offset :: "shipper_config \<Rightarrow> ship_disk \<Rightarrow> string \<Rightarrow> bool" where
  "safe_offset cfg s data \<longleftrightarrow> (\<exists>n. done_to cfg s data n \<and> read_offset s \<le> int n)"

lemma write_offset_read:
  assumes "write_offset p n s = (r, s')" "read_offset s \<le> int m" "n \<le> m"
  shows "read_offset s' \<le> int m" "sh_sent s' = sh_sent s" "sh_export s' = sh_export s"
proof -
  have "read_offset (s\<lparr>sh_offset := Some (take k (nat_str n))\<rparr>) \<le> int m" for k
    using torn_offset [of k n] assms(3) by (force simp: read_offset_def split: sum.split)
  from this [of "length (nat_str n)"] this
  show "read_offset s' \<le> int m" "sh_sent s' = sh_sent s" "sh_export s' = sh_export s"
    using assms(1,2) by (auto simp: write_offset_def split: offset_write.splits)
qed

lemma ship_lines_safe:
  assumes "done_to cfg s data hw" "pos \<le> hw" "read_offset s \<le> int hw" "lines = complete_lines (drop pos data)"
    and "ship_lines cfg p lines pos n s = (r, s')"
  shows "safe_offset cfg s' data \<and> sh_export s' = sh_export s"
  using assms
proof (induction lines arbitrary: pos n s hw)
  case Nil
  then show ?case by (auto simp: safe_offset_def)
next
  case (Cons line lines)
  let ?pos = "pos + length line" and ?hw = "max hw (pos + length line)"
  obtain t where t: "drop pos data = line @ t" "lines = complete_lines t" "line \<noteq> []" "last line = CHR 0x0A"
      "CHR 0x0A \<notin> set (butlast line)"
    using Cons.prems(4) complete_lines_Cons by metis
  then have rest: "lines = complete_lines (drop ?pos data)" by (metis add.commute append_eq_conv_conj drop_drop)
  have go: "safe_offset cfg s' data \<and> sh_export s' = sh_export s"
    if u: "u = s \<or> u = s\<lparr>sh_sent := sh_sent s @ [(line, st)]\<rparr>" and p: "passed cfg u line"
      and w: "(case write_offset p ?pos u of (Some e, v) \<Rightarrow> (Inl (ShipRaises e), v)
        | (None, v) \<Rightarrow> ship_lines cfg p lines ?pos m v) = (r, s')" for u st m
  proof -
    have "done_to cfg u data hw" using u Cons.prems(1) done_to_mono [of cfg s data hw u] by (auto simp: acked_snoc)
    then have high: "done_to cfg u data ?hw" using done_to_advance [OF _ Cons.prems(2) t(1) p t(3-5)] by blast
    obtain x v where v: "write_offset p ?pos u = (x, v)" by (metis surj_pair)
    have "read_offset u \<le> int ?hw" using u Cons.prems(3) by (auto simp: read_offset_def)
    note wr = write_offset_read [OF v this]
    have "done_to cfg v data ?hw" using done_to_mono [OF high, of v] wr(2) by (simp add: acked_def)
    with wr(1,3) u v w Cons.IH [of v ?hw ?pos m] rest show ?thesis
      by (cases x) (auto simp: safe_offset_def)
  qed
  show ?case
  proof (cases "kept_local cfg line")
    case True
    with Cons.prems(5) show ?thesis
      by (intro go [of s _ n]) (auto simp: passed_def kept_local_def Let_def)
  next
    case False
    let ?u = "s\<lparr>sh_sent := sh_sent s @ [(line, pw_post p pos line)]\<rparr>"
    show ?thesis
    proof (cases "200 \<le> pw_post p pos line \<and> pw_post p pos line < 300")
      case True
      with False Cons.prems(5) show ?thesis
        by (intro go [of ?u "pw_post p pos line" "n + 1"]) (auto simp: passed_def kept_local_def acked_snoc Let_def)
    next
      case no: False
      with False Cons.prems(5) have "s' = ?u" by (auto simp: kept_local_def Let_def)
      moreover have "done_to cfg ?u data hw" using done_to_mono [OF Cons.prems(1)] by (simp add: acked_snoc)
      ultimately show ?thesis using Cons.prems(3) by (auto simp: safe_offset_def read_offset_def)
    qed
  qed
qed

text \<open>The life of a shipper beside an append-only export: the gateway appends, passes run, whatever
  fails in them.\<close>

inductive ship_run :: "shipper_config \<Rightarrow> (pass_world \<Rightarrow> bool) \<Rightarrow> ship_disk \<Rightarrow> bool"
  for cfg :: shipper_config and ok :: "pass_world \<Rightarrow> bool" where
  start: "ship_run cfg ok \<lparr>sh_export = export, sh_offset = None, sh_sent = []\<rparr>"
| grow: "ship_run cfg ok s \<Longrightarrow> sh_export s = Some data \<or> sh_export s = None \<and> data = [] \<Longrightarrow>
    ship_run cfg ok (s\<lparr>sh_export := Some (data @ added)\<rparr>)"
| pass: "ship_run cfg ok s \<Longrightarrow> ok p \<Longrightarrow> ship_run cfg ok (snd (ship_once cfg p s))"

inductive_cases ship_run_cases: "ship_run cfg ok s"

abbreviation exported :: "ship_disk \<Rightarrow> string" where
  "exported s \<equiv> (case sh_export s of None \<Rightarrow> [] | Some data \<Rightarrow> data)"

lemma ship_once_safe:
  assumes "safe_offset cfg s (exported s)"
  shows "safe_offset cfg (snd (ship_once cfg p s)) (exported s) \<and> sh_export (snd (ship_once cfg p s)) = sh_export s"
proof (cases "sh_export s")
  case None
  with assms show ?thesis by (simp add: ship_once_def)
next
  case (Some data)
  obtain n where n: "done_to cfg s data n" "read_offset s \<le> int n" using assms Some by (auto simp: safe_offset_def)
  show ?thesis
  proof (cases "0 \<le> read_offset s \<and> read_offset s \<le> int (if pw_stat_fails p then 0 else length data) \<and> pw_open p = None")
    case True
    obtain r s' where r: "ship_lines cfg p (complete_lines (drop (nat (read_offset s)) data)) (nat (read_offset s)) 0 s = (r, s')"
      by (metis surj_pair)
    from n(2) have "nat (read_offset s) \<le> n" by simp
    from ship_lines_safe [OF n(1) this n(2) refl r] show ?thesis
      using True Some r by (auto simp: ship_once_def Let_def)
  next
    case False
    then have "snd (ship_once cfg p s) = s" using Some by (auto simp: ship_once_def Let_def split: option.split)
    with assms show ?thesis by simp
  qed
qed

lemma done_to_grow: "done_to cfg s data n \<Longrightarrow> done_to cfg (s\<lparr>sh_export := e\<rparr>) (data @ added) n"
  by (auto simp: done_to_def passed_def acked_def)

lemma ship_run_safe: "ship_run cfg ok s \<Longrightarrow> safe_offset cfg s (exported s)"
proof (induction rule: ship_run.induct)
  case (start export)
  show ?case by (auto simp: safe_offset_def done_to_def ends_line_def read_offset_def intro!: exI [of _ 0])
next
  case (grow s data added)
  from grow.IH grow.hyps obtain n where "done_to cfg s data n" "read_offset s \<le> int n" by (auto simp: safe_offset_def)
  then have "done_to cfg (s\<lparr>sh_export := Some (data @ added)\<rparr>) (data @ added) n"
    "read_offset (s\<lparr>sh_export := Some (data @ added)\<rparr>) \<le> int n"
    by (simp_all add: done_to_grow read_offset_def)
  then show ?case by (auto simp: safe_offset_def)
next
  case (pass s p)
  from ship_once_safe [OF pass.IH] show ?case by simp
qed

text \<open>Complete lines of a prefix are complete lines of the whole.\<close>

lemma complete_lines_prefix: "set (complete_lines (take k s)) \<subseteq> set (complete_lines (take n s))" if "k \<le> n"
proof -
  have "\<exists>ls. complete_lines (a @ b) = complete_lines a @ ls" for a b
  proof (induction a)
    case (Cons c a)
    then obtain ls where "complete_lines (a @ b) = complete_lines a @ ls" by blast
    then show ?case by (auto split: list.splits simp: append_eq_Cons_conv)
  qed simp
  then obtain ls where "complete_lines (take k s @ drop k (take n s)) = complete_lines (take k s) @ ls" by blast
  moreover have "take k s @ drop k (take n s) = take n s"
    using that(1) by (metis append_take_drop_id min.absorb1 take_take)
  ultimately show ?thesis by simp
qed

text \<open>C27. At least once: beside an append-only export, and whatever fails (posts refused, offset writes that
  raise or leave a torn text, a file that cannot be read), every complete line before the remembered
  offset was answered 2xx by the server, or is an intent line that the configuration keeps local.\<close>

theorem shipped_at_least_once:
  assumes "ship_run cfg ok s" "0 \<le> read_offset s"
  shows "\<forall>l \<in> set (complete_lines (take (nat (read_offset s)) (exported s))). kept_local cfg l \<or> l \<in> set (acked s)"
proof -
  obtain n where n: "done_to cfg s (exported s) n" "read_offset s \<le> int n"
    using ship_run_safe [OF assms(1)] by (auto simp: safe_offset_def)
  then have "set (complete_lines (take (nat (read_offset s)) (exported s))) \<subseteq> set (complete_lines (take n (exported s)))"
    using assms(2) by (intro complete_lines_prefix) simp
  with n(1) show ?thesis by (auto simp: done_to_def passed_def)
qed

text \<open>C28. A cut export stops the shipper and loses nothing that was shipped: after any run, when the export is
  replaced by a text shorter than the offset, every further pass sends nothing and leaves the files as
  they are, the sidecar exits with 3, and every complete line the old export had before the offset is with
  the server (or was kept local on purpose).\<close>

theorem truncation_stops:
  assumes "ship_run cfg ok s" "s' = s\<lparr>sh_export := Some short\<rparr>" "int (length short) < read_offset s"
  shows "fold (\<lambda>p s. snd (ship_once cfg p s)) ps s' = s' \<and>
    poll_once cfg p poll_s backoff s' = (ExitCode 3, backoff, s') \<and>
    (\<forall>l \<in> set (complete_lines (take (nat (read_offset s)) (exported s))). kept_local cfg l \<or> l \<in> set (acked s'))"
proof -
  have "read_offset s' = read_offset s" "acked s' = acked s" "sh_export s' = Some short"
    by (simp_all add: assms(2) read_offset_def acked_def)
  then have one: "\<exists>m. ship_once cfg q s' = (Inl (ShipperTamperStop m), s')" for q
    using assms(3) by (auto simp: ship_once_def Let_def)
  then have "snd (ship_once cfg q s') = s'" for q by (metis snd_conv)
  then have "fold (\<lambda>p s. snd (ship_once cfg p s)) ps s' = s'" by (induction ps) simp_all
  moreover have "poll_once cfg p poll_s backoff s' = (ExitCode 3, backoff, s')"
    using one [of p] by (auto simp: poll_once_def)
  moreover obtain n where n: "done_to cfg s (exported s) n" "read_offset s \<le> int n"
    using ship_run_safe [OF assms(1)] by (auto simp: safe_offset_def)
  then have "set (complete_lines (take (nat (read_offset s)) (exported s))) \<subseteq> set (complete_lines (take n (exported s)))"
    using assms(3) by (intro complete_lines_prefix) simp
  ultimately show ?thesis using n(1) \<open>acked s' = acked s\<close> by (auto simp: done_to_def passed_def)
qed

section \<open>Exactly once\<close>

text \<open>An offset below \<open>10 ^ 4300\<close> is read back as it was written.\<close>

definition OFFSET_LIMIT :: nat where
  "OFFSET_LIMIT = 10 ^ 4300"

lemma offset_digits: "n < OFFSET_LIMIT \<Longrightarrow> length (nat_str n) \<le> 4300"
  unfolding OFFSET_LIMIT_def by (erule length_nat_str) simp

lemma read_written: "n < OFFSET_LIMIT \<Longrightarrow> int_of_str (nat_str n) = Inr (int n)"
proof -
  assume "n < OFFSET_LIMIT"
  then have len: "length (nat_str n) \<le> 4300" by (rule offset_digits)
  have d: "\<forall>c \<in> set (nat_str n). is_digit c" by (rule nat_str_digits)
  obtain c cs where c: "nat_str n = c # cs" "is_digit c" using nat_str_first by blast
  have "udigits False (nat_str n) = Some (nat_str n)"
    using d udigits_digits [of cs True] by (simp only: c(1) udigits.simps) (simp add: c)
  moreover have "\<not> startswith (nat_str n) ''-''" "\<not> startswith (nat_str n) ''+''" using c by (auto simp: is_digit_def)
  ultimately show ?thesis using len by (auto simp: int_of_str_def strip_digits [OF d] Let_def)
qed

definition writes_succeed :: "pass_world \<Rightarrow> bool" where
  "writes_succeed p \<longleftrightarrow> (\<forall>n. pw_write p n = Written)"

definition all_accepted :: "pass_world \<Rightarrow> bool" where
  "all_accepted p \<longleftrightarrow> (\<forall>n l. 200 \<le> pw_post p n l \<and> pw_post p n l < 300) \<and> \<not> pw_stat_fails p \<and> pw_open p = None"

definition to_ship :: "shipper_config \<Rightarrow> string \<Rightarrow> string list" where
  "to_ship cfg s = filter (\<lambda>l. \<not> kept_local cfg l) (complete_lines s)"

definition exact :: "shipper_config \<Rightarrow> ship_disk \<Rightarrow> string \<Rightarrow> nat \<Rightarrow> bool" where
  "exact cfg s data n \<longleftrightarrow> read_offset s = int n \<and> n \<le> length data \<and> ends_line (take n data) \<and>
     acked s = to_ship cfg (take n data)"

lemma to_ship_append: "ends_line a \<Longrightarrow> to_ship cfg (a @ b) = to_ship cfg a @ to_ship cfg b"
  by (simp add: to_ship_def complete_lines_append)

lemma exact_advance:
  assumes "exact cfg s data n" "drop n data = line @ t" "line \<noteq> []" "last line = CHR 0x0A" "CHR 0x0A \<notin> set (butlast line)"
    and "acked s' = acked s @ (if kept_local cfg line then [] else [line])" "n + length line < OFFSET_LIMIT"
  shows "exact cfg (s'\<lparr>sh_offset := Some (nat_str (n + length line))\<rparr>) data (n + length line)"
proof -
  have pre: "take (n + length line) data = take n data @ line" using assms(2) by (simp add: take_add)
  have len: "n + length line \<le> length data" using arg_cong [OF assms(2), of length] assms(3) by (cases line) simp_all
  have "to_ship cfg (take n data @ line) = to_ship cfg (take n data) @ (if kept_local cfg line then [] else [line])"
    using assms(1) one_line [OF assms(3-5)] by (simp add: exact_def to_ship_append) (simp add: to_ship_def)
  moreover have "ends_line (take n data @ line)" using assms(3,4) by (simp add: ends_line_def)
  ultimately show ?thesis
    using assms(1,6,7) len unfolding exact_def pre by (simp add: read_offset_def read_written acked_def)
qed

lemma ship_lines_exact:
  assumes "writes_succeed p" "exact cfg s data pos" "lines = complete_lines (drop pos data)" "length data < OFFSET_LIMIT"
    and "ship_lines cfg p lines pos n s = (r, s')"
  shows "(\<exists>m. exact cfg s' data m) \<and> (all_accepted p \<longrightarrow> acked s' = to_ship cfg data)"
  using assms
proof (induction lines arbitrary: pos n s)
  case Nil
  then have "to_ship cfg data = to_ship cfg (take pos data)"
    using to_ship_append [of "take pos data" cfg "drop pos data"] by (simp add: exact_def) (simp add: to_ship_def)
  with Nil show ?case by (auto simp: exact_def)
next
  case (Cons line lines)
  let ?pos = "pos + length line"
  obtain t where t: "drop pos data = line @ t" "lines = complete_lines t" "line \<noteq> []" "last line = CHR 0x0A"
      "CHR 0x0A \<notin> set (butlast line)"
    using Cons.prems(3) complete_lines_Cons by metis
  then have rest: "lines = complete_lines (drop ?pos data)" by (metis add.commute append_eq_conv_conj drop_drop)
  have "?pos \<le> length data" using arg_cong [OF t(1), of length] t(3) by (cases line) simp_all
  then have small: "?pos < OFFSET_LIMIT" using Cons.prems(4) by (rule le_less_trans)
  have w: "write_offset p ?pos u = (None, u\<lparr>sh_offset := Some (nat_str ?pos)\<rparr>)" for u
    using Cons.prems(1) by (simp add: write_offset_def writes_succeed_def)
  note advance = exact_advance [OF Cons.prems(2) t(1,3-5) _ small]
  let ?u = "s\<lparr>sh_sent := sh_sent s @ [(line, pw_post p pos line)]\<rparr>"
  consider "kept_local cfg line" | "\<not> kept_local cfg line" "200 \<le> pw_post p pos line \<and> pw_post p pos line < 300"
    | "\<not> kept_local cfg line" "\<not> (200 \<le> pw_post p pos line \<and> pw_post p pos line < 300)" by blast
  then show ?case
  proof cases
    case 1
    have "ship_lines cfg p lines ?pos n (s\<lparr>sh_offset := Some (nat_str ?pos)\<rparr>) = (r, s')"
      using Cons.prems(5) 1 by (simp add: kept_local_def w Let_def)
    then show ?thesis using Cons.IH [OF Cons.prems(1) advance [of s] rest Cons.prems(4)] 1 by simp
  next
    case 2
    have "ship_lines cfg p lines ?pos (n + 1) (?u\<lparr>sh_offset := Some (nat_str ?pos)\<rparr>) = (r, s')"
      using Cons.prems(5) 2 by (cases "is_intent_line line") (simp_all add: kept_local_def w Let_def)
    then show ?thesis using Cons.IH [OF Cons.prems(1) advance [of ?u] rest Cons.prems(4)] 2 by (simp add: acked_snoc)
  next
    case 3
    have "s' = ?u" using Cons.prems(5) 3 by (simp add: kept_local_def Let_def split: if_splits)
    then have "exact cfg s' data pos" using Cons.prems(2) 3 by (auto simp: exact_def acked_snoc read_offset_def)
    moreover have "\<not> all_accepted p" using 3 by (auto simp: all_accepted_def)
    ultimately show ?thesis by blast
  qed
qed

lemma ship_once_exact:
  assumes "exact cfg s (exported s) n" "length (exported s) < OFFSET_LIMIT" "writes_succeed p"
  shows "(\<exists>m. exact cfg (snd (ship_once cfg p s)) (exported s) m) \<and>
    (all_accepted p \<longrightarrow> acked (snd (ship_once cfg p s)) = to_ship cfg (exported s)) \<and>
    sh_export (snd (ship_once cfg p s)) = sh_export s"
proof (cases "sh_export s")
  case None
  then have "ship_once cfg p s = (Inr 0, s)" by (simp add: ship_once_def)
  with assms(1) None show ?thesis by (auto simp: exact_def)
next
  case (Some data)
  with assms have e: "exact cfg s data n" and small: "length data < OFFSET_LIMIT" by simp_all
  obtain r s' where r: "ship_lines cfg p (complete_lines (drop n data)) n 0 s = (r, s')" by (metis surj_pair)
  have off: "read_offset s = int n" "n \<le> length data" using e by (simp_all add: exact_def)
  have "done_to cfg s data n" using e by (auto simp: done_to_def exact_def passed_def to_ship_def)
  from ship_lines_safe [OF this order_refl _ refl r] off(1) have ex: "sh_export s' = sh_export s" by simp
  have "ship_once cfg p s = (r, s')" if "\<not> int (if pw_stat_fails p then 0 else length data) < int n" "pw_open p = None"
    using that by (simp add: ship_once_def Some off(1) r)
  moreover have "snd (ship_once cfg p s) = s \<and> \<not> all_accepted p"
    if "int (if pw_stat_fails p then 0 else length data) < int n \<or> pw_open p \<noteq> None"
    using that off(2) by (auto simp: ship_once_def Some off(1) all_accepted_def Let_def split: if_splits)
  ultimately consider "ship_once cfg p s = (r, s')" | "snd (ship_once cfg p s) = s" "\<not> all_accepted p" by blast
  then show ?thesis
    using ship_lines_exact [OF assms(3) e refl small r] ex e Some by cases auto
qed


section \<open>A pass\<close>

definition demo_shipper :: shipper_config where
  "demo_shipper = \<lparr>sc_ingest_key = ''k'', sc_org_slug = ''o'', sc_base_url = None, sc_export_file = ''e'',
     sc_offset_file = ''e.offset'', sc_ship_intents = False\<rparr>"

definition good_pass :: pass_world where
  "good_pass = \<lparr>pw_post = \<lambda>_ _. 200, pw_write = \<lambda>_. Written, pw_stat_fails = False, pw_open = None\<rparr>"

definition demo_export_disk :: ship_disk where
  "demo_export_disk = \<lparr>sh_export = Some (''{}'' @ [CHR 0x0A] @ ''{''), sh_offset = None, sh_sent = []\<rparr>"

definition shipped_disk :: ship_disk where
  "shipped_disk = snd (ship_once demo_shipper good_pass demo_export_disk)"

lemma shipped_disk_run: "ship_run demo_shipper writes_succeed shipped_disk"
  unfolding shipped_disk_def demo_export_disk_def
  by (intro ship_run.pass ship_run.start) (simp add: writes_succeed_def good_pass_def)

lemma shipped_disk_facts: "read_offset shipped_disk = 3" "exported shipped_disk = ''{}'' @ [CHR 0x0A] @ ''{''"
  "acked shipped_disk = [''{}'' @ [CHR 0x0A]]"
  by code_simp+

theorem shipped_at_least_once_witness:
  "''{}'' @ [CHR 0x0A] \<in> set (acked shipped_disk)"
proof -
  have "\<not> kept_local demo_shipper (''{}'' @ [CHR 0x0A])"
    unfolding kept_local_def by code_simp
  moreover have "complete_lines (take (nat 3) (''{}'' @ [CHR 0x0A] @ ''{'')) = [''{}'' @ [CHR 0x0A]]"
    by code_simp
  moreover have "read_offset shipped_disk \<le> int (length (exported shipped_disk))" by (simp add: shipped_disk_facts)
  ultimately show ?thesis
    using shipped_at_least_once [OF shipped_disk_run] unfolding shipped_disk_facts(1,2) by auto
qed

theorem truncation_stops_witness:
  "poll_once demo_shipper good_pass (FFin 5) (FFin 5) (shipped_disk\<lparr>sh_export := Some []\<rparr>) =
     (ExitCode 3, FFin 5, shipped_disk\<lparr>sh_export := Some []\<rparr>)"
  using truncation_stops [OF shipped_disk_run refl, of "[]"] by (simp add: shipped_disk_facts)


end
