(* ===== verification/Invoke_Context.thy ===== *)
theory Invoke_Context
  imports Envelope
begin

text \<open>
  \<open>context.py\<close>: the provenance block stamped into an invoke before it is signed. A manifest is the dict
  its front matter reads as, so \<open>metadata\<close> and the lists in it may be any value; an access such a value
  does not have is the exception it raises. The lemma is what a stamped block may say.
\<close>

definition config_hash_for :: "crypto \<Rightarrow> dict \<Rightarrow> exc + string" where
  "config_hash_for C frontmatter =
     bindE (canonical_json C None frontmatter) (\<lambda>canon. Inr (''sha256:'' @ sha256 canon))"

text \<open>\<open>[x for x in (v or []) if isinstance(x, str) and x]\<close>\<close>

definition declared_ids :: "json \<Rightarrow> exc + string list" where
  "declared_ids v = bindE (items_of (py_or v (JArr []))) (\<lambda>xs.
     Inr (concat (map (\<lambda>x. case x of JStr s \<Rightarrow> if s = [] then [] else [s] | _ \<Rightarrow> []) xs)))"

text \<open>\<open>active_rhn or (rhn_ids[0] if rhn_ids else None)\<close>, after the check against the declared ones.\<close>

definition stamped_rhn :: "string option \<Rightarrow> string list \<Rightarrow> string option" where
  "stamped_rhn active rhn_ids =
     (let active' = (case active of Some a \<Rightarrow> if rhn_ids \<noteq> [] \<and> a \<notin> set rhn_ids then None else Some a | None \<Rightarrow> None) in
      case active' of Some (c # cs) \<Rightarrow> Some (c # cs)
      | _ \<Rightarrow> (case rhn_ids of [] \<Rightarrow> None | r # _ \<Rightarrow> Some r))"

definition text_member :: "string \<Rightarrow> json \<Rightarrow> dict" where
  "text_member k v = (case v of JStr s \<Rightarrow> if s = [] then [] else [(k, JStr s)] | _ \<Rightarrow> [])"

definition context_from_manifest :: "dict \<Rightarrow> string option \<Rightarrow> pyfloat option \<Rightarrow> string option \<Rightarrow> exc + dict option" where
  "context_from_manifest frontmatter config_hash confidence active_rhn =
     (let meta = py_or (get frontmatter ''metadata'') (JObj []) in
      bindE (py_get meta ''rrn'') (\<lambda>rrn.
      bindE (bindE (py_get meta ''rcn_ids'') declared_ids) (\<lambda>rcns.
      bindE (py_get meta ''rmn'') (\<lambda>rmn.
      bindE (bindE (py_get meta ''rhn_ids'') declared_ids) (\<lambda>rhn_ids.
        let ctx = text_member ''rrn'' rrn
              @ (if rcns = [] then [] else [(''rcns'', JArr (map JStr rcns))])
              @ text_member ''rmn'' rmn
              @ text_member ''rhn'' (JOpt (stamped_rhn active_rhn rhn_ids)) in
        if ctx = [] then Inr None
        else Inr (Some (ctx
          @ (case config_hash of Some (c # cs) \<Rightarrow> [(''config_hash'', JStr (c # cs))] | _ \<Rightarrow> [])
          @ (case confidence of None \<Rightarrow> [] | Some x \<Rightarrow> [(''confidence'', JFloat x)]))))))))"

definition with_context :: "crypto \<Rightarrow> dict \<Rightarrow> dict \<Rightarrow> pyfloat option \<Rightarrow> string option \<Rightarrow> bool \<Rightarrow> exc + dict" where
  "with_context C invoke_body frontmatter confidence active_rhn stamp_config_hash =
     bindE (if stamp_config_hash then bindE (config_hash_for C frontmatter) (\<lambda>h. Inr (Some h)) else Inr None) (\<lambda>cfg.
     bindE (context_from_manifest frontmatter cfg confidence active_rhn) (\<lambda>ctx.
       Inr (case ctx of None \<Rightarrow> invoke_body
            | Some c \<Rightarrow> AList.update ''context'' (JObj c) invoke_body)))"

section \<open>What is stamped\<close>

lemma declared_ids_sub: "declared_ids v = Inr ids \<Longrightarrow> s \<in> set ids \<Longrightarrow> s \<noteq> [] \<and> (\<exists>xs. items_of (py_or v (JArr [])) = Inr xs \<and> JStr s \<in> set xs)"
  by (auto simp: declared_ids_def bindE_Inr_iff split: json.splits if_splits)

lemma stamped_rhn_iff:
  "\<forall>r \<in> set ids. r \<noteq> [] \<Longrightarrow> stamped_rhn active ids = Some r \<longleftrightarrow> r \<noteq> [] \<and>
     (if ids = [] then active = Some r
      else if \<exists>a \<in> set ids. active = Some a then active = Some r else r = hd ids)"
  by (cases ids) (auto simp: stamped_rhn_def Let_def split: option.splits list.splits if_splits)

text \<open>A member's value when it is stamped, \<open>JNull\<close> when it is not.\<close>

definition text_value :: "json \<Rightarrow> json" where
  "text_value v = (case v of JStr s \<Rightarrow> if s = [] then JNull else JStr s | _ \<Rightarrow> JNull)"

lemma text_value_range: "text_value v \<in> {JNull, v}"
  by (simp add: text_value_def split: json.split)

lemma text_member_simps [simp]:
  "get (text_member k v) k' = (if k' = k then text_value v else JNull)"
  "text_member k v = [] \<longleftrightarrow> text_value v = JNull"
  by (simp_all add: text_member_def text_value_def split: json.split)

lemma get_text_append [simp]:
  "get (text_member k v @ b) k' = (if k' = k \<and> text_value v \<noteq> JNull then text_value v else get b k')"
  by (simp add: text_member_def text_value_def split: json.split)

lemma get_append: "get_def (a @ b) k x = (case map_of a k of None \<Rightarrow> get_def b k x | Some v \<Rightarrow> v)"
  by (simp add: get_def_def map_add_def split: option.split)

text \<open>What the context block says is what the manifest declares. A block is stamped only with at least one
  identity; its rrn, rmn and rcns are the manifest's own; its harness is the active one when the manifest
  declares it and otherwise the first declared one. The caller's own harness name gets through in one
  case only, a manifest that declares no harness.\<close>

theorem context_is_declared:
  assumes "context_from_manifest fm cfg confidence active = Inr (Some ctx)"
  shows "\<exists>meta rcns ids. py_or (get fm ''metadata'') (JObj []) = JObj meta \<and>
    declared_ids (get meta ''rcn_ids'') = Inr rcns \<and> declared_ids (get meta ''rhn_ids'') = Inr ids \<and>
    get ctx ''rrn'' \<in> {JNull, get meta ''rrn''} \<and> get ctx ''rmn'' \<in> {JNull, get meta ''rmn''} \<and>
    get ctx ''rcns'' = (if rcns = [] then JNull else JArr (map JStr rcns)) \<and>
    (\<exists>k \<in> {''rrn'', ''rcns'', ''rmn'', ''rhn''}. get ctx k \<noteq> JNull) \<and>
    (\<forall>v. get ctx ''rhn'' = v \<and> v \<noteq> JNull \<longrightarrow> (\<exists>r. v = JStr r \<and> r \<noteq> [] \<and>
       (if ids = [] then active = Some r
        else if \<exists>a \<in> set ids. active = Some a then active = Some r else r = hd ids)))"
proof -
  obtain meta where meta: "py_or (get fm ''metadata'') (JObj []) = JObj meta"
    using assms by (cases "py_or (get fm ''metadata'') (JObj [])") (auto simp: context_from_manifest_def Let_def)
  obtain rcns ids where ids: "declared_ids (get meta ''rcn_ids'') = Inr rcns" "declared_ids (get meta ''rhn_ids'') = Inr ids"
    using assms by (auto simp: context_from_manifest_def meta Let_def bindE_Inr_iff)
  define base where "base = text_member ''rrn'' (get meta ''rrn'') @ (if rcns = [] then [] else [(''rcns'', JArr (map JStr rcns))])
      @ text_member ''rmn'' (get meta ''rmn'') @ text_member ''rhn'' (JOpt (stamped_rhn active ids))"
  obtain extra where ctx: "ctx = base @ extra" "base \<noteq> []" "\<forall>k \<in> {''rrn'', ''rcns'', ''rmn'', ''rhn''}. map_of extra k = None"
  proof -
    let ?extra = "(case cfg of Some (c # cs) \<Rightarrow> [(''config_hash'', JStr (c # cs))] | _ \<Rightarrow> [])
      @ (case confidence of None \<Rightarrow> [] | Some x \<Rightarrow> [(''confidence'', JFloat x)])"
    have "ctx = base @ ?extra" "base \<noteq> []"
      using assms unfolding context_from_manifest_def meta Let_def py_get.simps bindE_simps ids base_def [symmetric]
      by (auto split: if_splits)
    moreover have "\<forall>k \<in> {''rrn'', ''rcns'', ''rmn'', ''rhn''}. map_of ?extra k = None"
      by (auto simp: map_add_def split: option.split list.split)
    ultimately show thesis using that by blast
  qed
  have get: "get ctx k = get base k" if "k \<in> {''rrn'', ''rcns'', ''rmn'', ''rhn''}" for k
    using ctx(3) that unfolding ctx(1) by (auto simp: get_append get_def_def split: option.split)
  have gets: "get base ''rrn'' = text_value (get meta ''rrn'')" "get base ''rmn'' = text_value (get meta ''rmn'')"
    "get base ''rcns'' = (if rcns = [] then JNull else JArr (map JStr rcns))"
    "get base ''rhn'' = text_value (JOpt (stamped_rhn active ids))"
    unfolding base_def by simp_all
  have "\<exists>k \<in> {''rrn'', ''rcns'', ''rmn'', ''rhn''}. get base k \<noteq> JNull"
    using ctx(2) by (simp add: gets) (simp add: base_def split: if_splits)
  then have some: "\<exists>k \<in> {''rrn'', ''rcns'', ''rmn'', ''rhn''}. get ctx k \<noteq> JNull" using get by metis
  have rrn: "get ctx ''rrn'' \<in> {JNull, get meta ''rrn''}" and rmn: "get ctx ''rmn'' \<in> {JNull, get meta ''rmn''}"
    and rcn: "get ctx ''rcns'' = (if rcns = [] then JNull else JArr (map JStr rcns))"
    unfolding get [of "''rrn''", simplified] get [of "''rmn''", simplified] get [of "''rcns''", simplified] gets
    using text_value_range by blast+
  have "\<forall>r \<in> set ids. r \<noteq> []" using declared_ids_sub [OF ids(2)] by blast
  note stamped = stamped_rhn_iff [OF this, of active]
  have "\<exists>r. v = JStr r \<and> stamped_rhn active ids = Some r" if "get ctx ''rhn'' = v" "v \<noteq> JNull" for v
    using that get [of "''rhn''"] gets(4) by (auto simp: text_value_def split: option.splits if_splits)
  then have rhn: "\<forall>v. get ctx ''rhn'' = v \<and> v \<noteq> JNull \<longrightarrow> (\<exists>r. v = JStr r \<and> r \<noteq> [] \<and>
       (if ids = [] then active = Some r
        else if \<exists>a \<in> set ids. active = Some a then active = Some r else r = hd ids))"
    using stamped by metis
  show ?thesis
    by (intro exI [of _ meta] exI [of _ rcns] exI [of _ ids] conjI) (fact meta ids rrn rmn rcn some rhn)+
qed

text \<open>The code stamps a harness nobody declared, and reads a bare string of ids as its characters.\<close>

lemma undeclared_harness_stamped:
  "context_from_manifest [(''metadata'', JObj [(''rrn'', JStr ''RRN-1'')])] None None (Some ''RHN-9'') =
     Inr (Some [(''rrn'', JStr ''RRN-1''), (''rhn'', JStr ''RHN-9'')])"
  by code_simp

lemma bare_string_split:
  "context_from_manifest [(''metadata'', JObj [(''rcn_ids'', JStr ''R1'')])] None None None =
     Inr (Some [(''rcns'', JArr [JStr ''R'', JStr ''1''])])"
  by code_simp

theorem context_is_declared_witness:
  "\<exists>ctx. context_from_manifest [(''metadata'', JObj [(''rhn_ids'', JArr [JStr ''H''])])] None None (Some ''X'') = Inr (Some ctx) \<and>
     (\<forall>v. get ctx ''rhn'' = v \<and> v \<noteq> JNull \<longrightarrow> v = JStr ''H'')"
proof -
  have "context_from_manifest [(''metadata'', JObj [(''rhn_ids'', JArr [JStr ''H''])])] None None (Some ''X'') =
      Inr (Some [(''rhn'', JStr ''H'')])" by code_simp
  from context_is_declared [OF this] this show ?thesis
    by (auto simp: py_or_def declared_ids_def)
qed

end
