(* ===== verification/Dispatcher.thy ===== *)
theory Dispatcher
  imports Auth
begin

text \<open>
  \<open>gating.py\<close>: the tool gate of the agent dispatcher. The agent SDK asks \<open>can_use_tool\<close> before every call;
  the callback closes over the caller's \<open>auth_context\<close>. The lemmas: exactly which calls a session of a
  tier may make, and that neither the tool's input nor the session's history changes the answer.
\<close>

record gate_result =
  gate_decision :: string
  gate_reason :: string

record tier_policy =
  read_safe_prefixes :: "string list"
  mcp_prefix :: string

definition default_tier_policy :: tier_policy where
  "default_tier_policy = \<lparr>read_safe_prefixes =
     [''mcp__robot__render'', ''mcp__robot__validate'', ''mcp__robot__vision_find'', ''mcp__robot__discover'',
      ''mcp__robot__get_'', ''mcp__robot__list_'', ''mcp__robot__describe_'', ''mcp__robot__status''],
     mcp_prefix = ''mcp__robot__''\<rparr>"

definition is_read_safe :: "tier_policy \<Rightarrow> string \<Rightarrow> bool" where
  "is_read_safe p tool = (\<exists>q \<in> set (read_safe_prefixes p). startswith tool q)"

definition is_robot_tool :: "tier_policy \<Rightarrow> string \<Rightarrow> bool" where
  "is_robot_tool p tool = startswith tool (mcp_prefix p)"

definition evaluate :: "string \<Rightarrow> json \<Rightarrow> tier_policy \<Rightarrow> gate_result" where
  "evaluate tool tier p =
     (if \<not> is_robot_tool p tool then
        \<lparr>gate_decision = ''deny'', gate_reason = ''tool '' @ repr_str tool @ '' is not on the '' @ repr_str ''robot''
           @ '' MCP server; dispatcher only exposes robot-md tools''\<rparr>
      else if tier = JStr ''actuate'' then \<lparr>gate_decision = ''allow'', gate_reason = []\<rparr>
      else if is_read_safe p tool then \<lparr>gate_decision = ''allow'', gate_reason = []\<rparr>
      else \<lparr>gate_decision = ''deny'', gate_reason = ''tool '' @ repr_str tool @ '' requires actuate tier; caller holds ''
             @ py_repr tier\<rparr>)"

text \<open>The SDK's callback, and its audit hook, which changes nothing.\<close>

definition can_use_tool :: "auth_context \<Rightarrow> tier_policy \<Rightarrow> string \<Rightarrow> json \<Rightarrow> dict" where
  "can_use_tool auth p tool tool_input =
     (let result = evaluate tool (ctx_tier auth) p in
      if gate_decision result = ''allow'' then [(''behavior'', JStr ''allow''), (''updatedInput'', tool_input)]
      else [(''behavior'', JStr ''deny''), (''message'', JStr (gate_reason result)), (''interrupt'', JBool False)])"

definition pre_tool_use_hook :: "auth_context \<Rightarrow> dict \<Rightarrow> dict" where
  "pre_tool_use_hook auth input_data = []"

lemma can_use_tool_allows:
  "get (can_use_tool auth p tool tool_input) ''behavior'' = JStr ''allow'' \<longleftrightarrow>
     is_robot_tool p tool \<and> (ctx_tier auth = JStr ''actuate'' \<or> is_read_safe p tool)"
  "get (can_use_tool auth p tool tool_input) ''updatedInput'' \<in> {JNull, tool_input}"
  by (auto simp: can_use_tool_def evaluate_def Let_def)

text \<open>Under the default policy a caller below the actuate tier gets only tools whose name begins like an
  observation; the tools that act begin otherwise.\<close>

lemma default_denies_acting:
  "ctx_tier auth \<noteq> JStr ''actuate'' \<Longrightarrow>
   tool \<in> {''mcp__robot__estop'', ''mcp__robot__execute_capability'', ''mcp__robot__execute_task'', ''mcp__robot__record_skill'', ''Bash'', ''Read''} \<Longrightarrow>
   get (can_use_tool auth default_tier_policy tool i) ''behavior'' = JStr ''deny''"
  by (auto simp: can_use_tool_def evaluate_def default_tier_policy_def is_read_safe_def is_robot_tool_def Let_def)

end
