(* ===== verification/Serve_Main.thy ===== *)
theory Serve_Main
  imports Demo_Gateway
begin

text \<open>
  \<open>__main__.py\<close>: the \<open>serve\<close> command, from the environment and the bearers file to the gateway it starts.
  The environment, the files, the entry points, \<open>jsonschema\<close> and the key loader are arguments. An
  actuator section's config is taken to be a mapping. The lemmas: what the environment's texts mean,
  and what a dispatch of a gateway started this way had to pass.
\<close>

section \<open>\<open>float(text)\<close>\<close>

text \<open>Surrounding white space, a sign, \<open>inf\<close>, \<open>infinity\<close> or \<open>nan\<close> in any case, or a decimal with single
  underscores between its digits; anything else is a \<open>ValueError\<close> (here \<open>None\<close>).\<close>

definition digit_part :: "string \<Rightarrow> string option" where
  "digit_part s = (if s = [] then Some [] else udigits False s)"

definition exponent_part :: "string \<Rightarrow> int option" where
  "exponent_part s = (let neg = startswith s ''-''; u = (if neg \<or> startswith s ''+'' then drop 1 s else s) in
     map_option (\<lambda>ds. if neg then - int (digits_val ds) else int (digits_val ds)) (udigits False u))"

definition decimal :: "string \<Rightarrow> rat option" where
  "decimal u = (let (m, ex) = partition_on (CHR ''e'') u; (ip, fp) = partition_on (CHR ''.'') m in
     case (digit_part ip, digit_part fp, if CHR ''e'' \<in> set u then exponent_part ex else Some 0) of
       (Some i, Some f, Some e) \<Rightarrow>
         if i = [] \<and> f = [] then None
         else Some (of_nat (digits_val (i @ f)) * pow10 (e - int (length f)))
     | _ \<Rightarrow> None)"

definition float_of_str :: "string \<Rightarrow> pyfloat option" where
  "float_of_str s = (let t = lower (strip s); neg = startswith t ''-'';
       u = (if neg \<or> startswith t ''+'' then drop 1 t else t) in
     if u = ''inf'' \<or> u = ''infinity'' then Some (FInf neg)
     else if u = ''nan'' then Some FNan
     else map_option (\<lambda>x. fl (if neg then - x else x)) (decimal u))"

section \<open>The environment\<close>

type_synonym environ = "string \<Rightarrow> string option"

definition TRUTHY :: "string list" where
  "TRUTHY = [''1'', ''true'', ''yes'', ''on'']"

definition env_get :: "environ \<Rightarrow> string \<Rightarrow> string" where
  "env_get env k = (case env k of None \<Rightarrow> [] | Some v \<Rightarrow> v)"

definition env_flag :: "environ \<Rightarrow> string \<Rightarrow> bool" where
  "env_flag env k = (lower (strip (env_get env k)) \<in> set TRUTHY)"

definition require_envelope_signature_from_env :: "environ \<Rightarrow> bool" where
  "require_envelope_signature_from_env env = env_flag env ''ROBOT_MD_REQUIRE_ENVELOPE_SIGNATURE''"

definition hitl_from_manifest_from_env :: "environ \<Rightarrow> bool" where
  "hitl_from_manifest_from_env env = env_flag env ''ROBOT_MD_HITL_FROM_MANIFEST''"

definition require_rrn_binding_from_env :: "environ \<Rightarrow> bool" where
  "require_rrn_binding_from_env env = env_flag env ''ROBOT_MD_REQUIRE_RRN_BINDING''"

definition pinned_manifest_from_env :: "environ \<Rightarrow> string option" where
  "pinned_manifest_from_env env =
     (let raw = strip (env_get env ''ROBOT_MD_PATH'') in if raw = [] then None else Some raw)"

definition freshness_policy_from_env :: "environ \<Rightarrow> freshness_policy" where
  "freshness_policy_from_env env =
     (let raw = strip (env_get env ''ROBOT_MD_ENVELOPE_MAX_SKEW_S'');
          parsed = (if raw = [] then FFin 300 else case float_of_str raw of None \<Rightarrow> FFin 300 | Some x \<Rightarrow> x);
          skew = (if parsed = FFin 0 \<or> flt parsed (FFin 0) then FFin 300 else parsed) in
      \<lparr>max_skew_s = skew, require_timestamp = env_flag env ''ROBOT_MD_REQUIRE_ENVELOPE_TIMESTAMP''\<rparr>)"

text \<open>The non-empty stripped parts of a text split at a character.\<close>

definition parts :: "char \<Rightarrow> string \<Rightarrow> string list" where
  "parts c s = filter (\<lambda>t. t \<noteq> []) (map strip (split_on c s))"

definition build_tool_allowlist_from_env :: "environ \<Rightarrow> tool_allowlist option" where
  "build_tool_allowlist_from_env env =
     (let tools = parts (CHR '','') (env_get env ''ROBOT_MD_TOOL_ALLOWLIST'') in
      if tools = [] then None else Some \<lparr>allowed_tools = tools\<rparr>)"

definition tier_pair :: "string \<Rightarrow> (string \<times> string list) option" where
  "tier_pair pair =
     (if CHR '':'' \<notin> set pair then None
      else let (tool, tiers) = partition_on (CHR '':'') pair; allowed = parts (CHR ''|'') tiers in
        if strip tool = [] \<or> allowed = [] then None else Some (strip tool, allowed))"

definition build_tool_tier_requirements_from_env :: "environ \<Rightarrow> (string \<times> string list) list" where
  "build_tool_tier_requirements_from_env env =
     fold (\<lambda>pair out. case tier_pair pair of None \<Rightarrow> out | Some (tool, allowed) \<Rightarrow> AList.update tool allowed out)
       (parts (CHR '','') (env_get env ''ROBOT_MD_TOOL_MIN_TIER'')) []"

section \<open>The command\<close>

record serve_args =
  sv_robot_md :: "string option"
  sv_bearers :: "string option"
  sv_mcp_command :: "string option"

definition set_env :: "string \<Rightarrow> string option \<Rightarrow> environ \<Rightarrow> environ" where
  "set_env k v env = (case v of Some (c # cs) \<Rightarrow> env(k := Some (c # cs)) | _ \<Rightarrow> env)"

definition serve_environ :: "serve_args \<Rightarrow> environ \<Rightarrow> environ" where
  "serve_environ a env = set_env ''ROBOT_MD_MCP_COMMAND'' (sv_mcp_command a)
     (set_env ''ROBOT_MD_BEARERS_FILE'' (sv_bearers a) (set_env ''ROBOT_MD_PATH'' (sv_robot_md a) env))"

text \<open>What the host provides. A class is what calling it gives; \<open>bt_validate\<close> is \<open>jsonschema.validate\<close>
  against the actuator's \<open>config_schema\<close>; \<open>bt_claim\<close> is its \<open>claim\<close>, if it has one. The bearers file is
  read anew by each of the three loaders.\<close>

record boot_world =
  bt_crypto :: crypto
  bt_yaml :: yaml_load
  bt_read :: "nat \<Rightarrow> string \<Rightarrow> exc + string"
  bt_key_file :: "string \<Rightarrow> (exc + string) option"
  bt_load_private :: "string \<Rightarrow> exc + private_key"
  bt_entry_points :: "(string \<times> (exc + (exc + actuator))) list"
  bt_validate :: "actuator \<Rightarrow> json \<Rightarrow> exc option"
  bt_claim :: "actuator \<Rightarrow> (dict \<Rightarrow> exc option) option"
  bt_net :: "nat \<Rightarrow> string \<Rightarrow> http_reply"
  bt_trace :: trace_file
  bt_clock :: "nat \<Rightarrow> string"
  bt_schema_errors :: "dict \<Rightarrow> json"

definition validate_actuator_config :: "boot_world \<Rightarrow> actuator \<Rightarrow> json \<Rightarrow> exc + unit" where
  "validate_actuator_config b act config =
     (case bt_validate b act config of None \<Rightarrow> Inr () | Some e \<Rightarrow> Inl e)"

definition config_dict :: "json \<Rightarrow> dict" where
  "config_dict v = (case v of JObj d \<Rightarrow> d | _ \<Rightarrow> [])"

text \<open>What is logged per actuator that has a \<open>claim\<close>; a failure does not stop the boot.\<close>

definition claim_devices :: "boot_world \<Rightarrow> (actuator \<times> dict) list \<Rightarrow> (string \<times> exc option) list" where
  "claim_devices b pairs = concat (map (\<lambda>(act, config).
     case bt_claim b act of None \<Rightarrow> [] | Some claim \<Rightarrow> [(act_name act, claim config)]) pairs)"

text \<open>A name that is no str names no entry point.\<close>

definition resolve_class :: "boot_world \<Rightarrow> json \<Rightarrow> exc + (exc + actuator)" where
  "resolve_class b name =
     (case name of JStr n \<Rightarrow> resolve_actuator (bt_entry_points b) (Some n) (Inr NoOpActuator)
      | _ \<Rightarrow> bindE (discover_actuators (bt_entry_points b)) (\<lambda>found.
           if hashable name then
             Inl (LookupError (''actuator '' @ py_repr name @ '' not found in entry-point group '' @ repr_str ENTRY_POINT_GROUP))
           else Inl TypeError))"

definition start_actuator :: "boot_world \<Rightarrow> json \<times> json \<Rightarrow> exc + actuator \<times> dict" where
  "start_actuator b section =
     bindE (resolve_class b (fst section)) (\<lambda>cls. bindE cls (\<lambda>act.
     bindE (validate_actuator_config b act (snd section)) (\<lambda>_. Inr (act, config_dict (snd section)))))"

fun start_actuators :: "boot_world \<Rightarrow> (json \<times> json) list \<Rightarrow> exc + (actuator \<times> dict) list" where
  "start_actuators b [] = Inr []"
| "start_actuators b (e # es) = bindE (start_actuator b e) (\<lambda>x. bindE (start_actuators b es) (\<lambda>xs. Inr (x # xs)))"

text \<open>Keyed by the instance's own name, later ones winning.\<close>

definition by_instance_name :: "(actuator \<times> dict) list \<Rightarrow> (string \<times> actuator \<times> dict) list" where
  "by_instance_name xs = fold (\<lambda>(act, c) d. AList.update (act_name act) (act, c) d) xs []"

text \<open>The entries in the order of the file: of two with one token the later wins.\<close>

definition bearer_principals :: "bearer_store \<Rightarrow> (string \<times> string \<times> json) list" where
  "bearer_principals store = concat (map (\<lambda>(token, e). case (token, be_tier e) of
     (JStr t, JStr tier) \<Rightarrow> [(t, tier, be_caller e)] | _ \<Rightarrow> []) (rev store))"

text \<open>The fleet, as the arguments of \<open>make_app\<close>: several actuators when the bearers file lists some, one
  otherwise; and what was logged about claiming their devices. The bearers file is reading 1 and 2.\<close>

type_synonym claim_log = "(string \<times> exc option) list"

definition serve_single :: "boot_world \<Rightarrow> string option \<Rightarrow> exc + (app_args \<Rightarrow> app_args) \<times> claim_log" where
  "serve_single b bearers =
     bindE (case bearers of None \<Rightarrow> Inr (JStr ''noop'', JObj [])
            | Some path \<Rightarrow> load_actuator_section (bt_yaml b) (bt_read b 2 path)) (\<lambda>section.
     bindE (start_actuator b section) (\<lambda>(act, config).
       Inr (\<lambda>a. a\<lparr>arg_actuator := Some act, arg_actuator_config := Some config\<rparr>,
         claim_devices b [(act, config)])))"

definition serve_fleet :: "boot_world \<Rightarrow> string option \<Rightarrow> exc + (app_args \<Rightarrow> app_args) \<times> claim_log" where
  "serve_fleet b bearers =
     bindE (case bearers of None \<Rightarrow> Inr []
            | Some path \<Rightarrow> load_actuators_section (bt_yaml b) (bt_read b 1 path)) (\<lambda>entries.
     if entries = [] then serve_single b bearers
     else bindE (start_actuators b entries) (\<lambda>started.
       let named = by_instance_name started in
       Inr (\<lambda>a. a\<lparr>arg_actuators := Some (map (\<lambda>(n, act, c). (n, act)) named),
                   arg_actuator_configs := Some (map (\<lambda>(n, act, c). (n, c)) named)\<rparr>,
         claim_devices b (map snd named))))"

definition non_empty :: "string option \<Rightarrow> string option" where
  "non_empty v = (case v of Some (c # cs) \<Rightarrow> Some (c # cs) | _ \<Rightarrow> None)"

text \<open>The defaults of \<open>make_app\<close>'s keyword arguments, and the arguments \<open>serve\<close> passes. It passes no
  confidence policy, no human-in-the-loop policy, no revocation resolver and no safety monitor.\<close>

definition default_args :: app_args where
  "default_args = \<lparr>arg_allowlist = None, arg_tool_tiers = None, arg_bearer_tiers = None, arg_bearers = None,
     arg_freshness = None, arg_actuator = None, arg_actuator_config = None, arg_actuators = None,
     arg_actuator_configs = None\<rparr>"

definition serve_args_of :: "environ \<Rightarrow> bearer_store \<Rightarrow> app_args" where
  "serve_args_of env store = default_args\<lparr>arg_allowlist := build_tool_allowlist_from_env env,
     arg_tool_tiers := Some (build_tool_tier_requirements_from_env env),
     arg_bearers := Some (bearer_principals store),
     arg_freshness := Some (freshness_policy_from_env env)\<rparr>"

definition serve_config :: "boot_world \<Rightarrow> environ \<Rightarrow> signing_identity option \<Rightarrow> app_args \<Rightarrow> gateway_config" where
  "serve_config b env identity a = make_app a
     \<lparr>cf_crypto = bt_crypto b, cf_yaml = bt_yaml b, cf_allowlist = DEFAULT_ALLOWLIST, cf_tool_tiers = [],
      cf_bearers = [], cf_require_signature = require_envelope_signature_from_env env,
      cf_freshness = default_freshness, cf_confidence = None, cf_hitl = None,
      cf_hitl_from_manifest = hitl_from_manifest_from_env env, cf_require_rrn = require_rrn_binding_from_env env,
      cf_pin = pinned_manifest_from_env env, cf_check_revocation = False, cf_fleet = Single NoOpActuator [],
      cf_identity = identity, cf_export = non_empty (env ''ROBOT_MD_ATTESTATION_EXPORT_FILE''),
      cf_schema_errors = bt_schema_errors b\<rparr>"

definition new_gateway :: "boot_world \<Rightarrow> environ \<Rightarrow> rrf_resolver gateway" where
  "new_gateway b env = \<lparr>gw_monitor = None, gw_chain = Some [], gw_replay = new_replay_cache,
     gw_revocation = new_revocation_cache, gw_report = initial_report (bt_clock b), gw_frontmatter = [],
     gw_trace = bt_trace b, gw_resolver = resolver_from_env env (bt_net b), gw_dispatched = []\<rparr>"

definition serve_boot :: "boot_world \<Rightarrow> serve_args \<Rightarrow> environ
    \<Rightarrow> exc + gateway_config \<times> rrf_resolver gateway \<times> claim_log" where
  "serve_boot b args env0 =
     (let env = serve_environ args env0; bearers = non_empty (sv_bearers args) in
      bindE (load_signing_identity_from_env env (bt_key_file b) (bt_load_private b)) (\<lambda>identity.
      bindE (case bearers of None \<Rightarrow> Inr []
             | Some path \<Rightarrow> bearers_from_yaml (bt_yaml b) (bt_read b 0 path)) (\<lambda>store.
      bindE (serve_fleet b bearers) (\<lambda>(fleet_args, log).
        Inr (serve_config b env identity (fleet_args (serve_args_of env store)), new_gateway b env, log)))))"

section \<open>What the started gateway is\<close>

lemma fold_update_lookup:
  "map_of (fold (\<lambda>(k, v) d. AList.update k v d) xs d) x =
     (case map_of (rev xs) x of Some v \<Rightarrow> Some v | None \<Rightarrow> map_of d x)"
proof (induction xs arbitrary: d)
  case (Cons kv xs)
  obtain k v where "kv = (k, v)" by (cases kv)
  with Cons show ?case by (auto simp: update_conv' map_add_def split: option.splits)
qed simp

lemma index_tokens_entries: "index_tokens es = Inr store \<Longrightarrow> snd ` set store = set es"
proof (induction es arbitrary: store)
  case (Cons e es)
  then obtain rest where "index_tokens es = Inr rest" "store = rest @ [(be_token e, e)]"
    by (auto simp: bindE_Inr_iff split: if_splits)
  with Cons.IH show ?case by auto
qed simp

lemma loaded_tiers:
  assumes "bearers_from_yaml yaml read = Inr store" "e \<in> snd ` set store"
  shows "known_tier (be_tier e)"
proof -
  obtain es where "\<forall>e \<in> set es. known_tier (be_tier e)" "index_tokens es = Inr store"
    using assms(1) by (auto simp: bearers_from_yaml_def Let_def bindE_Inr_iff split: if_splits)
  with index_tokens_entries assms(2) show ?thesis by blast
qed

text \<open>Who a bearer token is, by the store.\<close>

definition stored_principal :: "bearer_store \<Rightarrow> string \<Rightarrow> string \<times> json" where
  "stored_principal store token =
     (case resolve_bearer store token of
        Some e \<Rightarrow> (case be_tier e of JStr tier \<Rightarrow> (tier, be_caller e) | _ \<Rightarrow> (''anon'', JNull))
      | None \<Rightarrow> (''anon'', JNull))"

lemma key_eq_JStr: "key_eq (JStr a) (JStr b) \<longleftrightarrow> a = b" "key_eq k (JStr b) \<longleftrightarrow> k = JStr b"
  by (auto simp: key_eq_def)

lemma principals_lookup:
  assumes "\<forall>e \<in> snd ` set store. known_tier (be_tier e)"
  shows "map_of (rev (bearer_principals store)) t =
    (case store_get store (JStr t) of None \<Rightarrow> None
     | Some e \<Rightarrow> (case be_tier e of JStr tier \<Rightarrow> Some (tier, be_caller e) | _ \<Rightarrow> None))"
  using assms
proof (induction store)
  case (Cons x store)
  obtain k e where x: "x = (k, e)" by (cases x)
  with Cons.prems obtain tier where "be_tier e = JStr tier" by (auto simp: known_tier_def)
  with Cons x show ?case
    by (cases k) (auto simp: bearer_principals_def key_eq_JStr map_add_def split: option.splits)
qed (simp add: bearer_principals_def)

lemma bearers_principal:
  assumes "\<forall>e \<in> snd ` set store. known_tier (be_tier e)"
  shows "principal (cf\<lparr>cf_bearers := bearer_index [] (bearer_principals store)\<rparr>) (Some (''Bearer '' @ token)) =
    stored_principal store token"
proof -
  have i: "bearer_index [] xs = fold (\<lambda>(k, v) d. AList.update k v d) xs []" for xs
    by (simp add: bearer_index_def)
  show ?thesis
    using principals_lookup [OF assms, of token] loaded_tiers
    by (auto simp: principal_def i fold_update_lookup stored_principal_def resolve_bearer_def
        split: option.splits json.splits)
qed

text \<open>The fleet's arguments leave the others alone.\<close>

definition same_policy :: "app_args \<Rightarrow> app_args \<Rightarrow> bool" where
  "same_policy a a' \<longleftrightarrow> arg_allowlist a' = arg_allowlist a \<and> arg_tool_tiers a' = arg_tool_tiers a \<and>
     arg_bearer_tiers a' = arg_bearer_tiers a \<and> arg_bearers a' = arg_bearers a \<and> arg_freshness a' = arg_freshness a"

lemma serve_fleet_policy: "serve_fleet b bearers = Inr (f, claims) \<Longrightarrow> same_policy a (f a)"
  by (auto simp: serve_fleet_def serve_single_def same_policy_def Let_def bindE_Inr_iff split: if_splits prod.splits)

lemma serve_boot_cases:
  assumes "serve_boot b args env0 = Inr (cf, g, claims)"
  obtains store where
    "case non_empty (sv_bearers args) of None \<Rightarrow> store = []
     | Some path \<Rightarrow> bearers_from_yaml (bt_yaml b) (bt_read b 0 path) = Inr store"
    "cf = cf\<lparr>cf_crypto := bt_crypto b, cf_yaml := bt_yaml b,
       cf_allowlist := (case build_tool_allowlist_from_env (serve_environ args env0) of
         None \<Rightarrow> DEFAULT_ALLOWLIST | Some al \<Rightarrow> al),
       cf_tool_tiers := build_tool_tier_requirements_from_env (serve_environ args env0),
       cf_bearers := bearer_index [] (bearer_principals store),
       cf_require_signature := require_envelope_signature_from_env (serve_environ args env0),
       cf_freshness := freshness_policy_from_env (serve_environ args env0), cf_confidence := None, cf_hitl := None,
       cf_hitl_from_manifest := hitl_from_manifest_from_env (serve_environ args env0),
       cf_require_rrn := require_rrn_binding_from_env (serve_environ args env0),
       cf_pin := pinned_manifest_from_env (serve_environ args env0), cf_check_revocation := False\<rparr>"
    "g = new_gateway b (serve_environ args env0)"
proof -
  obtain identity store f where b:
    "(case non_empty (sv_bearers args) of None \<Rightarrow> Inr []
      | Some path \<Rightarrow> bearers_from_yaml (bt_yaml b) (bt_read b 0 path)) = Inr store"
    "serve_fleet b (non_empty (sv_bearers args)) = Inr (f, claims)"
    "cf = serve_config b (serve_environ args env0) identity (f (serve_args_of (serve_environ args env0) store))"
    "g = new_gateway b (serve_environ args env0)"
    using assms by (auto simp: serve_boot_def Let_def bindE_Inr_iff)
  have "same_policy (serve_args_of (serve_environ args env0) store)
      (f (serve_args_of (serve_environ args env0) store))"
    using serve_fleet_policy [OF b(2)] .
  then show thesis
    using b by (intro that [of store])
      (auto simp: same_policy_def serve_config_def make_app_def serve_args_of_def default_args_def split: option.splits)
qed

lemma booted_config:
  assumes "serve_boot b args env0 = Inr (cf, g, claims)"
  shows "cf_allowlist cf = (case build_tool_allowlist_from_env (serve_environ args env0) of
         None \<Rightarrow> DEFAULT_ALLOWLIST | Some al \<Rightarrow> al)"
    "cf_tool_tiers cf = build_tool_tier_requirements_from_env (serve_environ args env0)"
    "cf_require_signature cf = require_envelope_signature_from_env (serve_environ args env0)"
    "cf_freshness cf = freshness_policy_from_env (serve_environ args env0)"
    "cf_confidence cf = None" "cf_hitl cf = None"
    "cf_require_rrn cf = require_rrn_binding_from_env (serve_environ args env0)"
    "cf_pin cf = pinned_manifest_from_env (serve_environ args env0)" "\<not> cf_check_revocation cf"
    "gw_monitor g = None" "gw_chain g = Some []" "cf_crypto cf = bt_crypto b"
  by (rule serve_boot_cases [OF assms]; cases cf; simp add: new_gateway_def)+

lemma booted_principal:
  assumes "serve_boot b args env0 = Inr (cf, g, claims)"
  obtains store where
    "case non_empty (sv_bearers args) of None \<Rightarrow> store = []
     | Some path \<Rightarrow> bearers_from_yaml (bt_yaml b) (bt_read b 0 path) = Inr store"
    "\<And>token. principal cf (Some (''Bearer '' @ token)) = stored_principal store token"
proof -
  obtain store where s: "case non_empty (sv_bearers args) of None \<Rightarrow> store = []
     | Some path \<Rightarrow> bearers_from_yaml (bt_yaml b) (bt_read b 0 path) = Inr store"
    "cf = cf\<lparr>cf_bearers := bearer_index [] (bearer_principals store)\<rparr>"
    by (rule serve_boot_cases [OF assms], cases cf) auto
  have "\<forall>e \<in> snd ` set store. known_tier (be_tier e)"
    using s(1) loaded_tiers by (auto split: option.splits)
  from bearers_principal [OF this, of cf] s show thesis by (intro that [of store]) auto
qed

section \<open>A gateway without a safety monitor stays without\<close>

definition stays_unmonitored :: "('a, 'rs) stage \<Rightarrow> bool" where
  "stays_unmonitored m \<longleftrightarrow> (\<forall>s. gw_monitor s = None \<longrightarrow> gw_monitor (snd (m s)) = None)"

named_theorems unmonitored_frames

lemma unmonitored_bind [unmonitored_frames]:
  "stays_unmonitored m \<Longrightarrow> (\<And>x. stays_unmonitored (f x)) \<Longrightarrow> stays_unmonitored (bindS m f)"
  unfolding stays_unmonitored_def bindS_def by (auto split: prod.splits sum.splits) (metis snd_conv)+

lemma unmonitored_pure [unmonitored_frames]:
  "stays_unmonitored (go_on x)" "stays_unmonitored (stop_with rep)" "stays_unmonitored (lift_exc y)"
  by (auto simp: stays_unmonitored_def go_on_def stop_with_def lift_exc_def split: sum.splits)

lemma deny_monitor [simp]: "gw_monitor (snd (deny cf w rq d b s)) = gw_monitor s"
  by (auto simp: deny_def evidence_only_fields split: prod.splits sum.splits dest!: record_with_outcome_frame)

lemma deny_gate_monitor [simp]: "gw_monitor (snd (deny_gate cf w rq dc g why s)) = gw_monitor s"
  by (simp add: deny_gate_def)

lemma run_gate_monitor [simp]: "gw_monitor (snd (run_gate cf w rq dc g check s)) = gw_monitor s"
  by (auto simp: run_gate_def split: prod.splits sum.splits bool.splits)

lemma unmonitored_stages [unmonitored_frames]:
  "stays_unmonitored (deny_gate cf w rq dc g why)" "stays_unmonitored (run_gate cf w rq dc g check)"
  "stays_unmonitored (safety_stage cf w rq)" "stays_unmonitored (signature_stage cf w resolve rq)"
  "stays_unmonitored (replay_stage cf w rq kid)"
  "stays_unmonitored (revocation_stage cf w rq kid)" "stays_unmonitored (schema_stage cf rq)"
  "stays_unmonitored (manifest_stage cf w resolve rq ie)" "stays_unmonitored (manifest_frontmatter cf w n path)"
  by (auto simp: stays_unmonitored_def safety_stage_def signature_stage_def replay_stage_def revocation_stage_def
      schema_stage_def manifest_stage_def manifest_frontmatter_def bindS_def lift_exc_def go_on_def stop_with_def
      Let_def split: option.splits prod.splits sum.splits bool.splits)

lemma gates_unmonitored: "stays_unmonitored (gates cf w resolve rq)"
  unfolding gates_split envelope_stage_def later_gates_def pin_stage_def rrn_stage_def policy_stage_def
    confidence_stage_def hitl_stage_def effective_hitl_def Let_def
  by (auto intro!: unmonitored_frames split: option.split)

lemma unmonitoredD: "stays_unmonitored m \<Longrightarrow> m s = (a, t) \<Longrightarrow> gw_monitor s = None \<Longrightarrow> gw_monitor t = None"
  unfolding stays_unmonitored_def by (metis snd_conv)

lemma handle_unmonitored:
  assumes "gw_monitor s = None"
  shows "gw_monitor (handle cf resolve a s) = None"
proof -
  obtain w env auth where a: "a = (w, env, auth)" by (metis surj_pair)
  obtain rep s' where i: "invoke cf resolve w env auth s = (rep, s')" by (meson surj_pair)
  note t = unmonitoredD [OF gates_unmonitored _ assms]
  from i have "gw_monitor s' = None"
    by (cases rule: invoke_cases) (auto dest: t elim!: dispatch_to_calls)
  with a i show ?thesis by (simp add: handle_def)
qed

lemma serve_unmonitored: "gw_monitor s = None \<Longrightarrow> gw_monitor (serve cf resolve as s) = None"
  by (induction as arbitrary: s) (simp_all add: serve_def handle_unmonitored)

section \<open>Properties of a served gateway\<close>

text \<open>C30. What an operator's environment promises holds at every actuator call of the gateway \<open>serve\<close> started: the
  tool is on the configured allowlist (or the built-in one), the caller's tier is one bound to the
  tool, the manifest is the pinned file, with signatures required the envelope was verified, fresh and
  no replay, and a caller above anon presented a token of the bearers file at that file's tier.\<close>

theorem served_dispatch_vouched:
  assumes "serve_boot b args env0 = Inr (cf, g, claims)"
    and "invoke cf resolve_public_key_pem w req auth s = (rep, s')" "gw_dispatched s' = gw_dispatched s @ [call]"
  shows "is_allowed (case build_tool_allowlist_from_env (serve_environ args env0) of
      None \<Rightarrow> DEFAULT_ALLOWLIST | Some al \<Rightarrow> al) (dp_tool call) \<and>
    (\<forall>tiers. map_of (build_tool_tier_requirements_from_env (serve_environ args env0)) (dp_tool call) = Some tiers \<longrightarrow>
       dp_tier call \<in> set tiers) \<and>
    (\<forall>pin. pinned_manifest_from_env (serve_environ args env0) = Some pin \<longrightarrow>
       (\<exists>path p. get req ''manifest_path'' = JStr path \<and> w_realpath w path = Inr p \<and> w_realpath w pin = Inr p)) \<and>
    (require_envelope_signature_from_env (serve_environ args env0) \<longrightarrow>
       envelope_cleared cf resolve_public_key_pem w req s) \<and>
    (dp_tier call = ''anon'' \<or>
     (\<exists>token path store e. auth = Some (''Bearer '' @ token) \<and> sv_bearers args = Some path \<and>
        bearers_from_yaml (bt_yaml b) (bt_read b 0 path) = Inr store \<and> resolve_bearer store token = Some e \<and>
        be_tier e = JStr (dp_tier call)))"
  using assms(2)
proof (cases rule: invoke_cases)
  case stopped
  with assms(3) show ?thesis by (simp add: stops_def)
next
  case unrouted
  with assms(3) show ?thesis by (simp add: untouched_def)
next
  case (dispatched ie kid rrn act config t)
  obtain c where "gw_dispatched s' = gw_dispatched t @ [c]" "dp_tool c = ie_tool_name ie"
      "dp_tier c = rq_tier (request_of cf req auth)"
    by (rule dispatch_to_calls [OF dispatched(4)])
  with assms(3) dispatched(3) have call: "dp_tool call = ie_tool_name ie" "dp_tier call = fst (principal cf auth)"
    by (simp_all add: untouched_def request_of_def)
  have c: "cleared cf resolve_public_key_pem w (request_of cf req auth) s ie kid rrn"
    using gates_pass(1) [OF dispatched(1)] .
  then have path: "get req ''manifest_path'' = JStr (ie_manifest_path ie)"
    by (auto simp: cleared_def request_of_def parse_envelope_def split: if_splits json.splits)
  have "dp_tier call = ''anon'' \<or>
     (\<exists>token path store e. auth = Some (''Bearer '' @ token) \<and> sv_bearers args = Some path \<and>
        bearers_from_yaml (bt_yaml b) (bt_read b 0 path) = Inr store \<and> resolve_bearer store token = Some e \<and>
        be_tier e = JStr (dp_tier call))"
  proof (cases "\<exists>token. auth = Some (''Bearer '' @ token)")
    case True
    then obtain token where token: "auth = Some (''Bearer '' @ token)" by blast
    obtain store where "case non_empty (sv_bearers args) of None \<Rightarrow> store = []
        | Some path \<Rightarrow> bearers_from_yaml (bt_yaml b) (bt_read b 0 path) = Inr store"
      "principal cf auth = stored_principal store token"
      by (rule booted_principal [OF assms(1)]) (auto simp: token)
    with call(2) token show ?thesis
      by (auto simp: stored_principal_def resolve_bearer_def non_empty_def split: option.splits list.splits json.splits)
  next
    case False
    then have "principal cf auth = (''anon'', JNull)"
      by (auto simp: principal_def startswith_iff split: option.splits)
    with call(2) show ?thesis by simp
  qed
  moreover have "(\<forall>pin. pinned_manifest_from_env (serve_environ args env0) = Some pin \<longrightarrow>
       (\<exists>path p. get req ''manifest_path'' = JStr path \<and> w_realpath w path = Inr p \<and> w_realpath w pin = Inr p))"
    using c path by (simp add: cleared_def manifest_cleared_def booted_config [OF assms(1)])
  ultimately show ?thesis
    using c call by (simp add: cleared_def policy_cleared_def request_of_def booted_config(1-4) [OF assms(1)])
qed

text \<open>C31. The gates \<open>serve\<close> does not configure never decide anything: whatever the gateway has served, the safety,
  revocation and confidence checks let every request through unchanged, and so does the
  human-in-the-loop check unless the environment takes it from the manifest.\<close>

theorem serve_leaves_gates_off:
  assumes "serve_boot b args env0 = Inr (cf, g, claims)"
    and "s = serve cf resolve_public_key_pem arrivals g"
  shows "safety_stage cf w rq s = (Inr (), s) \<and> revocation_stage cf w rq kid s = (Inr (), s) \<and>
    confidence_stage cf w rq ie kid rrn s = (Inr (), s) \<and>
    (\<not> hitl_from_manifest_from_env (serve_environ args env0) \<longrightarrow> hitl_stage cf w rq ie kid rrn s = (Inr (), s))"
proof -
  have off: "cf_hitl_from_manifest cf = hitl_from_manifest_from_env (serve_environ args env0)"
    by (rule serve_boot_cases [OF assms(1)], cases cf) simp
  have "gw_monitor s = None"
    by (simp add: assms(2) serve_unmonitored booted_config(10) [OF assms(1)])
  then show ?thesis
    using booted_config [OF assms(1)] off
    by (simp add: safety_stage_def revocation_stage_def confidence_stage_def hitl_stage_def effective_hitl_def
        bindS_def go_on_def)
qed

section \<open>A concrete start\<close>

definition demo_boot :: boot_world where
  "demo_boot = \<lparr>bt_crypto = tiny_crypto,
     bt_yaml = (\<lambda>_. Inr (JObj [(''bearers'', JArr [JObj [(''token'', JStr ''t''), (''tier'', JStr ''actuate'')]])])),
     bt_read = (\<lambda>n p. Inr []), bt_key_file = (\<lambda>p. None), bt_load_private = (\<lambda>k. Inl ValueError),
     bt_entry_points = [], bt_validate = (\<lambda>a c. None), bt_claim = (\<lambda>a. None),
     bt_net = (\<lambda>n url. Reply 200 (dumps (JObj [(''public_key_pem'', JStr ''P'')]))),
     bt_trace = \<lparr>export = None, head_file = None\<rparr>, bt_clock = (\<lambda>_. []), bt_schema_errors = (\<lambda>_. JNull)\<rparr>"

definition demo_environ :: environ where
  "demo_environ = [''ROBOT_MD_REQUIRE_ENVELOPE_SIGNATURE'' \<mapsto> '' Yes'',
     ''ROBOT_MD_TOOL_ALLOWLIST'' \<mapsto> ''arm.stop, arm.home,'', ''ROBOT_MD_TOOL_MIN_TIER'' \<mapsto> ''arm.home:actuate|commission'']"

definition demo_serve_args :: serve_args where
  "demo_serve_args = \<lparr>sv_robot_md = Some ''ROBOT.md'', sv_bearers = Some ''bearers.yaml'', sv_mcp_command = None\<rparr>"

definition demo_served :: "gateway_config \<times> rrf_resolver gateway \<times> claim_log" where
  "demo_served = projr (serve_boot demo_boot demo_serve_args demo_environ)"

lemma demo_served_eq: "serve_boot demo_boot demo_serve_args demo_environ = Inr demo_served"
proof -
  have "isl (serve_boot demo_boot demo_serve_args demo_environ) = False" by code_simp
  then show ?thesis by (simp add: demo_served_def)
qed

definition demo_call :: "reply \<times> rrf_resolver gateway" where
  "demo_call = invoke (fst demo_served) resolve_public_key_pem demo_world demo_envelope (Some ''Bearer t'')
     (fst (snd demo_served))"

abbreviation demo_caller :: request where
  "demo_caller \<equiv> request_of (fst demo_served) demo_envelope (Some ''Bearer t'')"

lemma demo_served_gates:
  "(case fst (gates (fst demo_served) demo_world resolve_public_key_pem demo_caller (fst (snd demo_served))) of
      Inr (ie, kid, rrn) \<Rightarrow> True | _ \<Rightarrow> False)"
  by code_simp

lemma demo_served_routes: "(case cf_fleet (fst demo_served) of Single a c \<Rightarrow> True | _ \<Rightarrow> False)"
  by code_simp

lemma demo_call_made: "\<exists>call. gw_dispatched (snd demo_call) = gw_dispatched (fst (snd demo_served)) @ [call]"
proof -
  obtain ie kid rrn t where g: "gates (fst demo_served) demo_world resolve_public_key_pem demo_caller
      (fst (snd demo_served)) = (Inr (ie, kid, rrn), t)"
    using demo_served_gates
    by (cases "gates (fst demo_served) demo_world resolve_public_key_pem demo_caller (fst (snd demo_served))")
      (auto split: sum.splits)
  obtain act c where r: "route (cf_fleet (fst demo_served)) ie = Inr (act, c)"
    using demo_served_routes by (auto simp: route_def split: fleet.splits)
  have "demo_call = dispatch_to (fst demo_served) demo_world demo_caller ie kid rrn (act, c) t"
    using g r by (simp add: demo_call_def invoke_def Let_def)
  then obtain rep s' where d: "demo_call = (rep, s')"
      "dispatch_to (fst demo_served) demo_world demo_caller ie kid rrn (act, c) t = (rep, s')" by (metis surj_pair)
  obtain call where "gw_dispatched s' = gw_dispatched t @ [call]" by (rule dispatch_to_calls [OF d(2)])
  moreover have "untouched (fst (snd demo_served)) t" by (rule guarded_passes [OF guarded_gates g])
  ultimately show ?thesis unfolding d(1) snd_conv by (simp add: untouched_def)
qed

theorem served_dispatch_vouched_witness:
  "\<exists>call :: dispatch. is_allowed (case build_tool_allowlist_from_env (serve_environ demo_serve_args demo_environ) of
      None \<Rightarrow> DEFAULT_ALLOWLIST | Some al \<Rightarrow> al) (dp_tool call) \<and>
    (\<forall>tiers. map_of (build_tool_tier_requirements_from_env (serve_environ demo_serve_args demo_environ)) (dp_tool call)
       = Some tiers \<longrightarrow> dp_tier call \<in> set tiers) \<and>
    (\<forall>pin. pinned_manifest_from_env (serve_environ demo_serve_args demo_environ) = Some pin \<longrightarrow>
       (\<exists>path p. get demo_envelope ''manifest_path'' = JStr path \<and> w_realpath demo_world path = Inr p \<and>
          w_realpath demo_world pin = Inr p)) \<and>
    (require_envelope_signature_from_env (serve_environ demo_serve_args demo_environ) \<longrightarrow>
       envelope_cleared (fst demo_served) resolve_public_key_pem demo_world demo_envelope (fst (snd demo_served))) \<and>
    (dp_tier call = ''anon'' \<or>
     (\<exists>token path store e. Some ''Bearer t'' = Some (''Bearer '' @ token) \<and> sv_bearers demo_serve_args = Some path \<and>
        bearers_from_yaml (bt_yaml demo_boot) (bt_read demo_boot 0 path) = Inr store \<and>
        resolve_bearer store token = Some e \<and> be_tier e = JStr (dp_tier call)))"
proof -
  obtain cf g claims where d: "demo_served = (cf, g, claims)" by (metis surj_pair)
  obtain rep s' where c: "demo_call = (rep, s')" by (meson surj_pair)
  have i: "invoke cf resolve_public_key_pem demo_world demo_envelope (Some ''Bearer t'') g = (rep, s')"
    using c unfolding demo_call_def d fst_conv snd_conv .
  obtain call where "gw_dispatched s' = gw_dispatched g @ [call]" using demo_call_made unfolding c d fst_conv snd_conv by blast
  note v = served_dispatch_vouched [OF demo_served_eq [unfolded d] i this]
  show ?thesis unfolding d fst_conv snd_conv by (rule exI [of _ call], rule v)
qed

theorem serve_leaves_gates_off_witness:
  "\<forall>ie rrn. safety_stage (fst demo_served) demo_world demo_caller (snd demo_call) = (Inr (), snd demo_call) \<and>
    revocation_stage (fst demo_served) demo_world demo_caller (JStr ''K'') (snd demo_call) = (Inr (), snd demo_call) \<and>
    confidence_stage (fst demo_served) demo_world demo_caller ie (JStr ''K'') rrn (snd demo_call) = (Inr (), snd demo_call) \<and>
    (\<not> hitl_from_manifest_from_env (serve_environ demo_serve_args demo_environ) \<longrightarrow>
       hitl_stage (fst demo_served) demo_world demo_caller ie (JStr ''K'') rrn (snd demo_call) = (Inr (), snd demo_call))"
proof -
  obtain cf g claims where d: "demo_served = (cf, g, claims)" by (metis surj_pair)
  have "snd demo_call = serve cf resolve_public_key_pem [(demo_world, demo_envelope, Some ''Bearer t'')] g"
    unfolding demo_call_def d fst_conv snd_conv by (simp add: serve_def handle_def)
  from serve_leaves_gates_off [OF demo_served_eq [unfolded d] this] show ?thesis
    unfolding d fst_conv by blast
qed

section \<open>What the texts mean\<close>

lemma lower_digits: "\<forall>c \<in> set s. is_digit c \<Longrightarrow> lower s = s"
  by (induction s) (auto simp: lower_def lower_char_def is_digit_def Let_def)

lemma strip_iff:
  assumes "s \<noteq> []"
  shows "strip s = s \<longleftrightarrow> \<not> py_isspace (hd s) \<and> \<not> py_isspace (last s)"
proof -
  have le: "length (strip s) \<le> length (dropWhile py_isspace s)"
    unfolding strip_def lstrip_def rstrip_def length_rev
    by (metis length_dropWhile_le length_rev)
  obtain c cs where c: "s = c # cs" using assms by (cases s) auto
  obtain ds d where d: "s = ds @ [d]" using assms by (cases s rule: rev_cases) auto
  show ?thesis
  proof
    assume e: "strip s = s"
    have "\<not> py_isspace (hd s)"
    proof
      assume "py_isspace (hd s)"
      with c have "length (dropWhile py_isspace s) < length s" by (simp add: length_dropWhile_le less_Suc_eq_le)
      with le e show False by simp
    qed
    moreover from this c have "lstrip s = s" by (simp add: lstrip_def)
    moreover have "\<not> py_isspace d" if "rstrip s = s"
    proof
      assume "py_isspace d"
      with d have "rstrip s = rstrip ds" by (simp add: rstrip_def)
      moreover have "length (rstrip ds) \<le> length ds" unfolding rstrip_def length_rev
        by (metis length_dropWhile_le length_rev)
      ultimately show False using that d by simp
    qed
    ultimately show "\<not> py_isspace (hd s) \<and> \<not> py_isspace (last s)" using e d by (simp add: strip_def)
  next
    assume a: "\<not> py_isspace (hd s) \<and> \<not> py_isspace (last s)"
    have "lstrip s = s" using a unfolding c lstrip_def by simp
    moreover have "rstrip s = s" using a unfolding d rstrip_def by simp
    ultimately show "strip s = s" by (simp add: strip_def)
  qed
qed

lemma strip_joined:
  assumes "s \<noteq> []" "t \<noteq> []" "strip s = s" "strip t = t"
  shows "strip (s @ u @ t) = s @ u @ t"
  using assms by (simp add: strip_iff)

lemma split_on_join: "xs \<noteq> [] \<Longrightarrow> \<forall>x \<in> set xs. c \<notin> set x \<Longrightarrow> split_on c (join [c] xs) = xs"
proof (induction xs rule: induct_list012)
  case (3 x y ys)
  then show ?case using split_on_sep [of c x "join [c] (y # ys)"] by simp
qed (simp_all add: split_on_free)

text \<open>A stripped non-empty word without any of some characters.\<close>

definition clean_word :: "char set \<Rightarrow> string \<Rightarrow> bool" where
  "clean_word bad s \<longleftrightarrow> s \<noteq> [] \<and> strip s = s \<and> set s \<inter> bad = {}"

lemma parts_join:
  assumes "\<forall>x \<in> set xs. x \<noteq> [] \<and> strip x = x \<and> c \<notin> set x"
  shows "parts c (join [c] xs) = xs"
proof (cases "xs = []")
  case True
  then show ?thesis by (simp add: parts_def join_def strip_def lstrip_def rstrip_def)
next
  case False
  have "map strip xs = xs" using assms by (induction xs) auto
  moreover have "filter (\<lambda>t. t \<noteq> []) xs = xs" using assms by simp
  ultimately show ?thesis using split_on_join [OF False, of c] assms by (simp add: parts_def)
qed

lemma join_words:
  "xs \<noteq> [] \<Longrightarrow> \<forall>x \<in> set xs. x \<noteq> [] \<and> strip x = x \<Longrightarrow>
     join [c] xs \<noteq> [] \<and> strip (join [c] xs) = join [c] xs \<and> set (join [c] xs) \<subseteq> insert c (\<Union> (set ` set xs))"
proof (induction xs rule: induct_list012)
  case (3 x y ys)
  then show ?case using strip_joined [of x "join [c] (y # ys)" "[c]"] by auto
qed auto

text \<open>\<open>ROBOT_MD_TOOL_MIN_TIER\<close> written out.\<close>

definition render_tiers :: "(string \<times> string list) list \<Rightarrow> string" where
  "render_tiers m = join '','' (map (\<lambda>(tool, tiers). tool @ '':'' @ join ''|'' tiers) m)"

definition clean_binding :: "string \<times> string list \<Rightarrow> bool" where
  "clean_binding p \<longleftrightarrow> clean_word {CHR '','', CHR '':''} (fst p) \<and> snd p \<noteq> [] \<and>
     (\<forall>t \<in> set (snd p). clean_word {CHR '','', CHR ''|''} t)"

lemma tier_pair_of_binding:
  assumes "clean_binding (tool, tiers)"
  shows "tier_pair (tool @ '':'' @ join ''|'' tiers) = Some (tool, tiers)"
    and "strip (tool @ '':'' @ join ''|'' tiers) = tool @ '':'' @ join ''|'' tiers"
    and "CHR '','' \<notin> set (tool @ '':'' @ join ''|'' tiers)"
proof -
  have t: "tool \<noteq> []" "strip tool = tool" "CHR '','' \<notin> set tool" "CHR '':'' \<notin> set tool" "tiers \<noteq> []"
    and ts: "\<forall>x \<in> set tiers. x \<noteq> [] \<and> strip x = x \<and> CHR ''|'' \<notin> set x" "\<forall>x \<in> set tiers. CHR '','' \<notin> set x"
    using assms by (auto simp: clean_binding_def clean_word_def)
  have j: "join ''|'' tiers \<noteq> []" "strip (join ''|'' tiers) = join ''|'' tiers"
      "set (join ''|'' tiers) \<subseteq> insert (CHR ''|'') (\<Union> (set ` set tiers))"
    using join_words [of tiers "CHR ''|''"] t ts by blast+
  have w: "takeWhile (\<lambda>x. x \<noteq> CHR '':'') (tool @ CHR '':'' # r) = tool"
      "dropWhile (\<lambda>x. x \<noteq> CHR '':'') (tool @ CHR '':'' # r) = CHR '':'' # r" for r
    using t(4) by (induction tool) auto
  show "tier_pair (tool @ '':'' @ join ''|'' tiers) = Some (tool, tiers)"
    using t parts_join [OF ts(1)] by (simp add: tier_pair_def partition_on_def w)
  show "strip (tool @ '':'' @ join ''|'' tiers) = tool @ '':'' @ join ''|'' tiers"
    by (rule strip_joined [OF t(1) j(1) t(2) j(2)])
  show "CHR '','' \<notin> set (tool @ '':'' @ join ''|'' tiers)"
    using t j(3) ts(2) by auto
qed

lemma fold_update_distinct:
  "distinct (map fst m) \<Longrightarrow> fst ` set m \<inter> fst ` set d = {} \<Longrightarrow>
     fold (\<lambda>(k, v) d. AList.update k v d) m d = d @ m"
proof (induction m arbitrary: d)
  case (Cons kv m)
  obtain k v where "kv = (k, v)" by (cases kv)
  moreover have "AList.update k v d = d @ [(k, v)]" if "k \<notin> fst ` set d"
    using that by (induction d) auto
  ultimately show ?case using Cons by auto
qed simp

text \<open>C32. The tool bindings an operator writes are the bindings the gateway enforces: a mapping from tools to tiers
  written out as the documentation of \<open>ROBOT_MD_TOOL_MIN_TIER\<close> describes is read back entry by entry.\<close>

theorem tool_tiers_round_trip:
  assumes "\<forall>p \<in> set m. clean_binding p" "distinct (map fst m)"
    and "env ''ROBOT_MD_TOOL_MIN_TIER'' = Some (render_tiers m)"
  shows "build_tool_tier_requirements_from_env env = m"
proof -
  let ?pairs = "map (\<lambda>(tool, tiers). tool @ '':'' @ join ''|'' tiers) m"
  have clean: "clean_binding (tool, tiers)" if "(tool, tiers) \<in> set m" for tool tiers
    using that assms(1) by blast
  have "\<forall>x \<in> set ?pairs. x \<noteq> [] \<and> strip x = x \<and> CHR '','' \<notin> set x"
    using tier_pair_of_binding(2,3) [OF clean] by fastforce
  then have pairs: "parts (CHR '','') (env_get env ''ROBOT_MD_TOOL_MIN_TIER'') = ?pairs"
    by (simp only: env_get_def assms(3) option.case render_tiers_def parts_join)
  have "fold (\<lambda>pair out. case tier_pair pair of None \<Rightarrow> out | Some (tool, allowed) \<Rightarrow> AList.update tool allowed out) ?pairs d =
      fold (\<lambda>(k, v) d. AList.update k v d) m d" for d
    using clean
  proof (induction m arbitrary: d)
    case (Cons p m)
    then show ?case using tier_pair_of_binding(1) by (cases p) simp
  qed simp
  then show ?thesis
    using fold_update_distinct [OF assms(2), of "[]"] pairs
    by (simp only: build_tool_tier_requirements_from_env_def) simp
qed

theorem tool_tiers_round_trip_witness:
  "build_tool_tier_requirements_from_env
     [''ROBOT_MD_TOOL_MIN_TIER'' \<mapsto> render_tiers [(''arm.home'', [''actuate'', ''commission'']), (''status'', [''read''])]] =
   [(''arm.home'', [''actuate'', ''commission'']), (''status'', [''read''])]"
proof (rule tool_tiers_round_trip)
  show "\<forall>p \<in> set [(''arm.home'', [''actuate'', ''commission'']), (''status'', [''read''])]. clean_binding p"
    by (simp add: clean_binding_def clean_word_def strip_iff) (simp add: py_isspace_def)
qed simp_all

text \<open>A text of digits is the number they write.\<close>

lemma float_of_digits:
  assumes "\<forall>c \<in> set s. is_digit c" "s \<noteq> []"
  shows "float_of_str s = Some (fl (of_nat (digits_val s)))"
proof -
  obtain c cs where c: "s = c # cs" "is_digit c" using assms by (cases s) auto
  have not: "CHR ''e'' \<notin> set s" "CHR ''.'' \<notin> set s" using assms(1) by (auto simp: is_digit_def Let_def)
  have "strip s = s" by (rule strip_digits [OF assms(1)])
  moreover have "lower s = s" by (rule lower_digits [OF assms(1)])
  moreover have "\<not> startswith s ''-''" "\<not> startswith s ''+''" "s \<noteq> ''inf''" "s \<noteq> ''infinity''" "s \<noteq> ''nan''"
    using c by (auto simp: is_digit_def Let_def)
  moreover have "decimal s = Some (of_nat (digits_val s))"
  proof -
    have p: "partition_on x s = (s, [])" if "x \<notin> set s" for x
      using that by (induction s) (auto simp: partition_on_def)
    show ?thesis
      using udigits_digits [OF assms(1), of False] assms(2) not
      by (simp add: decimal_def p digit_part_def pow10_def)
  qed
  ultimately show ?thesis by (simp add: float_of_str_def Let_def)
qed

lemma skew_of_number:
  assumes "env ''ROBOT_MD_ENVELOPE_MAX_SKEW_S'' = Some (nat_str n)" "0 < n" "n < 2 ^ 42"
  shows "max_skew_s (freshness_policy_from_env env) = FFin (of_int (int n))"
proof -
  have d: "\<forall>c \<in> set (nat_str n). is_digit c" by (rule nat_str_digits)
  have "strip (nat_str n) = nat_str n" by (rule strip_digits [OF d])
  moreover have "fl (of_nat n) = FFin (of_int (int n))"
    using fl_int [of "int n"] assms(2,3) by simp
  ultimately show ?thesis
    using assms float_of_digits [OF d nat_str_nonempty]
    by (simp add: freshness_policy_from_env_def env_get_def Let_def)
qed

text \<open>The freshness window is the one the operator wrote: with \<open>ROBOT_MD_ENVELOPE_MAX_SKEW_S\<close> set to a positive
  decimal number of seconds, a timestamped envelope is accepted if and only if it is at most that many
  seconds away from the gateway's clock, to the millisecond.\<close>

theorem skew_from_env_exact:
  assumes "env ''ROBOT_MD_ENVELOPE_MAX_SKEW_S'' = Some (nat_str n)" "0 < n" "n < 2 ^ 42"
    and "py_int (get req ''timestamp_ms'') = Inr ts" "get req ''timestamp_ms'' \<noteq> JNull"
  shows "accepts (check_freshness req (freshness_policy_from_env env) now r) \<longleftrightarrow> \<bar>now - ts\<bar> \<le> 1000 * int n"
proof -
  have n: "0 < int n" "int n < 2 ^ 42" using assms(2,3) by simp_all
  have "\<exists>f. float_of_int (now - ts) = Some f" if "\<bar>now - ts\<bar> \<le> 1000 * int n"
    using that n by (intro float_of_int_small) simp
  with assms(4,5) check_freshness_accepts [OF skew_of_number [of env n, OF assms(1-3)] n, of req now r] show ?thesis by auto
qed

theorem skew_from_env_exact_witness:
  "accepts (check_freshness [(''timestamp_ms'', JInt 1000)]
      (freshness_policy_from_env [''ROBOT_MD_ENVELOPE_MAX_SKEW_S'' \<mapsto> nat_str 30]) 31001 (initial_report (\<lambda>_. []))) \<longleftrightarrow>
     \<bar>31001 - (1000::int)\<bar> \<le> 1000 * int 30"
  by (rule skew_from_env_exact) simp_all

text \<open>No setting of \<open>ROBOT_MD_ENVELOPE_MAX_SKEW_S\<close> shuts the operator out: the window read from the environment is
  positive or NaN, and an envelope stamped with the gateway's own time always passes.\<close>

theorem skew_never_shuts_out:
  assumes "py_int (get req ''timestamp_ms'') = Inr now" "get req ''timestamp_ms'' \<noteq> JNull"
  shows "(max_skew_s (freshness_policy_from_env env) = FNan \<or> flt (FFin 0) (max_skew_s (freshness_policy_from_env env))) \<and>
    accepts (check_freshness req (freshness_policy_from_env env) now r)"
proof -
  let ?w = "max_skew_s (freshness_policy_from_env env)"
  have w: "?w = FNan \<or> flt (FFin 0) ?w"
  proof -
    have "x = FNan \<or> flt (FFin 0) x" if "\<not> (x = FFin 0 \<or> flt x (FFin 0))" for x
      using that by (cases x rule: pyfloat.exhaust) auto
    then show ?thesis by (auto simp: freshness_policy_from_env_def Let_def)
  qed
  have "\<not> flt ?w (FFin 0)" using w by (cases ?w) auto
  then show ?thesis
    using w assms by (simp add: check_freshness_def Let_def float_of_int_def fl_def fl_mag_def float_top_def)
qed

theorem skew_never_shuts_out_witness:
  "(max_skew_s (freshness_policy_from_env [''ROBOT_MD_ENVELOPE_MAX_SKEW_S'' \<mapsto> ''-5'']) = FNan \<or>
     flt (FFin 0) (max_skew_s (freshness_policy_from_env [''ROBOT_MD_ENVELOPE_MAX_SKEW_S'' \<mapsto> ''-5'']))) \<and>
   accepts (check_freshness [(''timestamp_ms'', JInt 7)]
     (freshness_policy_from_env [''ROBOT_MD_ENVELOPE_MAX_SKEW_S'' \<mapsto> ''-5'']) 7 (initial_report (\<lambda>_. [])))"
  by (rule skew_never_shuts_out) simp_all

text \<open>But \<open>nan\<close> is a number to \<open>float\<close>, is not \<open>\<le> 0\<close>, and bounds nothing: every timestamp passes.\<close>

lemma nan_skew_bounds_nothing:
  assumes "env ''ROBOT_MD_ENVELOPE_MAX_SKEW_S'' = Some ''nan''"
    and "py_int (get req ''timestamp_ms'') = Inr ts" "float_of_int (now - ts) = Some f" "get req ''timestamp_ms'' \<noteq> JNull"
  shows "accepts (check_freshness req (freshness_policy_from_env env) now r)"
proof -
  have "float_of_str ''nan'' = Some FNan" "strip ''nan'' = ''nan''" by code_simp+
  then have "max_skew_s (freshness_policy_from_env env) = FNan"
    using assms(1) by (simp add: freshness_policy_from_env_def env_get_def)
  with assms show ?thesis by (simp add: check_freshness_def Let_def)
qed

text \<open>A pair without a colon or without tiers is dropped, and its tool is left without a binding.\<close>

lemma colonless_pair_unbound:
  "build_tool_tier_requirements_from_env [''ROBOT_MD_TOOL_MIN_TIER'' \<mapsto> ''arm.home=actuate,arm.move:''] = []"
  by code_simp

end
