(* ===== verification/Preflight_Keys.thy ===== *)
theory Preflight_Keys
  imports Verify_Receipt Py_Time
begin

text \<open>
  \<open>scripts/rrf_preflight.py\<close>, the part every check is made of: reading keys, the one HTTP call and the
  recorder around it, findings and the verdict, and \<open>check_kid\<close>, which compares the local copy, the
  registry's answer and the pin of a kid. A run threads the state \<open>preflight\<close> and may end in an
  exception (\<open>pre\<close>). The locale \<open>run_frame\<close> is what a step keeps of the state.
\<close>

section \<open>Bytes and keys\<close>

text \<open>What \<open>cryptography\<close> offers here besides \<open>crypto\<close>: a key from DER or from raw bytes, and its
  SubjectPublicKeyInfo.\<close>

record key_lib =
  kl_crypto :: crypto
  kl_load_der :: "string \<Rightarrow> pem_load"
  kl_from_raw :: "string \<Rightarrow> exc + string"
  kl_spki :: "string \<Rightarrow> string"

text \<open>\<open>json.loads\<close> on UTF-8 bytes.\<close>

definition json_body :: "string \<Rightarrow> json option" where
  "json_body b = (if utf8_ok b then json_loads b else None)"

text \<open>\<open>base64.b64decode(s, validate=True)\<close>: whole groups of the alphabet, padding at the end only.\<close>

definition b64decode_strict :: "string \<Rightarrow> exc + string" where
  "b64decode_strict s = (let body = takeWhile (\<lambda>c. c \<noteq> CHR ''='') s; pad = dropWhile (\<lambda>c. c \<noteq> CHR ''='') s in
     if (\<forall>c \<in> set body. b64_val c \<noteq> None) \<and> (\<forall>c \<in> set pad. c = CHR ''='') \<and> length pad \<le> 2 \<and> length s mod 4 = 0
     then b64decode s
     else if \<exists>c \<in> set s. 128 \<le> (of_char c :: nat) then Inl ValueError else Inl BinasciiError)"

definition str_field :: "json \<Rightarrow> string" where
  "str_field v = (case v of JStr s \<Rightarrow> s | _ \<Rightarrow> [])"

definition or_text :: "string \<Rightarrow> string \<Rightarrow> string" where
  "or_text a b = (if a = [] then b else a)"

definition utc_iso :: "nat \<Rightarrow> string" where
  "utc_iso epoch = take 19 (iso_utc (epoch * 1000000)) @ ''Z''"

fun key_of_load :: "pem_load \<Rightarrow> exc + string option" where
  "key_of_load (PemKey (Ed25519PublicKey p)) = Inr (Some p)"
| "key_of_load (PemKey OtherKey) = Inr None"
| "key_of_load (PemValueError m) = Inr None"
| "key_of_load (PemRaises e) = (if is_value_error e \<or> e = TypeError then Inr None else Inl e)"

definition pub_from_pem :: "key_lib \<Rightarrow> string \<Rightarrow> exc + string option" where
  "pub_from_pem K pem = key_of_load (load_pem_public_key (kl_crypto K) pem)"

definition pub_from_raw_b64 :: "key_lib \<Rightarrow> string \<Rightarrow> exc + string option" where
  "pub_from_raw_b64 K b64 =
     (case b64decode_strict b64 of
        Inl _ \<Rightarrow> Inr None
      | Inr raw \<Rightarrow>
          if length raw \<noteq> 32 then Inr None
          else (case kl_from_raw K raw of
             Inr p \<Rightarrow> Inr (Some p)
           | Inl e \<Rightarrow> if is_value_error e \<or> e = TypeError then Inr None else Inl e))"

definition pub_from_spki_b64 :: "key_lib \<Rightarrow> string \<Rightarrow> exc + string option" where
  "pub_from_spki_b64 K b64 =
     (case b64decode_strict b64 of Inl _ \<Rightarrow> Inr None | Inr der \<Rightarrow> key_of_load (kl_load_der K der))"

definition spki_sha256 :: "key_lib \<Rightarrow> string option \<Rightarrow> string" where
  "spki_sha256 K pub = (case pub of None \<Rightarrow> [] | Some p \<Rightarrow> sha256 (kl_spki K p))"

definition ed25519_verifies :: "key_lib \<Rightarrow> string option \<Rightarrow> string \<Rightarrow> string \<Rightarrow> bool" where
  "ed25519_verifies K pub sig msg = (case pub of None \<Rightarrow> False | Some p \<Rightarrow> ed_verify (kl_crypto K) p sig msg)"

text \<open>The outcome of a receipt as its signature covers it is \<open>canonical\<close>, the verifier's recipe.\<close>

definition receipt_signed_bytes :: "dict \<Rightarrow> string" where
  "receipt_signed_bytes outcome = canonical (Some ''envelope_signature'') outcome"

definition MAX_SAFE_INT :: int where
  "MAX_SAFE_INT = 2 ^ 53"

text \<open>\<open>check_output_types\<close>: raises \<open>TypeError\<close> unless this holds.\<close>

definition ascii :: "string \<Rightarrow> bool" where
  "ascii s = (\<forall>c \<in> set s. (of_char c :: nat) < 128)"

fun output_types_ok :: "json \<Rightarrow> bool" where
  "output_types_ok (JBool b) = True"
| "output_types_ok (JStr s) = True"
| "output_types_ok (JInt n) = (\<bar>n\<bar> < MAX_SAFE_INT)"
| "output_types_ok (JArr xs) = list_all output_types_ok xs"
| "output_types_ok (JObj d) = list_all (\<lambda>kv. ascii (fst kv) \<and> output_types_ok (snd kv)) d"
| "output_types_ok _ = False"

section \<open>The state of a run\<close>

datatype mode = Bench | Live

definition BOTH :: "mode list" where
  "BOTH = [Bench, Live]"

fun mode_name :: "mode \<Rightarrow> string" where
  "mode_name Bench = ''bench''"
| "mode_name Live = ''live''"

record run_finding =
  fd_id :: string
  fd_detail :: string
  fd_stop_in :: "mode list"
  fd_level :: string

definition finding_json :: "mode \<Rightarrow> run_finding \<Rightarrow> json" where
  "finding_json m f = JObj [(''id'', JStr (fd_id f)), (''detail'', JStr (fd_detail f)),
     (''severity'', JStr (if m \<in> set (fd_stop_in f) then ''stop'' else fd_level f)),
     (''stop_in'', JArr (map (JStr \<circ> mode_name) (fd_stop_in f)))]"

record http =
  ht_url :: string
  ht_status :: int
  ht_body :: string
  ht_error :: string

definition http_json :: "http \<Rightarrow> json option" where
  "http_json r = json_body (ht_body r)"

text \<open>\<open>r.json() if r.body else None\<close>, of which only a dict is looked into.\<close>

definition http_dict :: "http \<Rightarrow> dict option" where
  "http_dict r = (if ht_body r = [] then None else case http_json r of Some (JObj d) \<Rightarrow> Some d | _ \<Rightarrow> None)"

definition http_record :: "http \<Rightarrow> json" where
  "http_record r = JObj [(''url'', JStr (ht_url r)), (''status'', JInt (ht_status r)),
     (''body_sha256'', JStr (sha256 (ht_body r))), (''bytes'', JInt (int (length (ht_body r)))),
     (''error'', JStr (ht_error r))]"

text \<open>What opening and reading a URL comes to: a status with at most \<open>MAX_BODY\<close> bytes; an \<open>HTTPError\<close>, whose
  body may be unreadable; an \<open>URLError\<close>, \<open>OSError\<close> or \<open>ValueError\<close>, as text; or another exception.\<close>

datatype opened = Opened int string | Rejected int "string option" | NoAnswer string | Escapes exc

fun http_get :: "opened \<Rightarrow> string \<Rightarrow> exc + http" where
  "http_get (Opened st body) url = Inr \<lparr>ht_url = url, ht_status = st, ht_body = body, ht_error = []\<rparr>"
| "http_get (Rejected st body) url =
     Inr \<lparr>ht_url = url, ht_status = st, ht_body = (case body of None \<Rightarrow> [] | Some b \<Rightarrow> b), ht_error = []\<rparr>"
| "http_get (NoAnswer why) url = Inr \<lparr>ht_url = url, ht_status = 0, ht_body = [], ht_error = take 200 why\<rparr>"
| "http_get (Escapes e) url = Inl e"

text \<open>One key lookup, with the key found (the source keeps the keys in a dict of their own).\<close>

record key_lookup =
  lk_url :: string
  lk_status :: int
  lk_body_sha256 :: string
  lk_result :: string
  lk_pub :: "string option"
  lk_spki :: string

record registry_lookup = key_lookup +
  rg_ran :: string
  rg_key_status :: string
  rg_pq_kid :: string
  rg_valid_from :: string
  rg_valid_until :: string

record pin_record =
  pn_present :: bool
  pn_spki :: string
  pn_role :: string
  pn_rrn :: string
  pn_ran :: string

record kid_entry =
  ke_kid :: string
  ke_roles :: "string list"
  ke_in_use :: "mode list"
  ke_local :: key_lookup
  ke_registry :: registry_lookup
  ke_pin :: pin_record
  ke_local_matches_pin :: bool
  ke_registry_matches_local :: bool
  ke_registry_matches_pin :: bool

record preflight =
  pf_log :: "(string \<times> http) list"
  pf_findings :: "run_finding list"
  pf_kids :: "(string \<times> kid_entry) list"
  pf_secrets :: "string list"
  pf_rrn :: string
  pf_checks :: "(mode \<times> (string \<times> bool) list) list"
  pf_out :: dict

type_synonym 'a pre = "preflight \<Rightarrow> exc + 'a \<times> preflight"

definition bindP :: "'a pre \<Rightarrow> ('a \<Rightarrow> 'b pre) \<Rightarrow> 'b pre" where
  "bindP m f s = (case m s of Inl e \<Rightarrow> Inl e | Inr (x, t) \<Rightarrow> f x t)"

definition returnP :: "'a \<Rightarrow> 'a pre" where
  "returnP x s = Inr (x, s)"

definition liftP :: "exc + 'a \<Rightarrow> 'a pre" where
  "liftP r s = map_sum id (\<lambda>x. (x, s)) r"

definition updateP :: "(preflight \<Rightarrow> preflight) \<Rightarrow> unit pre" where
  "updateP f s = Inr ((), f s)"

definition readP :: "(preflight \<Rightarrow> 'a) \<Rightarrow> 'a pre" where
  "readP f s = Inr (f s, s)"

fun each :: "('a \<Rightarrow> unit pre) \<Rightarrow> 'a list \<Rightarrow> unit pre" where
  "each f [] = returnP ()"
| "each f (x # xs) = bindP (f x) (\<lambda>_. each f xs)"

fun collect :: "('a \<Rightarrow> 'b pre) \<Rightarrow> 'a list \<Rightarrow> 'b list pre" where
  "collect f [] = returnP []"
| "collect f (x # xs) = bindP (f x) (\<lambda>y. bindP (collect f xs) (\<lambda>ys. returnP (y # ys)))"

definition log_findings :: "run_finding list \<Rightarrow> unit pre" where
  "log_findings fs = updateP (\<lambda>s. s\<lparr>pf_findings := pf_findings s @ fs\<rparr>)"

definition finding_if :: "bool \<Rightarrow> string \<Rightarrow> string \<Rightarrow> mode list \<Rightarrow> string \<Rightarrow> run_finding list" where
  "finding_if b fid detail stops level =
     (if b then [\<lparr>fd_id = fid, fd_detail = detail, fd_stop_in = stops, fd_level = level\<rparr>] else [])"

definition add_finding :: "string \<Rightarrow> string \<Rightarrow> mode list \<Rightarrow> string \<Rightarrow> unit pre" where
  "add_finding fid detail stops level = log_findings (finding_if True fid detail stops level)"

definition put_out :: "string \<Rightarrow> json \<Rightarrow> unit pre" where
  "put_out k v = updateP (\<lambda>s. s\<lparr>pf_out := AList.update k v (pf_out s)\<rparr>)"

section \<open>What a run is given\<close>

record gateway_info =
  gi_unit :: string
  gi_active :: string
  gi_pid :: int
  gi_started :: int
  gi_env :: "(string \<times> string) list"
  gi_disk_env :: "(string \<times> string) list"
  gi_env_files :: "(string \<times> int) list"
  gi_robot_md_arg :: string
  gi_error :: string

record inputs =
  in_robot :: string
  in_manifest :: string
  in_fixture :: string
  in_pins :: "(string \<times> dict) list"
  in_pins_path :: string
  in_pins_sha256 :: string
  in_registry :: string
  in_resolver :: string
  in_resolver_source :: string
  in_mode :: mode
  in_gateway :: "gateway_info option"
  in_pairing :: string
  in_export :: string
  in_host_addrs :: "string list"
  in_now :: nat
  in_tool :: dict
  in_host :: string

text \<open>The outside: the key library, the \<open>n\<close>-th URL opened, files, \<open>os.path.realpath\<close>, and
  \<open>int(datetime.fromisoformat(ts).timestamp())\<close>.\<close>

record preflight_world =
  pw_keys :: key_lib
  pw_open :: "nat \<Rightarrow> string \<Rightarrow> opened"
  pw_read :: "string \<Rightarrow> exc + string"
  pw_realpath :: "string \<Rightarrow> exc + string"
  pw_fromiso :: "string \<Rightarrow> exc + int"

section \<open>The recorder\<close>

definition get_url :: "preflight_world \<Rightarrow> string \<Rightarrow> http pre" where
  "get_url W url s =
     (case map_of (pf_log s) url of
        Some r \<Rightarrow> Inr (r, s)
      | None \<Rightarrow> bindE (http_get (pw_open W (length (pf_log s)) url) url) (\<lambda>r.
          Inr (r, s\<lparr>pf_log := pf_log s @ [(url, r)]\<rparr>)))"

definition quote_char :: "char \<Rightarrow> string" where
  "quote_char c = (if is_alnum c \<or> c \<in> set ''_.-~'' then [c]
     else let n = of_char c :: nat in CHR ''%'' # upper [hex_digit (n div 16), hex_digit (n mod 16)])"

definition url_of :: "string \<Rightarrow> string list \<Rightarrow> string" where
  "url_of base segments = rstrip_char (CHR ''/'') base @ ''/'' @ join ''/'' (map (concat \<circ> map quote_char) segments)"

section \<open>One kid\<close>

text \<open>The key under \<open>public_key_pem\<close> of a 200 answer.\<close>

definition served_key :: "key_lib \<Rightarrow> json option \<Rightarrow> exc + string option" where
  "served_key K body =
     (case body of
        Some (JObj d) \<Rightarrow> (case get d ''public_key_pem'' of JStr pem \<Rightarrow> pub_from_pem K pem | _ \<Rightarrow> Inr None)
      | _ \<Rightarrow> Inr None)"

definition found_or_bad :: "string option \<Rightarrow> string" where
  "found_or_bad pub = (if pub = None then ''bad-response'' else ''found'')"

definition local_of :: "key_lib \<Rightarrow> http \<Rightarrow> exc + key_lookup" where
  "local_of K r =
     bindE (if ht_status r = 200 then
              bindE (served_key K (http_json r)) (\<lambda>pub. Inr (pub, found_or_bad pub))
            else if ht_status r = 404 then Inr (None, ''not-found'')
            else Inr (None, if ht_status r = 0 then ''unreachable'' else ''http-'' @ int_str (ht_status r)))
       (\<lambda>(pub, res). Inr \<lparr>lk_url = ht_url r, lk_status = ht_status r, lk_body_sha256 = sha256 (ht_body r),
          lk_result = res, lk_pub = pub, lk_spki = spki_sha256 K pub\<rparr>)"

definition lookup_local :: "preflight_world \<Rightarrow> inputs \<Rightarrow> string \<Rightarrow> key_lookup pre" where
  "lookup_local W inp kid =
     bindP (get_url W (url_of (in_resolver inp) [''v2'', ''keys'', kid])) (\<lambda>r. liftP (local_of (pw_keys W) r))"

definition registry_of :: "key_lib \<Rightarrow> http \<Rightarrow> exc + registry_lookup" where
  "registry_of K r =
     (let st = ht_status r; d = (case http_dict r of None \<Rightarrow> [] | Some d \<Rightarrow> d);
          text = (\<lambda>k. if st = 200 then str_field (get d k) else []) in
      bindE (if st = 200 then
               bindE (served_key K (if ht_body r = [] then None else http_json r)) (\<lambda>pub. Inr (pub, found_or_bad pub))
             else Inr (None, if st = 404 then ''not-registered'' else if st = 410 then ''revoked''
                  else if st = 0 then ''unreachable'' else if 500 \<le> st then ''server-error''
                  else ''http-'' @ int_str st))
       (\<lambda>(pub, res). Inr \<lparr>lk_url = ht_url r, lk_status = st, lk_body_sha256 = sha256 (ht_body r),
          lk_result = res, lk_pub = pub, lk_spki = spki_sha256 K pub,
          rg_ran = (if st = 410 then str_field (get d ''ran'') else text ''ran''), rg_key_status = text ''status'',
          rg_pq_kid = text ''pq_kid'', rg_valid_from = text ''valid_from'', rg_valid_until = text ''valid_until''\<rparr>))"

definition lookup_registry :: "preflight_world \<Rightarrow> inputs \<Rightarrow> string \<Rightarrow> registry_lookup pre" where
  "lookup_registry W inp kid =
     bindP (get_url W (url_of (in_registry inp) [''v2'', ''keys'', kid])) (\<lambda>r. liftP (registry_of (pw_keys W) r))"

definition pin_of :: "dict option \<Rightarrow> pin_record" where
  "pin_of pin = (case pin of
     None \<Rightarrow> \<lparr>pn_present = False, pn_spki = [], pn_role = [], pn_rrn = [], pn_ran = []\<rparr>
   | Some p \<Rightarrow> \<lparr>pn_present = True, pn_spki = lower (str_field (get p ''spki_sha256'')),
       pn_role = str_field (get p ''role''), pn_rrn = str_field (get p ''rrn''), pn_ran = str_field (get p ''ran'')\<rparr>)"

definition new_entry :: "string \<Rightarrow> string \<Rightarrow> mode list \<Rightarrow> key_lookup \<Rightarrow> registry_lookup \<Rightarrow> pin_record \<Rightarrow> kid_entry" where
  "new_entry kid role in_use lc rg pin =
     (let lspki = lk_spki lc; rspki = lk_spki rg; pspki = pn_spki pin in
      \<lparr>ke_kid = kid, ke_roles = [role], ke_in_use = in_use, ke_local = lc, ke_registry = rg, ke_pin = pin,
       ke_local_matches_pin = (pn_present pin \<and> lspki \<noteq> [] \<and> lspki = pspki),
       ke_registry_matches_local = (rspki \<noteq> [] \<and> rspki = lspki),
       ke_registry_matches_pin = (pn_present pin \<and> rspki \<noteq> [] \<and> rspki = pspki)\<rparr>)"

text \<open>The findings of a new entry, in their order.\<close>

definition pin_findings :: "string \<Rightarrow> mode list \<Rightarrow> kid_entry \<Rightarrow> run_finding list" where
  "pin_findings role in_use e =
     (let kid = ke_kid e; pin = ke_pin e; lc = ke_local e in
      if \<not> pn_present pin then
        finding_if True (''no-pin:'' @ kid) (kid @ '' has no pin, so no registry answer for it can be accepted'') []
          (if role \<in> {''manifest'', ''gateway-attestation''} then ''warn'' else ''info'')
      else finding_if (lk_result lc = ''found'' \<and> \<not> ke_local_matches_pin e) (''local-key-differs-from-pin:'' @ kid)
        (''the local copy of '' @ kid @ '' (spki '' @ take 16 (lk_spki lc) @ '') is not the pinned key (spki ''
           @ take 16 (pn_spki pin) @ ''): rotated or replaced since it was pinned'') in_use ''warn'')"

definition registry_findings :: "mode list \<Rightarrow> kid_entry \<Rightarrow> run_finding list" where
  "registry_findings in_use e =
     (let kid = ke_kid e; pin = ke_pin e; lc = ke_local e; rg = ke_registry e; res = lk_result rg;
          other_local = lk_result lc = ''found'' \<and> \<not> ke_registry_matches_local e in
      if res = ''found'' then
        finding_if other_local (''registry-key-differs-from-local:'' @ kid)
          (''the registry serves a different key under '' @ kid @ '' (spki '' @ take 16 (lk_spki rg) @ '', ''
             @ or_text (rg_ran rg) ''no RAN'' @ '') than the local copy (spki '' @ take 16 (lk_spki lc)
             @ ''): the name is squatted, or one side rotated'') in_use ''warn''
        @ finding_if (\<not> other_local \<and> pn_present pin \<and> \<not> ke_registry_matches_pin e)
          (''registry-key-differs-from-pin:'' @ kid)
          (''the registry serves a key under '' @ kid @ '' that is not the pinned key'') in_use ''warn''
        @ finding_if (pn_present pin \<and> pn_ran pin \<noteq> [] \<and> rg_ran rg \<noteq> pn_ran pin)
          (''registry-ran-differs-from-pin:'' @ kid)
          (''the registry maps '' @ kid @ '' to '' @ or_text (rg_ran rg) ''no RAN'' @ '', the pin says '' @ pn_ran pin)
          [] ''warn''
      else if res = ''revoked'' then
        finding_if True (''kid-revoked:'' @ kid) (''the registry answers 410 (revoked) for '' @ kid) in_use ''warn''
      else if res = ''not-registered'' then
        finding_if True (''kid-not-registered:'' @ kid)
          (''the registry answers 404 for '' @ kid @ ''; it can only be checked against local copies'') [] ''info''
      else finding_if True (''registry-unreachable:'' @ kid)
        (''no usable registry answer for '' @ kid @ '' ('' @ res @ ''); it can only be checked against local copies'')
        [] ''warn'')"

definition pin_use_findings :: "string \<Rightarrow> string \<Rightarrow> kid_entry \<Rightarrow> run_finding list" where
  "pin_use_findings rrn role e =
     (let kid = ke_kid e; pin = ke_pin e in
      if \<not> pn_present pin then []
      else finding_if (pn_role pin \<noteq> [] \<and> pn_role pin \<noteq> role) (''pin-role-differs:'' @ kid)
          (kid @ '' is used here as '' @ role @ '', pinned as '' @ pn_role pin) [] ''warn''
        @ finding_if (pn_rrn pin \<noteq> [] \<and> rrn \<noteq> [] \<and> pn_rrn pin \<noteq> rrn) (''pin-rrn-differs:'' @ kid)
          (kid @ '' is pinned to '' @ pn_rrn pin @ '', this robot is '' @ rrn) [] ''warn'')"

definition kid_findings :: "string \<Rightarrow> string \<Rightarrow> mode list \<Rightarrow> kid_entry \<Rightarrow> run_finding list" where
  "kid_findings rrn role in_use e = pin_findings role in_use e @ registry_findings in_use e @ pin_use_findings rrn role e"

text \<open>\<open>sorted(set(a) | b)\<close>\<close>

definition union_modes :: "mode list \<Rightarrow> mode list \<Rightarrow> mode list" where
  "union_modes a b = filter (\<lambda>m. m \<in> set a \<or> m \<in> set b) BOTH"

definition check_kid :: "preflight_world \<Rightarrow> inputs \<Rightarrow> string \<Rightarrow> string \<Rightarrow> mode list \<Rightarrow> kid_entry pre" where
  "check_kid W inp kid role in_use =
     bindP (readP (\<lambda>s. map_of (pf_kids s) kid)) (\<lambda>seen.
     case seen of
       Some e \<Rightarrow>
         (let e' = e\<lparr>ke_roles := sort (remdups (role # ke_roles e)), ke_in_use := union_modes (ke_in_use e) in_use\<rparr> in
          bindP (updateP (\<lambda>s. s\<lparr>pf_kids := AList.update kid e' (pf_kids s)\<rparr>)) (\<lambda>_. returnP e'))
     | None \<Rightarrow>
         bindP (lookup_local W inp kid) (\<lambda>lc. bindP (lookup_registry W inp kid) (\<lambda>rg.
         let e = new_entry kid role in_use lc rg (pin_of (map_of (in_pins inp) kid)) in
         bindP (updateP (\<lambda>s. s\<lparr>pf_kids := AList.update kid e (pf_kids s)\<rparr>)) (\<lambda>_.
         bindP (readP pf_rrn) (\<lambda>rrn. bindP (log_findings (kid_findings rrn role in_use e)) (\<lambda>_. returnP e))))))"

section \<open>The verdict\<close>

definition VERDICT_REGISTRY :: string where
  "VERDICT_REGISTRY = ''registry-resolves''"

definition VERDICT_LOCAL :: string where
  "VERDICT_LOCAL = ''local-keys-only''"

definition verdict_for :: "mode \<Rightarrow> run_finding list \<Rightarrow> (string \<times> bool) list \<Rightarrow> string \<times> string list" where
  "verdict_for m findings checks =
     (let stops = map fd_id (filter (\<lambda>f. m \<in> set (fd_stop_in f)) findings) in
      if stops \<noteq> [] then (''STOP:'' @ hd stops, stops)
      else if checks \<noteq> [] \<and> (\<forall>kb \<in> set checks. snd kb) then (VERDICT_REGISTRY, [])
      else (VERDICT_LOCAL, []))"

text \<open>The exit code \<open>main\<close> makes of the verdict.\<close>

definition exit_code :: "string \<Rightarrow> nat" where
  "exit_code v = (if startswith v ''STOP:'' then 1 else if v = VERDICT_REGISTRY then 0 else 3)"

section \<open>What a step keeps\<close>

definition keeps :: "(preflight \<Rightarrow> preflight \<Rightarrow> bool) \<Rightarrow> 'a pre \<Rightarrow> bool" where
  "keeps R m \<longleftrightarrow> (\<forall>s x t. m s = Inr (x, t) \<longrightarrow> R s t)"

lemma keepsD: "keeps R m \<Longrightarrow> m s = Inr (x, t) \<Longrightarrow> R s t"
  by (auto simp: keeps_def)

lemma bindP_Inr: "bindP m f s = Inr (y, u) \<longleftrightarrow> (\<exists>x t. m s = Inr (x, t) \<and> f x t = Inr (y, u))"
  by (auto simp: bindP_def split: sum.splits prod.splits)

lemma pure_steps [simp]:
  "returnP x s = Inr (y, t) \<longleftrightarrow> y = x \<and> t = s" "liftP r s = Inr (y, t) \<longleftrightarrow> r = Inr y \<and> t = s"
  "readP f s = Inr (y, t) \<longleftrightarrow> y = f s \<and> t = s" "updateP g s = Inr (u, t) \<longleftrightarrow> t = g s"
  by (auto simp: returnP_def liftP_def readP_def updateP_def map_sum_def split: sum.splits)

text \<open>A reflexive and transitive relation between the states before and after a step holds over every
  program of such steps.\<close>

locale run_frame =
  fixes R :: "preflight \<Rightarrow> preflight \<Rightarrow> bool"
  assumes R_refl: "R s s" and R_trans: "R s t \<Longrightarrow> R t u \<Longrightarrow> R s u"
begin

lemma bind: "keeps R m \<Longrightarrow> (\<And>x. keeps R (f x)) \<Longrightarrow> keeps R (bindP m f)"
  unfolding keeps_def bindP_Inr by (blast intro: R_trans)

lemma bind_dep:
  "keeps R m \<Longrightarrow> (\<And>s x t. m s = Inr (x, t) \<Longrightarrow> keeps R (f x)) \<Longrightarrow> keeps R (bindP m f)"
  unfolding keeps_def bindP_Inr by (meson R_trans)

lemma pure: "keeps R (returnP x)" "keeps R (liftP r)" "keeps R (readP g)"
  by (simp_all add: keeps_def R_refl)

lemma each_keeps: "(\<And>x. keeps R (f x)) \<Longrightarrow> keeps R (each f xs)"
  by (induction xs) (auto intro: bind pure)

lemma collect_keeps: "(\<And>x. keeps R (f x)) \<Longrightarrow> keeps R (collect f xs)"
  by (induction xs) (auto intro: bind pure)

end

text \<open>Every URL is asked once and only under the two bases, and every answer is the one that came.\<close>

definition asked_ok :: "preflight_world \<Rightarrow> inputs \<Rightarrow> (string \<times> http) list \<Rightarrow> bool" where
  "asked_ok W inp lg \<longleftrightarrow> distinct (map fst lg) \<and>
     (\<forall>i < length lg. (\<exists>base rest. base \<in> {in_registry inp, in_resolver inp} \<and>
          fst (lg ! i) = rstrip_char (CHR ''/'') base @ ''/v2/'' @ rest) \<and>
        http_get (pw_open W i (fst (lg ! i))) (fst (lg ! i)) = Inr (snd (lg ! i)))"

definition asks :: "preflight_world \<Rightarrow> inputs \<Rightarrow> preflight \<Rightarrow> preflight \<Rightarrow> bool" where
  "asks W inp s t \<longleftrightarrow> (\<exists>new. pf_log t = pf_log s @ new) \<and> (asked_ok W inp (pf_log s) \<longrightarrow> asked_ok W inp (pf_log t))"

interpretation asking: run_frame "asks W inp"
  by unfold_locales (auto simp: asks_def)

text \<open>Findings are only added; which of them stop where never changes, and what stops the bench stops a
  live test.\<close>

definition stops_of :: "preflight \<Rightarrow> (string \<times> mode list) list" where
  "stops_of s = map (\<lambda>f. (fd_id f, fd_stop_in f)) (pf_findings s)"

definition upward :: "mode list \<Rightarrow> bool" where
  "upward ms \<longleftrightarrow> (Bench \<in> set ms \<longrightarrow> Live \<in> set ms)"

abbreviation all_upward :: "run_finding list \<Rightarrow> bool" where
  "all_upward fs \<equiv> list_all (\<lambda>f. upward (fd_stop_in f)) fs"

definition finds :: "preflight \<Rightarrow> preflight \<Rightarrow> bool" where
  "finds s t \<longleftrightarrow> (\<exists>new. stops_of t = stops_of s @ new \<and> (\<forall>im \<in> set new. upward (snd im)))"

interpretation finding: run_frame finds
proof unfold_locales
  fix s t u assume "finds s t" "finds t u"
  then obtain a b where "stops_of t = stops_of s @ a" "\<forall>im \<in> set a. upward (snd im)"
      "stops_of u = stops_of t @ b" "\<forall>im \<in> set b. upward (snd im)" unfolding finds_def by blast
  then show "finds s u" unfolding finds_def by (intro exI [of _ "a @ b"]) auto
qed (simp add: finds_def)

definition same_checks :: "preflight \<Rightarrow> preflight \<Rightarrow> bool" where
  "same_checks s t \<longleftrightarrow> pf_checks t = pf_checks s"

interpretation checked: run_frame same_checks
  by unfold_locales (auto simp: same_checks_def)

lemma upward_simps [simp]: "upward []" "upward BOTH" "upward [Live]"
  by (simp_all add: upward_def BOTH_def)

lemma finding_if_stops [simp]: "(\<exists>f \<in> set (finding_if b i d ms l). P f) \<longleftrightarrow>
    b \<and> P \<lparr>fd_id = i, fd_detail = d, fd_stop_in = ms, fd_level = l\<rparr>"
  by (simp add: finding_if_def)

lemma finding_if_all [simp]: "list_all P (finding_if b i d ms l) \<longleftrightarrow>
    (b \<longrightarrow> P \<lparr>fd_id = i, fd_detail = d, fd_stop_in = ms, fd_level = l\<rparr>)"
  by (simp add: finding_if_def)

lemma set_finding_if: "set (finding_if b i d ms l) =
    (if b then {\<lparr>fd_id = i, fd_detail = d, fd_stop_in = ms, fd_level = l\<rparr>} else {})"
  by (simp add: finding_if_def)

named_theorems keeps_intros

lemma url_of_v2: "\<exists>rest. url_of base (''v2'' # p # ps) = rstrip_char (CHR ''/'') base @ ''/v2/'' @ rest"
proof -
  have "concat (map quote_char ''v2'') = ''v2''" by code_simp
  then show ?thesis by (simp add: url_of_def)
qed

lemma get_url_asks [keeps_intros]:
  assumes "base \<in> {in_registry inp, in_resolver inp}"
  shows "keeps (asks W inp) (get_url W (url_of base (''v2'' # p # ps)))"
proof -
  let ?url = "url_of base (''v2'' # p # ps)"
  have "asked_ok W inp (lg @ [(?url, r)])"
    if "asked_ok W inp lg" "map_of lg ?url = None" "http_get (pw_open W (length lg) ?url) ?url = Inr r" for lg r
    using that url_of_v2 [of base p ps] assms
    by (auto simp: asked_ok_def nth_append less_Suc_eq map_of_eq_None_iff)
  then show ?thesis
    by (auto simp: keeps_def get_url_def asks_def bindE_Inr_iff split: option.splits)
qed

lemma get_url_frames [keeps_intros]: "keeps finds (get_url W url)" "keeps same_checks (get_url W url)"
  by (auto simp: keeps_def get_url_def finds_def same_checks_def stops_of_def bindE_Inr_iff split: option.splits)

lemma update_frames [keeps_intros]:
  "(\<And>s. pf_log (g s) = pf_log s) \<Longrightarrow> keeps (asks W inp) (updateP g)"
  "(\<And>s. stops_of (g s) = stops_of s) \<Longrightarrow> keeps finds (updateP g)"
  "(\<And>s. pf_checks (g s) = pf_checks s) \<Longrightarrow> keeps same_checks (updateP g)"
  by (auto simp: keeps_def asks_def finds_def same_checks_def)

lemma put_out_frames [keeps_intros]:
  "keeps (asks W inp) (put_out k v)" "keeps finds (put_out k v)" "keeps same_checks (put_out k v)"
  by (auto simp: put_out_def stops_of_def intro!: keeps_intros)

lemma log_findings_frames [keeps_intros]:
  "keeps (asks W inp) (log_findings fs)" "keeps same_checks (log_findings fs)"
  "all_upward fs \<Longrightarrow> keeps finds (log_findings fs)"
  by (auto simp: log_findings_def keeps_def asks_def same_checks_def finds_def stops_of_def list_all_iff)

lemma add_finding_frames [keeps_intros]:
  "keeps (asks W inp) (add_finding i d ms l)" "keeps same_checks (add_finding i d ms l)"
  "upward ms \<Longrightarrow> keeps finds (add_finding i d ms l)"
  by (auto simp: add_finding_def set_finding_if intro!: keeps_intros)

lemma kid_findings_stops: "list_all (\<lambda>f. fd_stop_in f \<in> {[], in_use}) (kid_findings rrn role in_use e)"
proof -
  have "list_all (\<lambda>f. fd_stop_in f \<in> {[], in_use}) (pin_findings role in_use e)"
    by (simp add: pin_findings_def Let_def)
  moreover have "list_all (\<lambda>f. fd_stop_in f \<in> {[], in_use}) (registry_findings in_use e)"
    by (simp add: registry_findings_def Let_def)
  moreover have "list_all (\<lambda>f. fd_stop_in f \<in> {[], in_use}) (pin_use_findings rrn role e)"
    by (simp add: pin_use_findings_def Let_def)
  ultimately show ?thesis by (simp add: kid_findings_def)
qed

lemma lookup_frames [keeps_intros]:
  "keeps (asks W inp) (lookup_local W inp kid)" "keeps (asks W inp) (lookup_registry W inp kid)"
  "keeps finds (lookup_local W inp kid)" "keeps finds (lookup_registry W inp kid)"
  "keeps same_checks (lookup_local W inp kid)" "keeps same_checks (lookup_registry W inp kid)"
  unfolding lookup_local_def lookup_registry_def
  by (intro asking.bind asking.pure finding.bind finding.pure checked.bind checked.pure keeps_intros; simp)+

lemma check_kid_frames [keeps_intros]:
  "keeps (asks W inp) (check_kid W inp kid role in_use)" "keeps same_checks (check_kid W inp kid role in_use)"
  "upward in_use \<Longrightarrow> keeps finds (check_kid W inp kid role in_use)"
proof -
  show "keeps (asks W inp) (check_kid W inp kid role in_use)"
    unfolding check_kid_def Let_def
    by (auto intro!: asking.bind asking.pure keeps_intros split: option.split)
  show "keeps same_checks (check_kid W inp kid role in_use)"
    unfolding check_kid_def Let_def
    by (auto intro!: checked.bind checked.pure keeps_intros split: option.split)
  assume up: "upward in_use"
  have kid_stops: "all_upward (kid_findings rrn role in_use e)" for rrn e
    using kid_findings_stops [of in_use rrn role e] up by (auto simp: list_all_iff)
  show "keeps finds (check_kid W inp kid role in_use)"
    unfolding check_kid_def Let_def
    by (auto intro!: finding.bind finding.pure keeps_intros simp: stops_of_def kid_stops split: option.split)
qed

end
