(* ===== verification/Preflight_Manifest.thy ===== *)
theory Preflight_Manifest
  imports Preflight_Keys
begin

text \<open>
  \<open>scripts/rrf_preflight.py\<close>, what it reads of a manifest and of environment and pins files: UTF-8 with
  replacement, \<open>str.splitlines\<close>, the line patterns, \<open>parse_manifest\<close>, \<open>parse_env_file\<close> and \<open>load_pins\<close>.
  The main lemma is that a manifest the preflight finds verified is one the gateway accepts.
\<close>

section \<open>Text\<close>

text \<open>\<open>bytes.decode("utf-8", errors="replace")\<close>, in UTF-8 again: a maximal prefix of a well-formed
  sequence that goes no further becomes one U+FFFD. The bounds of the continuation bytes, by lead byte.\<close>

definition conts :: "nat \<Rightarrow> (nat \<times> nat) list option" where
  "conts n = (if n < 128 then Some []
     else if 194 \<le> n \<and> n \<le> 223 then Some [(128, 191)]
     else if n = 224 then Some [(160, 191), (128, 191)]
     else if n = 237 then Some [(128, 159), (128, 191)]
     else if 225 \<le> n \<and> n \<le> 239 then Some [(128, 191), (128, 191)]
     else if n = 240 then Some [(144, 191), (128, 191), (128, 191)]
     else if 241 \<le> n \<and> n \<le> 243 then Some [(128, 191), (128, 191), (128, 191)]
     else if n = 244 then Some [(128, 143), (128, 191), (128, 191)]
     else None)"

text \<open>The continuation bytes taken, what is left, and whether the sequence is complete.\<close>

fun take_conts :: "(nat \<times> nat) list \<Rightarrow> string \<Rightarrow> string \<times> string \<times> bool" where
  "take_conts [] s = ([], s, True)"
| "take_conts _ [] = ([], [], False)"
| "take_conts ((a, b) # r) (c # cs) =
     (if a \<le> (of_char c :: nat) \<and> (of_char c :: nat) \<le> b then
        (let (t, u, full) = take_conts r cs in (c # t, u, full))
      else ([], c # cs, False))"

definition REPLACEMENT :: string where
  "REPLACEMENT = [CHR 0xEF, CHR 0xBF, CHR 0xBD]"

lemma take_conts_length: "take_conts r s = (t, u, full) \<Longrightarrow> length u \<le> length s"
  by (induction r s arbitrary: t u full rule: take_conts.induct) (force split: if_splits prod.splits)+

function decode_replace :: "string \<Rightarrow> string" where
  "decode_replace [] = []"
| "decode_replace (c # cs) =
     (case conts (of_char c) of
        None \<Rightarrow> REPLACEMENT @ decode_replace cs
      | Some r \<Rightarrow> (case take_conts r cs of
          (t, u, full) \<Rightarrow> (if full then c # t else REPLACEMENT) @ decode_replace u))"
  by pat_completeness auto
termination
  by (relation "measure length") (auto dest!: sym [THEN take_conts_length] simp: less_Suc_eq_le)

text \<open>\<open>str.splitlines()\<close>: LF, CR, CR LF, VT, FF, FS, GS, RS, NEL, LS and PS end a line.\<close>

fun line_break :: "string \<Rightarrow> string option" where
  "line_break [] = None"
| "line_break (c # cs) =
     (let n = of_char c :: nat in
      if n = 13 then Some (case cs of d # ds \<Rightarrow> if (of_char d :: nat) = 10 then ds else cs | [] \<Rightarrow> [])
      else if n \<in> {10, 11, 12, 28, 29, 30} then Some cs
      else if startswith (c # cs) [CHR 0xC2, CHR 0x85] then Some (drop 1 cs)
      else if startswith (c # cs) [CHR 0xE2, CHR 0x80, CHR 0xA8] \<or> startswith (c # cs) [CHR 0xE2, CHR 0x80, CHR 0xA9]
        then Some (drop 2 cs)
      else None)"

declare line_break.simps [simp del]

lemma line_break_length: "line_break s = Some r \<Longrightarrow> length r < length s"
  by (cases s) (auto simp: line_break.simps Let_def split: if_splits list.splits)

text \<open>\<open>acc\<close> is the current line, backwards.\<close>

function split_lines :: "string \<Rightarrow> string \<Rightarrow> string list" where
  "split_lines acc [] = (if acc = [] then [] else [rev acc])"
| "split_lines acc (c # cs) =
     (case line_break (c # cs) of
        Some r \<Rightarrow> rev acc # split_lines [] r
      | None \<Rightarrow> split_lines (c # acc) cs)"
  by pat_completeness auto
termination
  by (relation "measure (\<lambda>(acc, s). length s)") (auto dest: line_break_length)

definition splitlines :: "string \<Rightarrow> string list" where
  "splitlines s = split_lines [] s"

section \<open>The front matter\<close>

text \<open>\<open>v[1:end]\<close> up to the closing quote, or what is before a comment.\<close>

definition scalar :: "string \<Rightarrow> string" where
  "scalar raw = (let v = strip raw in
     case v of
       q # r \<Rightarrow> if q = CHR 0x27 \<or> q = CHR 0x22 then takeWhile (\<lambda>c. c \<noteq> q) r
                else strip (case find_sub '' #'' v of None \<Rightarrow> v | Some n \<Rightarrow> take n v)
     | [] \<Rightarrow> [])"

definition is_fence :: "string \<Rightarrow> bool" where
  "is_fence l = (strip l = ''---'')"

definition frontmatter_lines :: "string \<Rightarrow> string list" where
  "frontmatter_lines s =
     (case splitlines s of
        l # ls \<Rightarrow> if is_fence l \<and> (\<exists>x \<in> set ls. is_fence x) then takeWhile (\<lambda>x. \<not> is_fence x) ls else []
      | [] \<Rightarrow> [])"

definition word_char :: "char \<Rightarrow> bool" where
  "word_char c = (is_alnum c \<or> c = CHR ''_'' \<or> c = CHR ''-'')"

text \<open>\<open>([A-Za-z_][\w-]*):(.*)\<close>: the key and the rest of the line.\<close>

definition key_line :: "string \<Rightarrow> (string \<times> string) option" where
  "key_line l =
     (case l of
        c # _ \<Rightarrow>
          if is_alpha c \<or> c = CHR ''_'' then
            (case dropWhile word_char l of
               d # rest \<Rightarrow> if d = CHR '':'' then Some (takeWhile word_char l, rest) else None
             | [] \<Rightarrow> None)
          else None
      | [] \<Rightarrow> None)"

text \<open>A repeated top-level key starts its block anew; lines before the first key belong to none.\<close>

fun top_blocks_from :: "string option \<Rightarrow> (string \<times> string list) list \<Rightarrow> string list \<Rightarrow> (string \<times> string list) list" where
  "top_blocks_from cur blocks [] = blocks"
| "top_blocks_from cur blocks (l # ls) =
     (case key_line l of
        Some (k, _) \<Rightarrow> top_blocks_from (Some k) (AList.update k [] blocks) ls
      | None \<Rightarrow>
         (case cur of
            None \<Rightarrow> top_blocks_from cur blocks ls
          | Some k \<Rightarrow> top_blocks_from cur (AList.update k ((case map_of blocks k of Some b \<Rightarrow> b | None \<Rightarrow> []) @ [l]) blocks) ls))"

definition top_blocks :: "string list \<Rightarrow> (string \<times> string list) list" where
  "top_blocks ls = top_blocks_from None [] ls"

definition block :: "(string \<times> string list) list \<Rightarrow> string \<Rightarrow> string list" where
  "block bs k = (case map_of bs k of Some b \<Rightarrow> b | None \<Rightarrow> [])"

text \<open>\<open>out.setdefault(k, v)\<close>\<close>

definition setdefault :: "string \<Rightarrow> string \<Rightarrow> (string \<times> string) list \<Rightarrow> (string \<times> string) list" where
  "setdefault k v d = (if map_of d k = None then d @ [(k, v)] else d)"

definition indented_key :: "nat \<Rightarrow> string \<Rightarrow> (string \<times> string) option" where
  "indented_key n l = Option.bind (strip_prefix (replicate n (CHR '' '')) l) key_line"

definition block_scalars :: "string list \<Rightarrow> (string \<times> string) list" where
  "block_scalars ls = fold (\<lambda>l d. case indented_key 2 l of
     Some (k, v) \<Rightarrow> if strip v = [] then d else setdefault k (scalar v) d
   | None \<Rightarrow> d) ls []"

text \<open>\<open>^ {0,2}-\s+([^\s#:]+)\s*(#.*)?$\<close>\<close>

definition list_item :: "string \<Rightarrow> string option" where
  "list_item l =
     (let dash = dropWhile (\<lambda>c. c = CHR '' '') l in
      if length l - length dash > 2 then None
      else Option.bind (strip_prefix ''-'' dash) (\<lambda>s. Option.bind (skip_ws1 s) (\<lambda>s.
           Option.bind (run1 (\<lambda>c. \<not> py_isspace c \<and> c \<noteq> CHR ''#'' \<and> c \<noteq> CHR '':'') s) (\<lambda>(w, s).
           case skip_ws s of [] \<Rightarrow> Some w | c # _ \<Rightarrow> if c = CHR ''#'' then Some w else None))))"

definition block_list :: "string list \<Rightarrow> string list" where
  "block_list ls = concat (map (\<lambda>l. case list_item l of None \<Rightarrow> [] | Some w \<Rightarrow> [w]) ls)"

definition item_key :: "string \<Rightarrow> (string \<times> string) option" where
  "item_key l = Option.bind (strip_prefix ''  - '' l) key_line"

definition block_item :: "string \<Rightarrow> (string \<times> string) list list \<Rightarrow> (string \<times> string) list list" where
  "block_item l items =
     (case item_key l of
        Some (k, v) \<Rightarrow> items @ [[(k, scalar v)]]
      | None \<Rightarrow>
         (case indented_key 4 l of
            Some (k, v) \<Rightarrow> if items = [] \<or> strip v = [] then items
                            else butlast items @ [setdefault k (scalar v) (last items)]
          | None \<Rightarrow> items))"

definition block_items :: "string list \<Rightarrow> (string \<times> string) list list" where
  "block_items ls = fold block_item ls []"

section \<open>The manifest\<close>

record manifest =
  pm_raw :: string
  pm_kid :: string
  pm_sig :: string
  pm_sig_ok :: bool
  pm_body :: string
  pm_footer :: bool
  pm_rrn :: string
  pm_robot_name :: string
  pm_signing_alg :: string
  pm_capabilities :: "string list"
  pm_drive :: "(string \<times> string) list"

definition text_at :: "(string \<times> string) list \<Rightarrow> string \<Rightarrow> string" where
  "text_at d k = (case map_of d k of None \<Rightarrow> [] | Some v \<Rightarrow> v)"

definition drive_block :: "(string \<times> string) list list \<Rightarrow> (string \<times> string) list" where
  "drive_block items =
     (case find (\<lambda>it. map_of it ''id'' = Some ''drive'' \<or> endswith (text_at it ''backend'') ''Drive'') items of
        None \<Rightarrow> []
      | Some it \<Rightarrow> map (\<lambda>k. (k, text_at it k)) [''id'', ''protocol'', ''backend'', ''hardware_present''])"

definition parse_manifest :: "string \<Rightarrow> manifest" where
  "parse_manifest raw =
     (let text = decode_replace raw; blocks = top_blocks (frontmatter_lines text);
          meta = block_scalars (block blocks ''metadata'');
          (footer, kid, body, decoded) = (case search_footer text of
             None \<Rightarrow> (False, [], [], Inl ValueError)
           | Some (start, kid, sig) \<Rightarrow> (True, kid, take start text, b64decode_strict sig)) in
      \<lparr>pm_raw = raw, pm_kid = kid, pm_sig = (case decoded of Inl _ \<Rightarrow> [] | Inr sig \<Rightarrow> sig),
       pm_sig_ok = (case decoded of Inl _ \<Rightarrow> False | Inr _ \<Rightarrow> True), pm_body = body, pm_footer = footer,
       pm_rrn = text_at meta ''rrn'', pm_robot_name = text_at meta ''robot_name'',
       pm_signing_alg = text_at (block_scalars (block blocks ''network'')) ''signing_alg'',
       pm_capabilities = block_list (block blocks ''capabilities''),
       pm_drive = drive_block (block_items (block blocks ''drivers''))\<rparr>)"

section \<open>Environment files and pins\<close>

definition GATEWAY_ENV_NAMES :: "string list" where
  "GATEWAY_ENV_NAMES = [''ROBOT_MD_ATTESTATION_KID'', ''ROBOT_MD_ATTESTATION_RAN'', ''ROBOT_MD_ATTESTATION_KEY_FILE'',
     ''ROBOT_MD_ATTESTATION_EXPORT_FILE'', ''OPENCASTOR_OPS_RRF_URL'', ''ROBOT_MANIFEST'', ''ROBOT_MD_PATH'',
     ''ROBOT_MD_BEARERS_FILE'', ''ROBOT_MD_HITL_FROM_MANIFEST'', ''ROBOT_MD_ENVELOPE_MAX_SKEW_S'',
     ''ROBOT_MD_TOOL_ALLOWLIST'', ''ROBOT_MD_TOOL_MIN_TIER'', ''OPENCASTOR_DRIVE'']"

definition REQUIRE_PREFIX :: string where
  "REQUIRE_PREFIX = ''ROBOT_MD_REQUIRE_''"

definition wanted_env :: "string \<Rightarrow> bool" where
  "wanted_env name = (name \<in> set GATEWAY_ENV_NAMES \<or> startswith name REQUIRE_PREFIX)"

definition unquote :: "string \<Rightarrow> string" where
  "unquote v = (if 2 \<le> length v \<and> hd v = last v \<and> (hd v = CHR 0x27 \<or> hd v = CHR 0x22) then butlast (tl v) else v)"

definition env_line :: "string \<Rightarrow> (string \<times> string) option" where
  "env_line l0 =
     (let l = strip l0 in
      if l = [] \<or> startswith l ''#'' \<or> CHR ''='' \<notin> set l then None
      else let (n0, v) = partition_on (CHR ''='') l; n1 = strip n0;
               name = (if startswith n1 ''export '' then strip (drop 7 n1) else n1) in
        if wanted_env name then Some (name, unquote (strip v)) else None)"

definition parse_env_file :: "string \<Rightarrow> (string \<times> string) list" where
  "parse_env_file s = fold (\<lambda>l out. case env_line l of None \<Rightarrow> out | Some (k, v) \<Rightarrow> AList.update k v out) (splitlines s) []"

definition pin_spki_ok :: "dict \<Rightarrow> bool" where
  "pin_spki_ok p = (let s = lower (str_field (get p ''spki_sha256'')) in
     length s = 64 \<and> (\<forall>c \<in> set s. c \<in> set ''0123456789abcdef''))"

fun pin_dicts :: "dict \<Rightarrow> (string \<times> dict) list" where
  "pin_dicts [] = []"
| "pin_dicts ((k, JObj p) # d) = (if startswith k ''_'' then pin_dicts d else (k, p) # pin_dicts d)"
| "pin_dicts (_ # d) = pin_dicts d"

text \<open>\<open>UsageError\<close> is the class that exits with 2. \<open>read\<close> is what reading the path gives.\<close>

definition usage_error :: "string \<Rightarrow> exc" where
  "usage_error m = OtherError ''UsageError'' m"

definition load_pins :: "string \<Rightarrow> exc + string \<Rightarrow> exc + (string \<times> dict) list \<times> string" where
  "load_pins path read =
     (if path = [] then Inr ([], [])
      else case read of
        Inl (OSError n) \<Rightarrow> Inl (usage_error (''cannot read pins '' @ path @ '': '' @ n))
      | Inl e \<Rightarrow> if is_value_error e then Inl (usage_error (''cannot read pins '' @ path @ '': ValueError'')) else Inl e
      | Inr raw \<Rightarrow>
         (case json_body raw of
            None \<Rightarrow> Inl (usage_error (''cannot read pins '' @ path @ '': ''
              @ (if utf8_ok raw then ''JSONDecodeError'' else ''UnicodeDecodeError'')))
          | Some (JObj d) \<Rightarrow>
             (case find (\<lambda>kp. \<not> pin_spki_ok (snd kp)) (pin_dicts d) of
                Some (kid, _) \<Rightarrow> Inl (usage_error (''pin '' @ kid @ '': spki_sha256 is not 64 lowercase hex characters''))
              | None \<Rightarrow> Inr (pin_dicts d, sha256 raw))
          | Some _ \<Rightarrow> Inl (usage_error (''pins '' @ path @ '' is not a JSON object''))))"

end
