(* ===== verification/Preflight.thy ===== *)
theory Preflight
  imports Preflight_Manifest
begin

text \<open>
  \<open>scripts/rrf_preflight.py\<close>, the run: the manifest and its keys, the RRN, for a live test the gateway, its
  pairing payload and its export, the pins of retired keys, and the verdict. What \<open>collect_gateway\<close>
  and the host probes gather is the argument \<open>inputs\<close>, as in the script's own tests.
\<close>

section \<open>The manifest\<close>

definition texts :: "string list \<Rightarrow> json" where
  "texts xs = JArr (map JStr xs)"

definition text_dict :: "(string \<times> string) list \<Rightarrow> json" where
  "text_dict d = JObj (map (\<lambda>(k, v). (k, JStr v)) d)"

definition num :: "nat \<Rightarrow> json" where
  "num n = JInt (int n)"

definition manifest_fields :: "manifest \<Rightarrow> dict" where
  "manifest_fields mf =
     [(''sha256'', JStr (sha256 (pm_raw mf))), (''bytes'', num (length (pm_raw mf))),
      (''footer'', JBool (pm_footer mf)), (''kid'', JStr (pm_kid mf)),
      (''signed_body_sha256'', JStr (if pm_footer mf then sha256 (pm_body mf) else [])),
      (''signed_body_bytes'', num (length (pm_body mf))), (''sig_bytes'', num (length (pm_sig mf))),
      (''rrn'', JStr (pm_rrn mf)), (''robot_name'', JStr (pm_robot_name mf)),
      (''signing_alg_declared'', JStr (pm_signing_alg mf)), (''capabilities'', texts (pm_capabilities mf)),
      (''drive'', text_dict (pm_drive mf))]"

text \<open>The bench fixture against the live manifest: its record and what it finds.\<close>

definition fixture_step :: "preflight_world \<Rightarrow> inputs \<Rightarrow> string \<Rightarrow> exc + dict \<times> run_finding list" where
  "fixture_step W inp raw =
     (let path = in_fixture inp;
          rec = [(''path'', JStr path), (''checked'', JBool (path \<noteq> []))] in
      if path = [] then
        Inr (rec, finding_if True ''no-fixture-compared''
          ''no bench fixture was given, so fixture-vs-live equality was not checked'' [] ''info'')
      else case pw_read W path of
        Inl (OSError n) \<Rightarrow> Inr (rec @ [(''error'', JStr n)],
          finding_if True ''fixture-unreadable'' (''cannot read the fixture '' @ path) BOTH ''info'')
      | Inl e \<Rightarrow> Inl e
      | Inr fraw \<Rightarrow> Inr (rec @ [(''sha256'', JStr (sha256 fraw)), (''matches_live'', JBool (fraw = raw))],
          finding_if (fraw \<noteq> raw) ''fixture-differs-from-live-manifest''
            (''the fixture '' @ path @ '' (sha256 '' @ take 16 (sha256 fraw) @ '') is not the live manifest (sha256 ''
               @ take 16 (sha256 raw) @ '')'') BOTH ''info''))"

text \<open>What the parsed manifest lacks, and whether the run goes on with it.\<close>

definition manifest_findings :: "manifest \<Rightarrow> run_finding list" where
  "manifest_findings mf =
     (if \<not> pm_footer mf then
        finding_if True ''manifest-unsigned'' ''the manifest has no ROBOT-MD-SIG footer'' BOTH ''info''
      else if \<not> pm_sig_ok mf then
        finding_if True ''manifest-signature-malformed'' (''the footer'' @ [CHR 0x27] @ ''s sig is not valid base64'') BOTH ''info''
      else finding_if (pm_rrn mf = []) ''manifest-has-no-rrn''
          ''metadata.rrn is missing, so there is no registry record to look up'' [] ''warn''
        @ finding_if (pm_signing_alg mf \<noteq> [] \<and> lower (pm_signing_alg mf) \<noteq> ''ed25519'' \<and> length (pm_sig mf) = 64)
          ''manifest-signing-alg-declared-differs''
          (''network.signing_alg says '' @ pm_signing_alg mf @ ''; the footer is a 64-byte Ed25519 signature'') [] ''info'')"

definition manifest_step :: "preflight_world \<Rightarrow> inputs \<Rightarrow> manifest option pre" where
  "manifest_step W inp =
     (let path = in_manifest inp in
      case pw_read W path of
        Inl (OSError n) \<Rightarrow>
          bindP (put_out ''manifest'' (JObj [(''path'', JStr path), (''error'', JStr n)])) (\<lambda>_.
          bindP (add_finding ''manifest-unreadable'' (''cannot read '' @ path) BOTH ''info'') (\<lambda>_. returnP None))
      | Inl e \<Rightarrow> liftP (Inl e)
      | Inr raw \<Rightarrow>
         (let mf = parse_manifest raw in
          bindP (updateP (\<lambda>s. s\<lparr>pf_rrn := pm_rrn mf\<rparr>)) (\<lambda>_.
          bindP (liftP (fixture_step W inp raw)) (\<lambda>(fixture, found).
          bindP (put_out ''manifest'' (JObj ([(''path'', JStr path)] @ manifest_fields mf @ [(''fixture'', JObj fixture)]))) (\<lambda>_.
          bindP (log_findings (found @ manifest_findings mf)) (\<lambda>_.
          returnP (if pm_footer mf \<and> pm_sig_ok mf then Some mf else None)))))))"

definition set_check :: "(mode \<Rightarrow> bool) \<Rightarrow> string \<Rightarrow> bool \<Rightarrow> unit pre" where
  "set_check sel k b = updateP (\<lambda>s. s\<lparr>pf_checks :=
     map (\<lambda>(m, d). (m, if sel m then AList.update k b d else d)) (pf_checks s)\<rparr>)"

definition backed :: "kid_entry \<Rightarrow> bool" where
  "backed e = (lk_result (ke_registry e) = ''found'' \<and> ke_registry_matches_local e \<and> ke_registry_matches_pin e)"

definition local_verdict :: "key_lib \<Rightarrow> manifest \<Rightarrow> kid_entry \<Rightarrow> string" where
  "local_verdict K mf e =
     (if lk_result (ke_local e) \<noteq> ''found'' then ''unresolved''
      else if ed25519_verifies K (lk_pub (ke_local e)) (pm_sig mf) (pm_body mf) then ''verified'' else ''failed'')"

definition registry_verdict :: "key_lib \<Rightarrow> manifest \<Rightarrow> kid_entry \<Rightarrow> string" where
  "registry_verdict K mf e =
     (if lk_result (ke_registry e) = ''found'' then
        (if ed25519_verifies K (lk_pub (ke_registry e)) (pm_sig mf) (pm_body mf) then ''verified'' else ''failed'')
      else lk_result (ke_registry e))"

definition pin_verdict :: "string \<Rightarrow> string \<Rightarrow> kid_entry \<Rightarrow> string" where
  "pin_verdict lc rg e =
     (if \<not> pn_present (ke_pin e) then ''no-pin''
      else if lc = ''verified'' \<and> ke_local_matches_pin e then ''verified-under-pinned-key''
      else if rg = ''verified'' \<and> ke_registry_matches_pin e then ''verified-under-pinned-key''
      else if lk_result (ke_local e) = ''found'' \<and> \<not> ke_local_matches_pin e then ''local-key-differs-from-pin''
      else ''not-verified'')"

definition manifest_key_findings :: "string \<Rightarrow> manifest \<Rightarrow> kid_entry \<Rightarrow> run_finding list" where
  "manifest_key_findings lc mf e =
     finding_if (lc = ''unresolved'') ''manifest-kid-not-resolvable-locally''
       (''the local resolver cannot serve '' @ pm_kid mf @ '' ('' @ lk_result (ke_local e)
          @ ''); the gateway would refuse every invoke at manifest_provenance'') BOTH ''info''
     @ finding_if (lc = ''failed'') ''manifest-signature-fails-local-key''
       (''the manifest signature does not verify under the local copy of '' @ pm_kid mf) BOTH ''info''"

definition manifest_keys_step :: "preflight_world \<Rightarrow> inputs \<Rightarrow> manifest \<Rightarrow> unit pre" where
  "manifest_keys_step W inp mf =
     bindP (check_kid W inp (pm_kid mf) ''manifest'' BOTH) (\<lambda>e.
     let lc = local_verdict (pw_keys W) mf e; rg = registry_verdict (pw_keys W) mf e in
     bindP (log_findings (manifest_key_findings lc mf e)) (\<lambda>_.
     bindP (put_out ''manifest_signature'' (text_dict [(''local'', lc), (''registry'', rg), (''pin'', pin_verdict lc rg e)])) (\<lambda>_.
     bindP (set_check (\<lambda>m. True) ''manifest_kid_registry_is_pinned_and_local_key'' (backed e)) (\<lambda>_.
     set_check (\<lambda>m. True) ''manifest_verifies_under_registry_key'' (rg = ''verified'')))))"

section \<open>The RRN\<close>

definition url_record :: "http \<Rightarrow> dict" where
  "url_record r = [(''url'', JStr (ht_url r)), (''status'', JInt (ht_status r)), (''body_sha256'', JStr (sha256 (ht_body r)))]"

definition field_text :: "dict \<Rightarrow> string \<Rightarrow> string" where
  "field_text d k = str_field (get d k)"

definition rrn_record :: "dict \<Rightarrow> dict" where
  "rrn_record d = map (\<lambda>k. (k, JStr (field_text d k))) [''name'', ''model'', ''manufacturer'', ''verification_status'']
     @ [(''revoked'', JBool (get d ''revoked'' = JBool True)), (''revoked_at'', JStr (field_text d ''revoked_at'')),
        (''pq_kid'', JStr (field_text d ''pq_kid'')), (''registered_at'', JStr (field_text d ''registered_at'')),
        (''ruri'', JStr (field_text d ''ruri'')),
        (''has_ed25519_key'', JBool (map_of d ''signing_pub'' \<noteq> None \<or> map_of d ''public_key_pem'' \<noteq> None))]"

definition rrn_findings :: "manifest \<Rightarrow> dict \<Rightarrow> run_finding list" where
  "rrn_findings mf d =
     (let rrn = pm_rrn mf; vs = field_text d ''verification_status''; name = field_text d ''name'';
          q = [CHR 0x27] in
      finding_if (get d ''revoked'' = JBool True) ''robot-revoked'' (''the registry marks '' @ rrn @ '' revoked'') BOTH ''info''
      @ finding_if (vs \<noteq> ''verified'') ''rrn-record-unverified''
          (rrn @ '' exists with verification_status '' @ q @ vs @ q @ '', pq_kid ''
             @ or_text (field_text d ''pq_kid'') ''none'' @ '', registered '' @ field_text d ''registered_at''
             @ (if map_of d ''signing_pub'' = None \<and> map_of d ''public_key_pem'' = None
                then ''; the record holds no Ed25519 key and names no manifest kid'' else [])) [] ''info''
      @ finding_if (pm_robot_name mf \<noteq> [] \<and> name \<noteq> [] \<and> name \<noteq> pm_robot_name mf) ''rrn-record-name-differs''
          (''the registry names '' @ rrn @ '' '' @ q @ name @ q @ '', the manifest says '' @ q @ pm_robot_name mf @ q) [] ''warn'')"

text \<open>The answer for our RRN: what is recorded, what is found, and whether a record exists that is not
  revoked.\<close>

definition rrn_answer :: "manifest \<Rightarrow> http \<Rightarrow> dict \<times> run_finding list \<times> bool" where
  "rrn_answer mf r =
     (if ht_status r = 200 \<and> http_dict r \<noteq> None then
        (let d = the (http_dict r) in
         (url_record r @ [(''record'', JObj (rrn_record d))], rrn_findings mf d, get d ''revoked'' \<noteq> JBool True))
      else if ht_status r = 404 then
        (url_record r, finding_if True ''rrn-not-registered'' (''the registry answers 404 for '' @ pm_rrn mf) [] ''info'', False)
      else (url_record r, finding_if True ''rrn-registry-unreachable''
        (''no usable registry answer for '' @ pm_rrn mf @ '' (HTTP '' @ int_str (ht_status r) @ '')'') [] ''warn'', False))"

definition own_record_step :: "preflight_world \<Rightarrow> inputs \<Rightarrow> manifest \<Rightarrow> (dict \<times> bool) pre" where
  "own_record_step W inp mf =
     (if pm_rrn mf = [] then returnP ([], False)
      else bindP (get_url W (url_of (in_registry inp) [''v2'', ''robots'', pm_rrn mf])) (\<lambda>r.
        let (rec, found, ok) = rrn_answer mf r in
        bindP (log_findings found) (\<lambda>_. returnP (rec, ok))))"

definition next_rrn :: "http \<Rightarrow> string" where
  "next_rrn nx = (case http_dict nx of Some d \<Rightarrow> field_text d ''next_rrn'' | None \<Rightarrow> [])"

definition rrn_step :: "preflight_world \<Rightarrow> inputs \<Rightarrow> manifest \<Rightarrow> unit pre" where
  "rrn_step W inp mf =
     bindP (own_record_step W inp mf) (\<lambda>(rec, ok).
     bindP (get_url W (url_of (in_registry inp) [''v2'', ''robots'', ''_next''])) (\<lambda>nx.
     let ours = pm_rrn mf \<noteq> [] \<and> next_rrn nx = pm_rrn mf in
     bindP (put_out ''rrn'' (JObj ([(''rrn'', JStr (pm_rrn mf))] @ rec @ [(''next'', JObj (url_record nx
        @ [(''next_rrn'', JStr (next_rrn nx)), (''equals_ours'', JBool ours)]))]))) (\<lambda>_.
     bindP (log_findings (finding_if ours ''next-rrn-is-ours''
        (''the registry'' @ [CHR 0x27] @ ''s next number to issue is '' @ pm_rrn mf @ '', this robot'' @ [CHR 0x27]
           @ ''s own unregistered RRN: whoever registers next is given it'') [] ''warn'')) (\<lambda>_.
     set_check (\<lambda>m. True) ''rrn_record_exists_not_revoked'' ok))))"

section \<open>The drive backend\<close>

definition DRIVE_BACKENDS :: "(string \<times> string list) list" where
  "DRIVE_BACKENDS = [(''simulated'', [''SimulatedDrive'']), (''sim'', [''SimulatedDrive'']), (''none'', [''SimulatedDrive'']),
     (''pca9685'', [''PCA9685Drive'']), (''pca9685-tank'', [''PCA9685Drive'', ''DifferentialMixer'']),
     (''maestro'', [''MaestroDrive'']), (''pigpio'', [''PWMDrive''])]"

text \<open>Whether what the gateway drives is what the manifest declares; \<open>None\<close> for a backend unknown here.\<close>

definition drive_matches :: "string \<Rightarrow> (string \<times> string) list \<Rightarrow> bool option" where
  "drive_matches env_name drive =
     (let name = or_text env_name ''simulated''; hw = text_at drive ''hardware_present'' in
      case map_of DRIVE_BACKENDS name of
        None \<Rightarrow> None
      | Some expected \<Rightarrow> Some (text_at drive ''backend'' \<in> set expected \<and>
          (hw = [] \<or> (name \<notin> {''simulated'', ''sim'', ''none''}) = (lower hw = ''true''))))"

definition drive_step :: "(string \<times> string) list \<Rightarrow> manifest \<Rightarrow> json pre" where
  "drive_step env mf =
     (let env_name = lower (strip (text_at env ''OPENCASTOR_DRIVE'')); drive = pm_drive mf;
          rec = [(''gateway_env'', JStr env_name),
            (''gateway_backends'', texts (case map_of DRIVE_BACKENDS (or_text env_name ''simulated'') of None \<Rightarrow> [] | Some b \<Rightarrow> b)),
            (''manifest_backend'', JStr (text_at drive ''backend'')), (''manifest_protocol'', JStr (text_at drive ''protocol'')),
            (''manifest_hardware_present'', JStr (text_at drive ''hardware_present''))] in
      if env_name = [] \<and> drive = [] then returnP (JObj (rec @ [(''state'', JStr ''not-applicable'')]))
      else let (state, ok) = (case drive_matches env_name drive of
             None \<Rightarrow> (''unknown-gateway-backend'', False) | Some b \<Rightarrow> (if b then ''matches'' else ''differs'', b)) in
        bindP (log_findings (finding_if (\<not> ok) ''drive-backend-differs-from-manifest''
          (''the gateway drives with OPENCASTOR_DRIVE='' @ or_text env_name ''(unset: simulated)''
             @ '', the signed manifest declares backend '' @ or_text (text_at drive ''backend'') ''none''
             @ '' (hardware_present: '' @ or_text (text_at drive ''hardware_present'') ''unset'' @ '')'') [Live] ''warn'')) (\<lambda>_.
        returnP (JObj (rec @ [(''state'', JStr state), (''matches'', JBool ok)]))))"

section \<open>The gateway's environment\<close>

definition flag_names :: "string list" where
  "flag_names = [''ROBOT_MD_REQUIRE_ENVELOPE_SIGNATURE'', ''ROBOT_MD_REQUIRE_ENVELOPE_TIMESTAMP'',
     ''ROBOT_MD_REQUIRE_RRN_BINDING'', ''ROBOT_MD_HITL_FROM_MANIFEST'']"

definition gateway_flags :: "(string \<times> string) list \<Rightarrow> (string \<times> string) list" where
  "gateway_flags env = fold (\<lambda>k d. setdefault k [] d) flag_names
     (filter (\<lambda>(k, v). startswith k REQUIRE_PREFIX \<or> k = ''ROBOT_MD_HITL_FROM_MANIFEST'') (sort_key fst env))"

definition flag_truthy :: "string \<Rightarrow> bool" where
  "flag_truthy v = (lower (strip v) \<in> {''1'', ''true'', ''yes'', ''on''})"

definition flags_on :: "(string \<times> string) list \<Rightarrow> string list" where
  "flags_on flags = sort (map fst (filter (\<lambda>(k, v). flag_truthy v) flags))"

definition env_drift :: "(string \<times> string) list \<Rightarrow> (string \<times> string) list \<Rightarrow> string list" where
  "env_drift env disk = sort (remdups (filter (\<lambda>k. text_at env k \<noteq> text_at disk k) (map fst env @ map fst disk)))"

text \<open>\<open>[t for t in re.split(r"[,\s]+", text) if t]\<close>\<close>

definition listed_tools :: "string \<Rightarrow> string list" where
  "listed_tools s = filter (\<lambda>t. t \<noteq> []) (split_on (CHR '','') (map (\<lambda>c. if py_isspace c then CHR '','' else c) s))"

definition minus_sorted :: "string list \<Rightarrow> string list \<Rightarrow> string list" where
  "minus_sorted a b = sort (remdups (filter (\<lambda>x. x \<notin> set b) a))"

definition comma_list :: "string list \<Rightarrow> string" where
  "comma_list xs = join '', '' xs"

definition epoch_text :: "int \<Rightarrow> string \<Rightarrow> string" where
  "epoch_text t otherwise = (if 0 \<le> t then utc_iso (nat t) else otherwise)"

definition same_path :: "preflight_world \<Rightarrow> string \<Rightarrow> string \<Rightarrow> exc + bool" where
  "same_path W a b = bindE (pw_realpath W a) (\<lambda>x. bindE (pw_realpath W b) (\<lambda>y. Inr (x = y)))"

text \<open>Everything of the record up to the signing identity.\<close>

definition gateway_env_step :: "preflight_world \<Rightarrow> inputs \<Rightarrow> gateway_info \<Rightarrow> manifest \<Rightarrow> dict pre" where
  "gateway_env_step W inp gw mf =
     (let env = gi_env gw; flags = gateway_flags env; on = flags_on flags;
          drift = env_drift env (gi_disk_env gw);
          changed = sort (map fst (filter (\<lambda>(p, mt). 0 \<le> gi_started gw \<and> gi_started gw < mt) (gi_env_files gw)));
          live_mf = or_text (gi_robot_md_arg gw) (text_at env ''ROBOT_MANIFEST'');
          allow = listed_tools (text_at env ''ROBOT_MD_TOOL_ALLOWLIST'');
          manifest_only = minus_sorted (pm_capabilities mf) allow; gateway_only = minus_sorted allow (pm_capabilities mf) in
      bindP (log_findings
        (finding_if (''ROBOT_MD_REQUIRE_ENVELOPE_SIGNATURE'' \<notin> set on) ''envelope-signature-not-enforced''
           (''ROBOT_MD_REQUIRE_ENVELOPE_SIGNATURE is off: the gateway records a caller'' @ [CHR 0x27]
              @ ''s envelope signature but its decision does not depend on it'') [] ''info''
         @ finding_if (drift \<noteq> []) ''gateway-env-differs-from-unit-files''
           (''the running process and its unit files disagree on: '' @ comma_list drift) [] ''warn''
         @ finding_if (changed \<noteq> []) ''gateway-env-file-changed-after-start''
           (''edited after the process started (not loaded until a restart): '' @ comma_list changed) [] ''warn'')) (\<lambda>_.
      bindP (liftP (if live_mf = [] then Inr False else same_path W live_mf (in_manifest inp))) (\<lambda>same.
      bindP (log_findings (finding_if (live_mf \<noteq> [] \<and> \<not> same) ''gateway-manifest-path-differs''
        (''the gateway runs with '' @ live_mf @ '', this preflight checked '' @ in_manifest inp) [Live] ''info'')) (\<lambda>_.
      bindP (drive_step env mf) (\<lambda>drive.
      bindP (log_findings
        (finding_if (manifest_only \<noteq> []) ''manifest-capabilities-not-allowlisted''
           (''declared in the manifest, refused at tool_allowlist: '' @ comma_list manifest_only) [] ''info''
         @ finding_if (gateway_only \<noteq> []) ''allowlisted-tools-not-in-manifest''
           (''allowlisted by the gateway, not declared in the manifest: '' @ comma_list gateway_only) [] ''info'')) (\<lambda>_.
      returnP [(''unit'', JStr (gi_unit gw)), (''active'', JStr (gi_active gw)), (''main_pid'', JInt (gi_pid gw)),
        (''process_started_at'', JStr (epoch_text (gi_started gw) [])), (''env'', text_dict (sort_key fst env)),
        (''robot_md_arg'', JStr (gi_robot_md_arg gw)), (''flags'', text_dict flags), (''flags_on'', texts on),
        (''env_differs_from_unit_files'', texts drift),
        (''env_files'', text_dict (map (\<lambda>(p, mt). (p, epoch_text mt ''unreadable'')) (gi_env_files gw))),
        (''manifest_path_matches'', JBool same), (''drive'', drive), (''allowlist'', texts allow),
        (''min_tier'', JStr (text_at env ''ROBOT_MD_TOOL_MIN_TIER'')),
        (''allowlist_vs_manifest'', JObj [(''manifest_only'', texts manifest_only), (''gateway_only'', texts gateway_only)]),
        (''signing_kid'', JStr (text_at env ''ROBOT_MD_ATTESTATION_KID''))]))))))"

definition enforce_sig :: "gateway_info \<Rightarrow> bool" where
  "enforce_sig gw = (''ROBOT_MD_REQUIRE_ENVELOPE_SIGNATURE'' \<in> set (flags_on (gateway_flags (gi_env gw))))"

section \<open>The gateway's signing identity\<close>

text \<open>The public half next to the key file.\<close>

definition sidecar_step :: "preflight_world \<Rightarrow> string \<Rightarrow> string \<Rightarrow> kid_entry \<Rightarrow> exc + dict \<times> run_finding list" where
  "sidecar_step W key_file kid e =
     (let path = key_file @ ''.pub'' in
      case pw_read W path of
        Inl (OSError n) \<Rightarrow> Inr ([(''path'', JStr path), (''spki_sha256'', JStr []), (''matches_local'', JBool False)],
          finding_if True ''gateway-key-sidecar-missing''
            (''no public sidecar at '' @ path @ ''; the key file itself is never opened'') [] ''info'')
      | Inl x \<Rightarrow> Inl x
      | Inr pem \<Rightarrow> bindE (pub_from_pem (pw_keys W) pem) (\<lambda>pub.
          let spki = spki_sha256 (pw_keys W) pub; same = (pub \<noteq> None \<and> spki = lk_spki (ke_local e)) in
          Inr ([(''path'', JStr path), (''spki_sha256'', JStr spki), (''matches_local'', JBool same)],
            finding_if (lk_result (ke_local e) = ''found'' \<and> \<not> same) ''gateway-key-file-differs-from-local-key''
              (''the public half next to the gateway'' @ [CHR 0x27] @ ''s key file is not the local copy of '' @ kid
                 @ '': the key was rotated (castor pair --force?) and the next restart signs with a key nothing else knows'')
              [Live] ''info'')))"

text \<open>A record of the authority: does it hold the gateway's key?\<close>

definition pinned_with :: "inputs \<Rightarrow> string \<Rightarrow> string list" where
  "pinned_with inp spki = (if spki = [] then []
     else sort (map fst (filter (\<lambda>(k, p). lower (field_text p ''spki_sha256'') = spki) (in_pins inp))))"

definition authority_answer :: "preflight_world \<Rightarrow> inputs \<Rightarrow> string \<Rightarrow> string \<Rightarrow> kid_entry \<Rightarrow> dict
    \<Rightarrow> exc + dict \<times> run_finding list \<times> bool" where
  "authority_answer W inp rn kid e d =
     bindE (pub_from_raw_b64 (pw_keys W) (field_text d ''signing_pub'')) (\<lambda>apub.
     let aspki = spki_sha256 (pw_keys W) apub; matches = pinned_with inp aspki; lspki = lk_spki (ke_local e);
         holds = (aspki \<noteq> [] \<and> aspki = lspki) in
     Inr (map (\<lambda>k. (k, JStr (field_text d k))) [''organization'', ''display_name'', ''purpose'', ''status'', ''pq_kid'', ''registered_at'']
          @ [(''signing_pub_spki_sha256'', JStr aspki), (''holds_gateway_key'', JBool holds), (''matches_pinned_kids'', texts matches)],
        finding_if (\<not> holds) ''ran-holds-different-key''
          (rn @ '' (the gateway'' @ [CHR 0x27] @ ''s declared RAN, '' @ [CHR 0x27] @ field_text d ''display_name'' @ [CHR 0x27]
             @ '') holds Ed25519 spki '' @ take 16 aspki @ '', not the key the gateway signs with ('' @ kid @ '', spki ''
             @ take 16 lspki @ ''); it matches '' @ (if matches = [] then ''no pinned kid'' else comma_list matches)) [] ''warn''
        @ finding_if (field_text d ''status'' = ''revoked'') ''ran-revoked'' (''the registry marks '' @ rn @ '' revoked'')
          [Live] ''info'',
        holds))"

definition ran_step :: "preflight_world \<Rightarrow> inputs \<Rightarrow> string \<Rightarrow> string \<Rightarrow> kid_entry \<Rightarrow> (dict \<times> bool) pre" where
  "ran_step W inp rn kid e =
     (if rn = [] then
        bindP (add_finding ''ran-not-declared'' ''the gateway env sets no ROBOT_MD_ATTESTATION_RAN'' [] ''info'') (\<lambda>_.
        returnP ([(''ran'', JStr [])], True))
      else bindP (get_url W (url_of (in_registry inp) [''v2'', ''authorities'', rn])) (\<lambda>r.
        bindP (if ht_status r = 200 \<and> http_dict r \<noteq> None then liftP (authority_answer W inp rn kid e (the (http_dict r)))
               else if ht_status r = 404 then
                 returnP ([], finding_if True ''ran-not-found''
                   (''the gateway declares '' @ rn @ '', which the registry does not have (404)'') [] ''warn'', False)
               else returnP ([], finding_if True ''ran-registry-unreachable''
                   (''no usable registry answer for '' @ rn @ '' (HTTP '' @ int_str (ht_status r) @ '')'') [] ''warn'', False))
          (\<lambda>(rec, found, holds).
        let reg_ran = rg_ran (ke_registry e); other = (reg_ran \<noteq> [] \<and> reg_ran \<noteq> rn) in
        bindP (log_findings (found @ finding_if other ''gateway-kid-registry-ran-differs''
          (''the registry maps '' @ kid @ '' to '' @ reg_ran @ '', the gateway declares '' @ rn) [] ''warn'')) (\<lambda>_.
        returnP ([(''ran'', JStr rn)] @ url_record r @ rec, holds \<and> \<not> other)))))"

section \<open>The pairing payload\<close>

definition PAIRING_SECRET_FIELDS :: "string list" where
  "PAIRING_SECRET_FIELDS = [''bearer'', ''console_token'', ''commission_bearer'', ''token'']"

definition secrets_of :: "dict \<Rightarrow> string list" where
  "secrets_of d = concat (map (\<lambda>(k, v). case v of
     JStr s \<Rightarrow> if k \<in> set PAIRING_SECRET_FIELDS \<and> 8 \<le> length s then [s] else [] | _ \<Rightarrow> []) d)"

text \<open>\<open>urlsplit(url).hostname or ""\<close>. Leading control characters and spaces are dropped, tabs and line
  ends removed; brackets must pair up (what is between them is not checked further).\<close>

definition scheme_char :: "char \<Rightarrow> bool" where
  "scheme_char c = (is_alnum c \<or> c \<in> set ''+-.'')"

definition after_scheme :: "string \<Rightarrow> string" where
  "after_scheme u = (let (sch, rest) = partition_on (CHR '':'') u in
     if CHR '':'' \<in> set u \<and> sch \<noteq> [] \<and> is_alpha (hd sch) \<and> (\<forall>c \<in> set sch. scheme_char c) then rest else u)"

definition after_last :: "char \<Rightarrow> string \<Rightarrow> string" where
  "after_last c s = last (split_on c s)"

definition url_hostname :: "string \<Rightarrow> exc + string" where
  "url_hostname url =
     (let u = filter (\<lambda>c. c \<notin> {CHR 0x09, CHR 0x0A, CHR 0x0D}) (dropWhile (\<lambda>c. (of_char c :: nat) \<le> 32) url);
          r = after_scheme u;
          netloc = (if startswith r ''//'' then takeWhile (\<lambda>c. c \<notin> set ''/?#'') (drop 2 r) else []) in
      if (CHR ''['' \<in> set netloc) \<noteq> (CHR '']'' \<in> set netloc) then Inl ValueError
      else let info = after_last (CHR ''@'') netloc;
               host = (if CHR ''['' \<in> set info then fst (partition_on (CHR '']'') (snd (partition_on (CHR ''['') info)))
                       else fst (partition_on (CHR '':'') info));
               (name, zone) = partition_on (CHR ''%'') host in
        Inr (lower name @ (if CHR ''%'' \<in> set host then ''%'' @ zone else [])))"

definition plain_int :: "json \<Rightarrow> int \<Rightarrow> int" where
  "plain_int v n = (case v of JInt i \<Rightarrow> i | _ \<Rightarrow> n)"

definition pairing_findings :: "preflight_world \<Rightarrow> inputs \<Rightarrow> manifest \<Rightarrow> string \<Rightarrow> kid_entry \<Rightarrow> dict \<Rightarrow> string option
    \<Rightarrow> string \<Rightarrow> exc + run_finding list" where
  "pairing_findings W inp mf kid e d apub host =
     (let aspki = spki_sha256 (pw_keys W) apub; akid = field_text d ''attest_kid''; mp = field_text d ''manifest_path'' in
      bindE (if mp = [] then Inr True else same_path W mp (in_manifest inp)) (\<lambda>same.
      Inr (finding_if (akid \<noteq> kid) ''pairing-attest-kid-differs''
             (''the pairing payload names '' @ or_text akid ''no kid'' @ '', the gateway signs as '' @ kid) [Live] ''info''
        @ finding_if (\<not> (apub \<noteq> None \<and> aspki = lk_spki (ke_local e))) ''pairing-attest-pub-differs''
             (''the pairing payload'' @ [CHR 0x27] @ ''s attest_pub (spki '' @ or_text (take 16 aspki) ''unreadable''
                @ '') is not the local copy of '' @ kid @ '': the phone would reject every receipt'') [Live] ''info''
        @ finding_if (field_text d ''rrn'' \<noteq> pm_rrn mf) ''pairing-rrn-differs''
             (''the pairing payload says '' @ or_text (field_text d ''rrn'') ''no RRN'' @ '', the manifest '' @ pm_rrn mf) [] ''warn''
        @ finding_if (\<not> same) ''pairing-manifest-path-differs''
             (''the phone will send manifest_path '' @ mp @ '', this preflight checked '' @ in_manifest inp) [] ''warn''
        @ finding_if (host \<notin> set (in_host_addrs inp)) ''pairing-gateway-url-not-this-host''
             (''the pairing QR points at '' @ or_text host ''no host'' @ '', which is not an address of this host (''
                @ or_text (comma_list (in_host_addrs inp)) ''none found'' @ ''); regenerate it without --force'') [] ''warn'')))"

definition pairing_fields :: "preflight_world \<Rightarrow> inputs \<Rightarrow> string \<Rightarrow> kid_entry \<Rightarrow> dict \<Rightarrow> string option \<Rightarrow> string \<Rightarrow> dict" where
  "pairing_fields W inp kid e d apub host =
     (let aspki = spki_sha256 (pw_keys W) apub in
      [(''v'', JInt (plain_int (get d ''v'') 0)), (''gateway_url'', JStr (field_text d ''gateway_url'')),
       (''gateway_host'', JStr host), (''gateway_host_is_this_host'', JBool (host \<in> set (in_host_addrs inp))),
       (''rrn'', JStr (field_text d ''rrn'')), (''manifest_path'', JStr (field_text d ''manifest_path'')),
       (''attest_kid'', JStr (field_text d ''attest_kid'')), (''attest_pub_spki_sha256'', JStr aspki),
       (''attest_kid_matches_gateway'', JBool (field_text d ''attest_kid'' = kid)),
       (''attest_pub_matches_local'', JBool (apub \<noteq> None \<and> aspki = lk_spki (ke_local e))),
       (''attest_pub_matches_pin'', JBool (apub \<noteq> None \<and> aspki = pn_spki (ke_pin e)))])"

text \<open>\<open>json.loads\<close> of the file, under \<open>except (OSError, ValueError)\<close>: a dict, or the exception's class.\<close>

definition pairing_dict :: "exc + string \<Rightarrow> exc + string + dict" where
  "pairing_dict read =
     (case read of
        Inl (OSError n) \<Rightarrow> Inr (Inl n)
      | Inl e \<Rightarrow> if is_value_error e then Inr (Inl ''ValueError'') else Inl e
      | Inr b \<Rightarrow> Inr (case json_body b of
          None \<Rightarrow> Inl (if utf8_ok b then ''JSONDecodeError'' else ''UnicodeDecodeError'')
        | Some (JObj d) \<Rightarrow> Inr d
        | Some _ \<Rightarrow> Inl ''ValueError''))"

definition pairing_step :: "preflight_world \<Rightarrow> inputs \<Rightarrow> manifest \<Rightarrow> string \<Rightarrow> kid_entry \<Rightarrow> unit pre" where
  "pairing_step W inp mf kid e =
     (let path = in_pairing inp; rec = [(''path'', JStr path)] in
      if path = [] then
        bindP (put_out ''pairing'' (JObj rec)) (\<lambda>_. add_finding ''pairing-payload-not-given''
          ''no pairing payload was given; attest_pub was not compared'' [] ''warn'')
      else bindP (liftP (pairing_dict (pw_read W path))) (\<lambda>data.
        case data of
          Inl cls \<Rightarrow> bindP (put_out ''pairing'' (JObj (rec @ [(''error'', JStr cls)]))) (\<lambda>_.
            add_finding ''pairing-payload-unreadable'' (''cannot read '' @ path) [Live] ''info'')
        | Inr d \<Rightarrow>
            bindP (updateP (\<lambda>s. s\<lparr>pf_secrets := secrets_of d\<rparr>)) (\<lambda>_.
            bindP (liftP (pub_from_spki_b64 (pw_keys W) (field_text d ''attest_pub''))) (\<lambda>apub.
            bindP (liftP (url_hostname (field_text d ''gateway_url''))) (\<lambda>host.
            bindP (put_out ''pairing'' (JObj (rec @ pairing_fields W inp kid e d apub host))) (\<lambda>_.
            bindP (liftP (pairing_findings W inp mf kid e d apub host)) log_findings))))))"

section \<open>The export\<close>

definition EXPORT_TAIL_BYTES :: nat where
  "EXPORT_TAIL_BYTES = 524288"

text \<open>\<open>bytes.strip()\<close> leaves nothing.\<close>

definition blank_line :: "string \<Rightarrow> bool" where
  "blank_line b = (\<forall>c \<in> set b. (of_char c :: nat) \<in> {9, 10, 11, 12, 13, 32})"

definition export_lines :: "string \<Rightarrow> string list" where
  "export_lines content =
     (let n = length content; ls = split_on (CHR 0x0A) (drop (n - EXPORT_TAIL_BYTES) content) in
      if EXPORT_TAIL_BYTES < n then drop 1 ls else ls)"

record export_scan =
  xs_signers :: "(string \<times> nat) list"
  xs_unsigned :: nat
  xs_latest :: "dict option"

definition signed_by :: "dict \<Rightarrow> json" where
  "signed_by d = (case get d ''envelope_signature'' of JObj es \<Rightarrow> get es ''kid'' | _ \<Rightarrow> JNull)"

definition scan_invoke :: "dict \<Rightarrow> export_scan \<Rightarrow> export_scan" where
  "scan_invoke d x =
     (case get d ''invoke'' of
        JObj iv \<Rightarrow>
          if get d ''record_kind'' = JStr ''intent'' then x
          else (case signed_by iv of
             JStr k \<Rightarrow> x\<lparr>xs_signers := AList.update k (Suc (case map_of (xs_signers x) k of None \<Rightarrow> 0 | Some n \<Rightarrow> n)) (xs_signers x)\<rparr>
           | _ \<Rightarrow> x\<lparr>xs_unsigned := Suc (xs_unsigned x)\<rparr>)
      | _ \<Rightarrow> x)"

definition scan_outcome :: "string \<Rightarrow> dict \<Rightarrow> export_scan \<Rightarrow> export_scan" where
  "scan_outcome kid d x =
     (case get d ''outcome'' of
        JObj oc \<Rightarrow> if signed_by oc = JStr kid then x\<lparr>xs_latest := Some oc\<rparr> else x
      | _ \<Rightarrow> x)"

definition scan_line :: "string \<Rightarrow> string \<Rightarrow> export_scan \<Rightarrow> export_scan" where
  "scan_line kid l x =
     (if blank_line l then x
      else case json_body l of
        Some (JObj d) \<Rightarrow> scan_outcome kid d (scan_invoke d x)
      | _ \<Rightarrow> x)"

definition scan_export :: "string \<Rightarrow> string list \<Rightarrow> export_scan" where
  "scan_export kid ls = fold (scan_line kid) ls \<lparr>xs_signers = [], xs_unsigned = 0, xs_latest = None\<rparr>"

definition parse_iso :: "preflight_world \<Rightarrow> string \<Rightarrow> exc + int" where
  "parse_iso W ts = (case pw_fromiso W (replace ''Z'' ''+00:00'' ts) of
     Inr t \<Rightarrow> Inr t | Inl e \<Rightarrow> if is_value_error e \<or> e = AttributeError then Inr (- 1) else Inl e)"

definition receipt_signature :: "dict \<Rightarrow> string" where
  "receipt_signature oc =
     (case get oc ''envelope_signature'' of
        JObj es \<Rightarrow> (case get_def es ''sig'' (JStr []) of
          JStr s \<Rightarrow> (case b64decode_strict s of Inr sig \<Rightarrow> sig | Inl _ \<Rightarrow> [])
        | _ \<Rightarrow> [])
      | _ \<Rightarrow> [])"

text \<open>The newest receipt of the gateway's kid.\<close>

definition latest_step :: "preflight_world \<Rightarrow> gateway_info \<Rightarrow> string \<Rightarrow> string option \<Rightarrow> string \<Rightarrow> dict option
    \<Rightarrow> exc + dict \<times> run_finding list" where
  "latest_step W gw kid local_pub path latest =
     (case latest of
        None \<Rightarrow> Inr ([], finding_if True ''no-receipt-in-export-tail''
          (''no receipt signed as '' @ kid @ '' in the tail of '' @ or_text path ''the export'') [] ''info'')
      | Some oc \<Rightarrow>
          (let ok = ed25519_verifies (pw_keys W) local_pub (receipt_signature oc) (receipt_signed_bytes oc);
               ended = field_text oc ''ended_at'' in
           bindE (if ended = [] then Inr (- 1) else parse_iso W ended) (\<lambda>t.
           let after = (0 \<le> t \<and> 0 \<le> gi_started gw \<and> gi_started gw \<le> t) in
           Inr ([(''latest_receipt'', JObj [(''corr_id'', JStr (field_text oc ''corr_id'')), (''status'', JStr (field_text oc ''status'')),
                  (''ended_at'', JStr ended), (''receipt_version'', JInt (plain_int (get oc ''receipt_version'') 1)),
                  (''caller'', JStr (field_text oc ''caller'')), (''tier'', JStr (field_text oc ''tier'')),
                  (''verifies_under_local_key'', JBool ok), (''after_process_start'', JBool after)])],
             if \<not> ok then finding_if True ''gateway-receipt-fails-local-key''
               (''the newest receipt signed as '' @ kid @ '' does not verify under the local copy of '' @ kid) [Live] ''info''
             else finding_if (\<not> after) ''latest-receipt-predates-process-start''
               (''the newest receipt ('' @ or_text ended ''no time'' @ '') is older than the running process; nothing ''
                  @ ''signed since the start shows which key the process holds'') [] ''info''))))"

text \<open>A signer kid seen in the export: its record and, when it is unknown here, a finding.\<close>

definition signer_step :: "preflight_world \<Rightarrow> inputs \<Rightarrow> bool \<Rightarrow> (string \<times> nat) \<Rightarrow> (string \<times> json) pre" where
  "signer_step W inp enforce kn =
     (let (skid, n) = kn in
      bindP (check_kid W inp skid ''envelope-signer'' [Live]) (\<lambda>e.
      bindP (log_findings (finding_if (lk_result (ke_local e) \<noteq> ''found'') (''signer-kid-not-resolvable-locally:'' @ skid)
        (''the gateway'' @ [CHR 0x27] @ ''s resolver cannot serve signer '' @ skid
           @ ''; with ROBOT_MD_REQUIRE_ENVELOPE_SIGNATURE on, its envelopes would be refused'')
        (if enforce then [Live] else []) ''warn'')) (\<lambda>_.
      returnP (skid, JObj [(''seen_in_export_tail'', num n), (''local'', JStr (lk_result (ke_local e))),
        (''registry'', JStr (lk_result (ke_registry e)))]))))"

definition export_content :: "preflight_world \<Rightarrow> string \<Rightarrow> exc + dict \<times> string list" where
  "export_content W path =
     (if path = [] then Inr ([], [])
      else case pw_read W path of
        Inl (OSError n) \<Rightarrow> Inr ([(''error'', JStr n)], [])
      | Inl e \<Rightarrow> Inl e
      | Inr content \<Rightarrow> Inr ([(''bytes'', num (length content))], export_lines content))"

definition export_step :: "preflight_world \<Rightarrow> inputs \<Rightarrow> gateway_info \<Rightarrow> string \<Rightarrow> string option \<Rightarrow> unit pre" where
  "export_step W inp gw kid local_pub =
     (let path = or_text (in_export inp) (text_at (gi_env gw) ''ROBOT_MD_ATTESTATION_EXPORT_FILE'') in
      bindP (liftP (export_content W path)) (\<lambda>(rec, ls).
      let x = scan_export kid ls; unsigned = xs_unsigned x in
      bindP (liftP (latest_step W gw kid local_pub path (xs_latest x))) (\<lambda>(lrec, lfound).
      bindP (log_findings (lfound @ finding_if (unsigned \<noteq> 0) ''unsigned-invokes-in-export-tail''
        (nat_str unsigned @ '' invoke(s) in the export tail carry no envelope signature; with ''
           @ ''ROBOT_MD_REQUIRE_ENVELOPE_SIGNATURE on, each would get a signed 403'') []
        (if enforce_sig gw then ''warn'' else ''info''))) (\<lambda>_.
      bindP (put_out ''export'' (JObj ([(''path'', JStr path)] @ rec
        @ [(''tail_lines'', num (length (filter (\<lambda>l. \<not> blank_line l) ls))),
           (''signed_invokes_by_kid'', JObj (map (\<lambda>(k, n). (k, num n)) (xs_signers x))), (''unsigned_invokes'', num unsigned)]
        @ lrec))) (\<lambda>_.
      bindP (collect (signer_step W inp (enforce_sig gw)) (sort_key fst (xs_signers x))) (\<lambda>srec.
      put_out ''signers'' (JObj srec)))))))"

section \<open>The gateway\<close>

definition is_live :: "mode \<Rightarrow> bool" where
  "is_live m = (m = Live)"

definition identity_step :: "preflight_world \<Rightarrow> inputs \<Rightarrow> gateway_info \<Rightarrow> manifest \<Rightarrow> dict \<Rightarrow> string \<Rightarrow> unit pre" where
  "identity_step W inp gw mf rec kid =
     bindP (check_kid W inp kid ''gateway-attestation'' [Live]) (\<lambda>e.
     bindP (log_findings (finding_if (lk_result (ke_local e) \<noteq> ''found'') ''gateway-kid-not-resolvable-locally''
       (''the local resolver cannot serve '' @ kid @ '' ('' @ lk_result (ke_local e)
          @ ''), so no receipt can be checked against a local copy'') [Live] ''info'')) (\<lambda>_.
     bindP (liftP (sidecar_step W (text_at (gi_env gw) ''ROBOT_MD_ATTESTATION_KEY_FILE'') kid e)) (\<lambda>(side, found).
     bindP (log_findings found) (\<lambda>_.
     bindP (ran_step W inp (text_at (gi_env gw) ''ROBOT_MD_ATTESTATION_RAN'') kid e) (\<lambda>(rrec, ok).
     bindP (put_out ''gateway'' (JObj (rec @ [(''key_file_public_sidecar'', JObj side), (''ran'', JObj rrec)]))) (\<lambda>_.
     bindP (set_check is_live ''gateway_kid_registry_is_pinned_and_local_key'' (backed e)) (\<lambda>_.
     bindP (set_check is_live ''declared_ran_holds_gateway_key'' ok) (\<lambda>_.
     bindP (pairing_step W inp mf kid e) (\<lambda>_. export_step W inp gw kid (lk_pub (ke_local e)))))))))))"

definition gateway_error :: "gateway_info option \<Rightarrow> string option" where
  "gateway_error g = (case g of
     None \<Rightarrow> Some ''no gateway unit given''
   | Some gw \<Rightarrow>
       if gi_error gw \<noteq> [] \<or> gi_pid gw \<le> 0 \<or> gi_active gw \<noteq> ''active'' then
         Some (or_text (gi_error gw) (''unit is '' @ or_text (gi_active gw) ''unknown'' @ '', pid '' @ int_str (gi_pid gw)))
       else None)"

definition gateway_step :: "preflight_world \<Rightarrow> inputs \<Rightarrow> manifest \<Rightarrow> unit pre" where
  "gateway_step W inp mf =
     (case (in_gateway inp, gateway_error (in_gateway inp)) of
        (Some gw, None) \<Rightarrow>
          bindP (gateway_env_step W inp gw mf) (\<lambda>rec.
          let kid = text_at (gi_env gw) ''ROBOT_MD_ATTESTATION_KID'' in
          if kid = [] \<or> text_at (gi_env gw) ''ROBOT_MD_ATTESTATION_KEY_FILE'' = [] then
            bindP (put_out ''gateway'' (JObj rec)) (\<lambda>_. add_finding ''gateway-not-signing''
              ''the gateway env has no ROBOT_MD_ATTESTATION_KID/KEY_FILE: it runs verifier-only and signs nothing'' [Live] ''info'')
          else identity_step W inp gw mf rec kid)
      | (g, err) \<Rightarrow>
          (let why = (case err of Some m \<Rightarrow> m | None \<Rightarrow> []) in
           bindP (put_out ''gateway'' (JObj [(''unit'', JStr (case g of Some gw \<Rightarrow> gi_unit gw | None \<Rightarrow> [])), (''error'', JStr why)])) (\<lambda>_.
           add_finding ''gateway-not-running'' (''cannot read the running gateway: '' @ why) [Live] ''info'')))"

section \<open>The run\<close>

definition other_pin_step :: "preflight_world \<Rightarrow> inputs \<Rightarrow> manifest \<Rightarrow> string \<times> dict \<Rightarrow> unit pre" where
  "other_pin_step W inp mf kp =
     (let (kid, pin) = kp in
      bindP (readP (\<lambda>s. map_of (pf_kids s) kid)) (\<lambda>seen.
      if seen \<noteq> None \<or> pm_rrn mf = [] \<or> field_text pin ''rrn'' \<noteq> pm_rrn mf then returnP ()
      else bindP (check_kid W inp kid (or_text (field_text pin ''role'') ''pinned'') []) (\<lambda>_. returnP ())))"

definition other_pins_step :: "preflight_world \<Rightarrow> inputs \<Rightarrow> manifest \<Rightarrow> unit pre" where
  "other_pins_step W inp mf = each (other_pin_step W inp mf) (sort_key fst (in_pins inp))"

text \<open>\<open>_name_ran_key\<close>: which kids looked up in this run have the RAN's key at the registry.\<close>

definition ran_key :: "dict \<Rightarrow> string" where
  "ran_key d = (case get d ''gateway'' of
     JObj g \<Rightarrow> (case get g ''ran'' of JObj r \<Rightarrow> field_text r ''signing_pub_spki_sha256'' | _ \<Rightarrow> [])
   | _ \<Rightarrow> [])"

definition kids_with_key :: "string \<Rightarrow> (string \<times> kid_entry) list \<Rightarrow> string list" where
  "kids_with_key spki kids = sort (map fst (filter (\<lambda>(k, e). lk_spki (ke_registry e) = spki) kids))"

definition name_in_out :: "string list \<Rightarrow> dict \<Rightarrow> dict" where
  "name_in_out kids d = (case get d ''gateway'' of
     JObj g \<Rightarrow> (case get g ''ran'' of
       JObj r \<Rightarrow> AList.update ''gateway'' (JObj (AList.update ''ran''
         (JObj (AList.update ''registry_kids_with_this_key'' (texts kids) r)) g)) d
     | _ \<Rightarrow> d)
   | _ \<Rightarrow> d)"

definition name_in_finding :: "string list \<Rightarrow> run_finding \<Rightarrow> run_finding" where
  "name_in_finding kids f =
     (if kids \<noteq> [] \<and> fd_id f = ''ran-holds-different-key'' then
        f\<lparr>fd_detail := fd_detail f @ ''; the registry serves this key under '' @ comma_list kids\<rparr>
      else f)"

definition name_ran_key :: "unit pre" where
  "name_ran_key = updateP (\<lambda>s.
     let spki = ran_key (pf_out s); kids = kids_with_key spki (pf_kids s) in
     if spki = [] then s
     else s\<lparr>pf_out := name_in_out kids (pf_out s), pf_findings := map (name_in_finding kids) (pf_findings s)\<rparr>)"

definition modes_of :: "mode \<Rightarrow> mode list" where
  "modes_of m = (if m = Live then [Bench, Live] else [Bench])"

definition start :: "inputs \<Rightarrow> preflight" where
  "start inp = \<lparr>pf_log = [], pf_findings = [], pf_kids = [], pf_secrets = [], pf_rrn = [],
     pf_checks = map (\<lambda>m. (m, [])) (modes_of (in_mode inp)),
     pf_out = [(''preflight_version'', JInt 1), (''robot'', JStr (in_robot inp)), (''mode'', JStr (mode_name (in_mode inp))),
       (''checked_at'', JStr (utc_iso (in_now inp))), (''host'', JStr (in_host inp)), (''tool'', JObj (in_tool inp)),
       (''registry_base'', JStr (in_registry inp)), (''resolver_base'', JStr (in_resolver inp)),
       (''resolver_source'', JStr (in_resolver_source inp)),
       (''pins_file'', JObj [(''path'', JStr (in_pins_path inp)), (''sha256'', JStr (in_pins_sha256 inp)),
          (''kids'', texts (sort (map fst (in_pins inp))))]),
       (''not_claimed'', texts [''the registry enforces nothing; a verdict says which keys the evidence can be checked with'',
          ''nothing here says an action is safe or correct''])]\<rparr>"

definition check_all :: "preflight_world \<Rightarrow> inputs \<Rightarrow> unit pre" where
  "check_all W inp =
     bindP (manifest_step W inp) (\<lambda>mf.
     bindP (case mf of
        None \<Rightarrow> returnP ()
      | Some mf \<Rightarrow>
          bindP (manifest_keys_step W inp mf) (\<lambda>_.
          bindP (rrn_step W inp mf) (\<lambda>_.
          bindP (if in_mode inp = Live then gateway_step W inp mf else returnP ()) (\<lambda>_.
          other_pins_step W inp mf)))) (\<lambda>_. name_ran_key))"

text \<open>The verdict of a mode after the checks.\<close>

definition mode_verdict :: "preflight \<Rightarrow> mode \<Rightarrow> string \<times> string list" where
  "mode_verdict s m = verdict_for m (pf_findings s) (case map_of (pf_checks s) m of None \<Rightarrow> [] | Some d \<Rightarrow> d)"

definition lookup_json :: "key_lookup \<Rightarrow> dict" where
  "lookup_json l = [(''url'', JStr (lk_url l)), (''status'', JInt (lk_status l)), (''body_sha256'', JStr (lk_body_sha256 l)),
     (''result'', JStr (lk_result l)), (''spki_sha256'', JStr (lk_spki l))]"

definition entry_json :: "kid_entry \<Rightarrow> json" where
  "entry_json e = JObj [(''kid'', JStr (ke_kid e)), (''roles_here'', texts (ke_roles e)),
     (''in_use_in'', texts (map mode_name (ke_in_use e))), (''local'', JObj (lookup_json (ke_local e))),
     (''registry'', JObj (lookup_json (key_lookup.truncate (ke_registry e))
        @ [(''ran'', JStr (rg_ran (ke_registry e))), (''key_status'', JStr (rg_key_status (ke_registry e))),
           (''pq_kid'', JStr (rg_pq_kid (ke_registry e))), (''valid_from'', JStr (rg_valid_from (ke_registry e))),
           (''valid_until'', JStr (rg_valid_until (ke_registry e)))])),
     (''pin'', JObj [(''present'', JBool (pn_present (ke_pin e))), (''spki_sha256'', JStr (pn_spki (ke_pin e))),
        (''role'', JStr (pn_role (ke_pin e))), (''rrn'', JStr (pn_rrn (ke_pin e))), (''ran'', JStr (pn_ran (ke_pin e)))]),
     (''local_matches_pin'', JBool (ke_local_matches_pin e)),
     (''registry_matches_local'', JBool (ke_registry_matches_local e)),
     (''registry_matches_pin'', JBool (ke_registry_matches_pin e))]"

definition final_out :: "inputs \<Rightarrow> preflight \<Rightarrow> dict" where
  "final_out inp s =
     pf_out s @ [(''kids'', JObj (map (\<lambda>(k, e). (k, entry_json e)) (pf_kids s))),
       (''registry_checks'', JObj (map (\<lambda>(m, d). (mode_name m, JObj (map (\<lambda>(k, b). (k, JBool b)) d))) (pf_checks s))),
       (''findings'', JArr (map (finding_json (in_mode inp)) (pf_findings s))),
       (''verdicts_by_mode'', JObj (map (\<lambda>m. (mode_name m, JObj [(''verdict'', JStr (fst (mode_verdict s m))),
          (''stop_reasons'', texts (snd (mode_verdict s m)))])) (modes_of (in_mode inp)))),
       (''verdict'', JStr (fst (mode_verdict s (in_mode inp)))),
       (''stop_reasons'', texts (snd (mode_verdict s (in_mode inp)))),
       (''http'', JArr (map (http_record \<circ> snd) (pf_log s)))]"

definition run_preflight :: "preflight_world \<Rightarrow> inputs \<Rightarrow> exc + dict \<times> preflight" where
  "run_preflight W inp =
     bindE (check_all W inp (start inp)) (\<lambda>(_, s).
     let d = final_out inp s in if output_types_ok (JObj d) then Inr (d, s) else Inl TypeError)"

text \<open>From the run to the exit code and the bytes on standard output; a secret in them is refused.\<close>

definition finish :: "preflight_world \<Rightarrow> inputs \<Rightarrow> exc + nat \<times> string" where
  "finish W inp =
     bindE (run_preflight W inp) (\<lambda>(d, s).
     let blob = canonical None d in
     if \<exists>secret \<in> set (pf_secrets s). find_sub secret blob \<noteq> None then Inr (2, [])
     else Inr (exit_code (fst (mode_verdict s (in_mode inp))), blob @ [CHR 0x0A]))"

definition DEFAULT_RESOLVER :: string where
  "DEFAULT_RESOLVER = ''http://127.0.0.1:8090''"

definition DEFAULT_REGISTRY :: string where
  "DEFAULT_REGISTRY = ''https://robotregistryfoundation.org''"

definition choose_resolver :: "string \<Rightarrow> gateway_info option \<Rightarrow> string \<times> string" where
  "choose_resolver flag g =
     (if flag \<noteq> [] then (flag, ''flag'')
      else case g of
        None \<Rightarrow> (DEFAULT_RESOLVER, ''default-loopback-stub'')
      | Some gw \<Rightarrow>
          (case map_of (gi_env gw) ''OPENCASTOR_OPS_RRF_URL'' of
             Some u \<Rightarrow> (u, ''gateway-process-env'')
           | None \<Rightarrow> if gi_error gw = [] \<and> 0 < gi_pid gw then (DEFAULT_REGISTRY, ''gateway-default-public-registry'')
                     else (DEFAULT_RESOLVER, ''default-loopback-stub'')))"

section \<open>What every step keeps\<close>

lemma set_check_frames [keeps_intros]: "keeps (asks W inp) (set_check sel k b)" "keeps finds (set_check sel k b)"
  by (auto simp: set_check_def stops_of_def intro!: keeps_intros)

lemma fixture_upward: "fixture_step W inp raw = Inr (rec, fs) \<Longrightarrow> all_upward fs"
  by (auto simp: fixture_step_def Let_def split: if_splits sum.splits exc.splits)

lemma manifest_upward: "all_upward (manifest_findings mf)" "all_upward (manifest_key_findings lc mf e)"
    "all_upward (rrn_findings mf d)"
  by (simp_all add: manifest_findings_def manifest_key_findings_def rrn_findings_def Let_def)

lemma rrn_answer_upward: "rrn_answer mf r = (rec, fs, ok) \<Longrightarrow> all_upward fs"
  by (auto simp: rrn_answer_def Let_def manifest_upward split: if_splits)

lemma sidecar_upward: "sidecar_step W key_file kid e = Inr (rec, fs) \<Longrightarrow> all_upward fs"
  by (auto simp: sidecar_step_def Let_def bindE_Inr_iff split: if_splits sum.splits exc.splits)

lemma authority_upward: "authority_answer W inp rn kid e d = Inr (rec, fs, ok) \<Longrightarrow> all_upward fs"
  by (auto simp: authority_answer_def Let_def bindE_Inr_iff)

lemma pairing_upward: "pairing_findings W inp mf kid e d apub host = Inr fs \<Longrightarrow> all_upward fs"
  by (auto simp: pairing_findings_def Let_def bindE_Inr_iff)

lemma latest_upward: "latest_step W gw kid pub path latest = Inr (rec, fs) \<Longrightarrow> all_upward fs"
  by (auto simp: latest_step_def Let_def bindE_Inr_iff split: option.splits if_splits)

lemma manifest_step_frames [keeps_intros]:
  "keeps (asks W inp) (manifest_step W inp)" "keeps finds (manifest_step W inp)"
  "keeps same_checks (manifest_step W inp)"
  unfolding manifest_step_def Let_def
  by (auto intro!: asking.bind asking.pure finding.bind_dep finding.pure checked.bind checked.pure keeps_intros
      simp: manifest_upward stops_of_def dest: fixture_upward split: sum.split exc.split prod.split)

lemma manifest_keys_frames [keeps_intros]:
  "keeps (asks W inp) (manifest_keys_step W inp mf)" "keeps finds (manifest_keys_step W inp mf)"
  unfolding manifest_keys_step_def Let_def
  by (auto intro!: asking.bind finding.bind keeps_intros simp: manifest_upward)

lemma own_record_frames [keeps_intros]:
  "keeps (asks W inp) (own_record_step W inp mf)" "keeps finds (own_record_step W inp mf)"
  "keeps same_checks (own_record_step W inp mf)"
  unfolding own_record_step_def Let_def
  by (auto intro!: asking.bind asking.pure finding.bind finding.pure checked.bind checked.pure keeps_intros
      dest: rrn_answer_upward split: prod.split)

lemma rrn_step_frames [keeps_intros]:
  "keeps (asks W inp) (rrn_step W inp mf)" "keeps finds (rrn_step W inp mf)"
  unfolding rrn_step_def Let_def
  by (auto intro!: asking.bind finding.bind keeps_intros split: prod.split)

lemma drive_step_frames [keeps_intros]:
  "keeps (asks W inp) (drive_step env mf)" "keeps finds (drive_step env mf)" "keeps same_checks (drive_step env mf)"
  unfolding drive_step_def Let_def
  by (auto intro!: asking.bind asking.pure finding.bind finding.pure checked.bind checked.pure keeps_intros
      split: prod.split)

lemma gateway_env_frames [keeps_intros]:
  "keeps (asks W inp) (gateway_env_step W inp gw mf)" "keeps finds (gateway_env_step W inp gw mf)"
  "keeps same_checks (gateway_env_step W inp gw mf)"
  unfolding gateway_env_step_def Let_def
  by (intro asking.bind asking.pure finding.bind finding.pure checked.bind checked.pure keeps_intros; simp)+

lemma ran_step_frames [keeps_intros]:
  "keeps (asks W inp) (ran_step W inp rn kid e)" "keeps finds (ran_step W inp rn kid e)"
  "keeps same_checks (ran_step W inp rn kid e)"
  unfolding ran_step_def Let_def
  by (auto intro!: asking.bind asking.pure finding.bind_dep finding.pure checked.bind checked.pure keeps_intros
      simp: authority_upward split: prod.split if_splits)

lemma pairing_step_frames [keeps_intros]:
  "keeps (asks W inp) (pairing_step W inp mf kid e)" "keeps finds (pairing_step W inp mf kid e)"
  "keeps same_checks (pairing_step W inp mf kid e)"
  unfolding pairing_step_def Let_def
  by (auto intro!: asking.bind asking.pure finding.bind_dep finding.pure checked.bind checked.pure keeps_intros
      simp: stops_of_def pairing_upward split: sum.split)

lemma signer_step_frames [keeps_intros]:
  "keeps (asks W inp) (signer_step W inp enforce kn)" "keeps finds (signer_step W inp enforce kn)"
  "keeps same_checks (signer_step W inp enforce kn)"
  unfolding signer_step_def Let_def
  by (auto intro!: asking.bind asking.pure finding.bind finding.pure checked.bind checked.pure keeps_intros
      split: prod.split)

lemma export_step_frames [keeps_intros]:
  "keeps (asks W inp) (export_step W inp gw kid pub)" "keeps finds (export_step W inp gw kid pub)"
  "keeps same_checks (export_step W inp gw kid pub)"
  unfolding export_step_def Let_def
  by (auto intro!: asking.bind asking.pure asking.collect_keeps finding.bind_dep finding.pure finding.collect_keeps
      checked.bind checked.pure checked.collect_keeps keeps_intros dest: latest_upward split: prod.split)

lemma identity_step_frames [keeps_intros]:
  "keeps (asks W inp) (identity_step W inp gw mf rec kid)" "keeps finds (identity_step W inp gw mf rec kid)"
  unfolding identity_step_def Let_def
  by (auto intro!: asking.bind asking.pure finding.bind_dep finding.pure keeps_intros dest: sidecar_upward split: prod.split)

lemma gateway_step_frames [keeps_intros]:
  "keeps (asks W inp) (gateway_step W inp mf)" "keeps finds (gateway_step W inp mf)"
  unfolding gateway_step_def Let_def
  by (auto intro!: asking.bind asking.pure finding.bind finding.pure keeps_intros split: option.split)

lemma other_pins_frames [keeps_intros]:
  "keeps (asks W inp) (other_pins_step W inp mf)" "keeps finds (other_pins_step W inp mf)"
  "keeps same_checks (other_pins_step W inp mf)"
  unfolding other_pins_step_def other_pin_step_def Let_def
  by (auto intro!: asking.each_keeps asking.bind asking.pure finding.each_keeps finding.bind finding.pure
      checked.each_keeps checked.bind checked.pure keeps_intros split: prod.split)

lemma name_ran_frames [keeps_intros]:
  "keeps (asks W inp) name_ran_key" "keeps finds name_ran_key" "keeps same_checks name_ran_key"
  unfolding name_ran_key_def Let_def
  by (auto intro!: keeps_intros simp: stops_of_def name_in_finding_def)

lemma check_all_frames: "keeps (asks W inp) (check_all W inp)" "keeps finds (check_all W inp)"
  unfolding check_all_def
  by (auto intro!: asking.bind asking.pure finding.bind finding.pure keeps_intros split: option.split)

end
