(* ===== verification/Preflight_Verdict.thy ===== *)
theory Preflight_Verdict
  imports Preflight
begin

text \<open>
  What a verdict of \<open>scripts/rrf_preflight.py\<close> is worth: which answers a run holds, what the checks of each
  mode are at its end, and what follows from \<open>registry-resolves\<close>.
\<close>

section \<open>The checks at the end of a run\<close>

abbreviation "K_PINNED \<equiv> ''manifest_kid_registry_is_pinned_and_local_key''"
abbreviation "K_VERIFIES \<equiv> ''manifest_verifies_under_registry_key''"
abbreviation "K_RRN \<equiv> ''rrn_record_exists_not_revoked''"
abbreviation "K_GATEWAY \<equiv> ''gateway_kid_registry_is_pinned_and_local_key''"
abbreviation "K_RAN \<equiv> ''declared_ran_holds_gateway_key''"

definition after_check :: "(mode \<Rightarrow> bool) \<Rightarrow> string \<Rightarrow> bool \<Rightarrow> (mode \<times> (string \<times> bool) list) list
    \<Rightarrow> (mode \<times> (string \<times> bool) list) list" where
  "after_check sel k b = map (\<lambda>(m, d). (m, if sel m then AList.update k b d else d))"

lemma set_check_checks: "set_check sel k b s = Inr (u, t) \<Longrightarrow> pf_checks t = after_check sel k b (pf_checks s)"
  by (simp add: set_check_def after_check_def)

lemma same: "keeps same_checks m \<Longrightarrow> m s = Inr (x, t) \<Longrightarrow> pf_checks t = pf_checks s"
  using keepsD [of same_checks m s x t] by (simp add: same_checks_def)

lemma manifest_keys_checks:
  assumes "manifest_keys_step W inp mf s = Inr (u, t)"
  obtains e s1 where "check_kid W inp (pm_kid mf) ''manifest'' BOTH s = Inr (e, s1)"
    "pf_checks t = after_check (\<lambda>_. True) K_VERIFIES (registry_verdict (pw_keys W) mf e = ''verified'')
       (after_check (\<lambda>_. True) K_PINNED (backed e) (pf_checks s))" "asks W inp s1 t"
proof -
  from assms obtain e s1 s2 s3 s4 where k: "check_kid W inp (pm_kid mf) ''manifest'' BOTH s = Inr (e, s1)"
    and steps: "log_findings (manifest_key_findings (local_verdict (pw_keys W) mf e) mf e) s1 = Inr ((), s2)"
      "put_out ''manifest_signature'' (text_dict [(''local'', local_verdict (pw_keys W) mf e),
         (''registry'', registry_verdict (pw_keys W) mf e),
         (''pin'', pin_verdict (local_verdict (pw_keys W) mf e) (registry_verdict (pw_keys W) mf e) e)]) s2 = Inr ((), s3)"
      "set_check (\<lambda>m. True) K_PINNED (backed e) s3 = Inr ((), s4)"
      "set_check (\<lambda>m. True) K_VERIFIES (registry_verdict (pw_keys W) mf e = ''verified'') s4 = Inr (u, t)"
    by (auto simp: manifest_keys_step_def bindP_Inr Let_def)
  have "pf_checks s3 = pf_checks s"
    using same [OF check_kid_frames(2) k] same [OF log_findings_frames(2) steps(1)] same [OF put_out_frames(3) steps(2)] by simp
  moreover have "asks W inp s1 t"
    by (rule asking.R_trans [OF keepsD [OF log_findings_frames(1) steps(1)] asking.R_trans [OF keepsD [OF put_out_frames(1) steps(2)]
      asking.R_trans [OF keepsD [OF set_check_frames(1) steps(3)] keepsD [OF set_check_frames(1) steps(4)]]]])
  ultimately show ?thesis using set_check_checks [OF steps(3)] set_check_checks [OF steps(4)] k that by simp
qed

lemma rrn_checks:
  assumes "rrn_step W inp mf s = Inr (u, t)"
  obtains rec ok s1 where "own_record_step W inp mf s = Inr ((rec, ok), s1)"
    "pf_checks t = after_check (\<lambda>_. True) K_RRN ok (pf_checks s)"
    "asks W inp s1 t"
proof -
  from assms obtain rec ok s1 nx s2 v s3 f s4 where st: "own_record_step W inp mf s = Inr ((rec, ok), s1)"
      "get_url W (url_of (in_registry inp) [''v2'', ''robots'', ''_next'']) s1 = Inr (nx, s2)"
      "put_out ''rrn'' v s2 = Inr ((), s3)" "log_findings f s3 = Inr ((), s4)"
      "set_check (\<lambda>m. True) K_RRN ok s4 = Inr (u, t)"
    by (auto simp: rrn_step_def bindP_Inr Let_def)
  have "pf_checks s4 = pf_checks s"
    using same [OF own_record_frames(3) st(1)] same [OF get_url_frames(2) st(2)] same [OF put_out_frames(3) st(3)]
      same [OF log_findings_frames(2) st(4)] by simp
  moreover have "asks W inp s1 t"
    by (rule asking.R_trans [OF keepsD [OF get_url_asks st(2)] asking.R_trans [OF keepsD [OF put_out_frames(1) st(3)]
      asking.R_trans [OF keepsD [OF log_findings_frames(1) st(4)] keepsD [OF set_check_frames(1) st(5)]]]]) simp
  ultimately show ?thesis using set_check_checks [OF st(5)] st(1) that by simp
qed

lemma identity_checks:
  assumes "identity_step W inp gw mf rec kid s = Inr (u, t)"
  shows "\<exists>a b. pf_checks t = after_check is_live K_RAN b (after_check is_live K_GATEWAY a (pf_checks s))"
proof -
  from assms obtain e s1 f1 s2 side found s3 f2 s4 rrec ok s5 v s6 s7 s8 s9 where
      st: "check_kid W inp kid ''gateway-attestation'' [Live] s = Inr (e, s1)" "log_findings f1 s1 = Inr ((), s2)"
      "liftP side s2 = Inr (found, s3)" "log_findings f2 s3 = Inr ((), s4)"
      "ran_step W inp (text_at (gi_env gw) ''ROBOT_MD_ATTESTATION_RAN'') kid e s4 = Inr ((rrec, ok), s5)"
      "put_out ''gateway'' v s5 = Inr ((), s6)"
      "set_check is_live K_GATEWAY (backed e) s6 = Inr ((), s7)" "set_check is_live K_RAN ok s7 = Inr ((), s8)"
      "pairing_step W inp mf kid e s8 = Inr ((), s9)" "export_step W inp gw kid (lk_pub (ke_local e)) s9 = Inr (u, t)"
    by (fastforce simp: identity_step_def bindP_Inr Let_def)
  have "pf_checks s6 = pf_checks s"
    using same [OF check_kid_frames(2) st(1)] same [OF log_findings_frames(2) st(2)] st(3)
      same [OF log_findings_frames(2) st(4)] same [OF ran_step_frames(3) st(5)] same [OF put_out_frames(3) st(6)]
    by simp
  moreover have "pf_checks t = pf_checks s8"
    using same [OF pairing_step_frames(3) st(9)] same [OF export_step_frames(3) st(10)] by simp
  ultimately show ?thesis using set_check_checks [OF st(7)] set_check_checks [OF st(8)] by auto
qed

lemma gateway_checks:
  assumes "gateway_step W inp mf s = Inr (u, t)"
  shows "pf_checks t = pf_checks s \<or>
    (\<exists>a b. pf_checks t = after_check is_live K_RAN b (after_check is_live K_GATEWAY a (pf_checks s)))"
proof -
  have quiet: "keeps same_checks (bindP (put_out ''gateway'' v) (\<lambda>_. add_finding i d ms l))" for v i d ms l
    by (intro checked.bind keeps_intros)
  consider (quiet) v i d ms l where "bindP (put_out ''gateway'' v) (\<lambda>_. add_finding i d ms l) s = Inr (u, t)"
    | (env) gw rec s1 where "gateway_env_step W inp gw mf s = Inr (rec, s1)"
        "(if text_at (gi_env gw) ''ROBOT_MD_ATTESTATION_KID'' = [] \<or> text_at (gi_env gw) ''ROBOT_MD_ATTESTATION_KEY_FILE'' = []
          then bindP (put_out ''gateway'' (JObj rec)) (\<lambda>_. add_finding ''gateway-not-signing''
              ''the gateway env has no ROBOT_MD_ATTESTATION_KID/KEY_FILE: it runs verifier-only and signs nothing'' [Live] ''info'')
          else identity_step W inp gw mf rec (text_at (gi_env gw) ''ROBOT_MD_ATTESTATION_KID'')) s1 = Inr (u, t)"
    using assms by (cases "in_gateway inp"; cases "gateway_error (in_gateway inp)")
      (auto simp: gateway_step_def Let_def bindP_Inr [where m = "gateway_env_step W inp _ mf"])
  then show ?thesis
  proof cases
    case quiet
    then show ?thesis using same [OF \<open>keeps same_checks _\<close>] by blast
  next
    case env
    have "pf_checks s1 = pf_checks s" using same [OF gateway_env_frames(3) env(1)] .
    moreover have "pf_checks t = pf_checks s1 \<or>
        (\<exists>a b. pf_checks t = after_check is_live K_RAN b (after_check is_live K_GATEWAY a (pf_checks s1)))"
      using env(2) identity_checks same [OF quiet] by (auto split: if_splits)
    ultimately show ?thesis by simp
  qed
qed

section \<open>What a run holds\<close>

definition start_checks :: "inputs \<Rightarrow> (mode \<times> (string \<times> bool) list) list" where
  "start_checks inp = map (\<lambda>m. (m, [])) (modes_of (in_mode inp))"

definition manifest_checks :: "bool \<Rightarrow> bool \<Rightarrow> bool \<Rightarrow> inputs \<Rightarrow> (mode \<times> (string \<times> bool) list) list" where
  "manifest_checks a b c inp = after_check (\<lambda>_. True) K_RRN c
     (after_check (\<lambda>_. True) K_VERIFIES b (after_check (\<lambda>_. True) K_PINNED a (start_checks inp)))"

lemma manifest_read:
  assumes "manifest_step W inp s = Inr (Some mf, t)"
  shows "pw_read W (in_manifest inp) = Inr (pm_raw mf)" "mf = parse_manifest (pm_raw mf)" "pm_footer mf" "pm_sig_ok mf"
    "pf_kids t = pf_kids s" "pf_log t = pf_log s"
  using assms
  by (auto simp: manifest_step_def bindP_Inr put_out_def log_findings_def add_finding_def Let_def parse_manifest_def
      split: sum.splits exc.splits if_splits prod.splits option.splits)

lemma check_all_outcome:
  assumes "check_all W inp (start inp) = Inr (u, s)"
  obtains (unread) "pf_checks s = start_checks inp"
  | (read) mf s0 e s1 s2 rec ok s3 a b where "manifest_step W inp (start inp) = Inr (Some mf, s0)"
      "check_kid W inp (pm_kid mf) ''manifest'' BOTH s0 = Inr (e, s1)"
      "own_record_step W inp mf s2 = Inr ((rec, ok), s3)" "asks W inp s1 s2" "asks W inp s3 s"
      "let c = manifest_checks (backed e) (registry_verdict (pw_keys W) mf e = ''verified'') ok inp in
       pf_checks s = c \<or>
       in_mode inp = Live \<and> pf_checks s = after_check is_live K_RAN b (after_check is_live K_GATEWAY a c)"
proof -
  from assms obtain m s0 v s' where st: "manifest_step W inp (start inp) = Inr (m, s0)"
      "(case m of None \<Rightarrow> returnP () | Some mf \<Rightarrow>
          bindP (manifest_keys_step W inp mf) (\<lambda>_. bindP (rrn_step W inp mf) (\<lambda>_.
          bindP (if in_mode inp = Live then gateway_step W inp mf else returnP ()) (\<lambda>_.
          other_pins_step W inp mf)))) s0 = Inr (v, s')" "name_ran_key s' = Inr (u, s)"
    by (auto simp: check_all_def bindP_Inr)
  have begin_checks: "pf_checks s0 = start_checks inp"
    using same [OF manifest_step_frames(3) st(1)] by (simp add: start_def start_checks_def)
  have end_checks: "pf_checks s = pf_checks s'" using same [OF name_ran_frames(3) st(3)] .
  show ?thesis
  proof (cases m)
    case None
    with st(2) begin_checks end_checks unread show ?thesis by simp
  next
    case (Some mf)
    with st(2) obtain s2 s4 s5 where kr: "manifest_keys_step W inp mf s0 = Inr ((), s2)"
        "rrn_step W inp mf s2 = Inr ((), s4)"
        "(if in_mode inp = Live then gateway_step W inp mf else returnP ()) s4 = Inr ((), s5)"
        "other_pins_step W inp mf s5 = Inr (v, s')"
      by (auto simp: bindP_Inr)
    obtain e s1 where k: "check_kid W inp (pm_kid mf) ''manifest'' BOTH s0 = Inr (e, s1)"
        "pf_checks s2 = after_check (\<lambda>_. True) K_VERIFIES (registry_verdict (pw_keys W) mf e = ''verified'')
           (after_check (\<lambda>_. True) K_PINNED (backed e) (pf_checks s0))" "asks W inp s1 s2"
      using manifest_keys_checks [OF kr(1)] by blast
    obtain rec ok s3 where r: "own_record_step W inp mf s2 = Inr ((rec, ok), s3)"
        "pf_checks s4 = after_check (\<lambda>_. True) K_RRN ok (pf_checks s2)" "asks W inp s3 s4"
      using rrn_checks [OF kr(2)] by blast
    let ?c = "manifest_checks (backed e) (registry_verdict (pw_keys W) mf e = ''verified'') ok inp"
    have four: "pf_checks s4 = ?c" by (simp add: manifest_checks_def r(2) k(2) begin_checks)
    have last: "pf_checks s' = pf_checks s5" using same [OF other_pins_frames(3) kr(4)] .
    have "asks W inp s4 s5"
      using kr(3) keepsD [OF gateway_step_frames(1)] by (auto split: if_splits intro: asking.R_refl)
    with r(3) keepsD [OF other_pins_frames(1) kr(4)] keepsD [OF name_ran_frames(1) st(3)]
    have rest: "asks W inp s3 s" by (meson asking.R_trans)
    have "pf_checks s5 = ?c \<or> in_mode inp = Live \<and>
        (\<exists>a b. pf_checks s5 = after_check is_live K_RAN b (after_check is_live K_GATEWAY a ?c))"
      using kr(3) four gateway_checks [of W inp mf s4 "()" s5] by (cases "in_mode inp = Live") simp_all
    then show ?thesis
      using read [OF st(1) [unfolded Some] k(1) r(1) k(3) rest] unfolding last [symmetric] end_checks [symmetric] Let_def
      by blast
  qed
qed

lemma after_check_mode: "map_of (after_check sel k b cs) m =
    map_option (\<lambda>d. if sel m then AList.update k b d else d) (map_of cs m)"
  by (induction cs) (auto simp: after_check_def)

lemma verdict_registry: "fst (verdict_for m fs cs) = VERDICT_REGISTRY \<longleftrightarrow>
    (\<forall>f \<in> set fs. m \<notin> set (fd_stop_in f)) \<and> cs \<noteq> [] \<and> (\<forall>kb \<in> set cs. snd kb)"
  by (auto simp: verdict_for_def Let_def VERDICT_REGISTRY_def VERDICT_LOCAL_def filter_empty_conv)

lemma verdict_stops: "set (snd (verdict_for m fs cs)) = fd_id ` {f \<in> set fs. m \<in> set (fd_stop_in f)}"
  by (auto simp: verdict_for_def Let_def filter_empty_conv)

lemma mode_checks:
  assumes "m \<in> {Bench, in_mode inp}"
  shows "map_of (start_checks inp) m = Some []"
    "map_of (manifest_checks a b c inp) m = Some [(K_PINNED, a), (K_VERIFIES, b), (K_RRN, c)]"
  using assms by (cases "in_mode inp"; auto simp: manifest_checks_def after_check_mode start_checks_def modes_of_def)+

lemma live_checks:
  assumes "m \<in> {Bench, in_mode inp}"
    and "pf_checks s = after_check is_live K_RAN y (after_check is_live K_GATEWAY x (manifest_checks a b c inp))"
  shows "map_of (pf_checks s) m = Some ([(K_PINNED, a), (K_VERIFIES, b), (K_RRN, c)]
     @ (if m = Live then [(K_GATEWAY, x), (K_RAN, y)] else []))"
  using assms mode_checks(2) [OF assms(1), of a b c] by (simp add: after_check_mode is_live_def)

lemma run_checks: "run_preflight W inp = Inr (d, s) \<Longrightarrow> check_all W inp (start inp) = Inr ((), s)"
  by (auto simp: run_preflight_def bindE_Inr_iff Let_def split: if_splits)

text \<open>A run whose verdict is \<open>registry-resolves\<close> in some mode went through the manifest's key and its RRN.\<close>

lemma registry_run:
  assumes "check_all W inp (start inp) = Inr (u, s)" "m \<in> {Bench, in_mode inp}"
    "fst (mode_verdict s m) = VERDICT_REGISTRY"
  obtains mf s0 e s1 s2 rec s3 where "manifest_step W inp (start inp) = Inr (Some mf, s0)"
    "check_kid W inp (pm_kid mf) ''manifest'' BOTH s0 = Inr (e, s1)" "own_record_step W inp mf s2 = Inr ((rec, True), s3)"
    "asks W inp s1 s2" "asks W inp s3 s" "backed e" "registry_verdict (pw_keys W) mf e = ''verified''"
    "map_of (pf_checks s) Bench = Some [(K_PINNED, True), (K_VERIFIES, True), (K_RRN, True)]"
  using assms(1)
proof (cases rule: check_all_outcome)
  case unread
  with mode_checks(1) [OF assms(2)] assms(3) show ?thesis by (simp add: mode_verdict_def verdict_registry)
next
  case (read mf s0 e s1 s2 rec ok s3 a b)
  let ?three = "[(K_PINNED, backed e), (K_VERIFIES, registry_verdict (pw_keys W) mf e = ''verified''), (K_RRN, ok)]"
  have all: "\<exists>more. map_of (pf_checks s) m' = Some (?three @ more) \<and> (m' = Bench \<longrightarrow> more = [])"
    if "m' \<in> {Bench, in_mode inp}" for m'
    using read(6) mode_checks(2) [OF that] live_checks [OF that, of s b a] unfolding Let_def by (elim disjE) auto
  obtain more where "map_of (pf_checks s) m = Some (?three @ more)" using all [OF assms(2)] by blast
  then have yes: "backed e" "registry_verdict (pw_keys W) mf e = ''verified''" "ok"
    using assms(3) by (auto simp: mode_verdict_def verdict_registry)
  from all [of Bench] yes have "map_of (pf_checks s) Bench = Some [(K_PINNED, True), (K_VERIFIES, True), (K_RRN, True)]"
    by auto
  with read(1-5) yes show ?thesis using that by simp
qed

lemma final_upward:
  assumes "check_all W inp (start inp) = Inr (u, s)"
  shows "\<forall>f \<in> set (pf_findings s). upward (fd_stop_in f)"
proof -
  from keepsD [OF check_all_frames(2) assms] have "\<forall>im \<in> set (stops_of s). upward (snd im)"
    by (auto simp: finds_def start_def stops_of_def)
  then show ?thesis by (auto simp: stops_of_def)
qed

section \<open>A concrete run\<close>

text \<open>A signed manifest whose key the registry, the resolver and the pin agree on.\<close>

lemma sha256_lower [simp]: "lower (sha256 s) = sha256 s"
proof -
  have h: "lower [hex_digit n] = [hex_digit n]" if "n < 16" for n
    using that by (auto simp: hex_digit_def lower_def lower_char_def Let_def of_char_of)
  show ?thesis using h by (simp add: sha256_def hex8_def Let_def lower_def)
qed

definition demo_raw :: string where
  "demo_raw = ''---'' @ [CHR 0x0A] @ ''metadata:'' @ [CHR 0x0A] @ ''  rrn: N'' @ [CHR 0x0A] @ ''---'' @ [CHR 0x0A]
     @ ''<!-- ROBOT-MD-SIG kid=K sig=AAAA -->''"

definition demo_keys :: key_lib where
  "demo_keys = \<lparr>kl_crypto = demo_crypto\<lparr>ed_verify := \<lambda>pub s m. pub = ''P'' \<and> s = [CHR 0x00, CHR 0x00, CHR 0x00]\<rparr>,
     kl_load_der = (\<lambda>d. PemKey OtherKey), kl_from_raw = Inr, kl_spki = id\<rparr>"

definition demo_registry :: preflight_world where
  "demo_registry = \<lparr>pw_keys = demo_keys,
     pw_open = (\<lambda>n url. if url \<in> {''R/v2/keys/K'', ''L/v2/keys/K''} then Opened 200 ''{\"public_key_pem\":\"P\"}''
       else if url = ''R/v2/robots/N'' then Opened 200 ''{\"name\":\"n\"}'' else Rejected 404 None),
     pw_read = (\<lambda>p. Inr demo_raw), pw_realpath = Inr, pw_fromiso = (\<lambda>s. Inr 0)\<rparr>"

definition demo_inputs :: "mode \<Rightarrow> inputs" where
  "demo_inputs m = \<lparr>in_robot = ''r'', in_manifest = ''m'', in_fixture = [], in_pins = [(''K'', [(''spki_sha256'', JStr (sha256 ''P''))])],
     in_pins_path = [], in_pins_sha256 = [], in_registry = ''R'', in_resolver = ''L'', in_resolver_source = ''flag'',
     in_mode = m, in_gateway = None, in_pairing = [], in_export = [], in_host_addrs = [], in_now = 0, in_tool = [], in_host = ''h''\<rparr>"

lemma demo_mf: "parse_manifest demo_raw = \<lparr>pm_raw = demo_raw, pm_kid = ''K'', pm_sig = [CHR 0x00, CHR 0x00, CHR 0x00], pm_sig_ok = True,
   pm_body = take 26 demo_raw, pm_footer = True, pm_rrn = ''N'', pm_robot_name = [], pm_signing_alg = [], pm_capabilities = [], pm_drive = []\<rparr>"
  by code_simp

lemma demo_json: "json_body ''{\"public_key_pem\":\"P\"}'' = Some (JObj [(''public_key_pem'', JStr ''P'')])"
  "json_body ''{\"name\":\"n\"}'' = Some (JObj [(''name'', JStr ''n'')])" by code_simp+
lemma demo_urls: "url_of ''R'' [''v2'', ''keys'', ''K''] = ''R/v2/keys/K''" "url_of ''L'' [''v2'', ''keys'', ''K''] = ''L/v2/keys/K''"
  "url_of ''R'' [''v2'', ''robots'', ''N''] = ''R/v2/robots/N''" "url_of ''R'' [''v2'', ''robots'', ''_next''] = ''R/v2/robots/_next''"
  by code_simp+
lemmas pre_simps = bindP_def returnP_def liftP_def updateP_def readP_def bindE_def put_out_def add_finding_def log_findings_def
  finding_if_def Let_def set_check_def get_url_def

lemmas step_simps = check_all_def manifest_step_def start_def demo_inputs_def demo_registry_def pre_simps fixture_step_def demo_mf
  manifest_findings_def manifest_keys_step_def check_kid_def lookup_local_def lookup_registry_def demo_urls local_of_def
  registry_of_def served_key_def http_json_def demo_json pub_from_pem_def demo_keys_def demo_crypto_def http_dict_def
  found_or_bad_def spki_sha256_def new_entry_def pin_of_def str_field_def kid_findings_def pin_findings_def
  registry_findings_def pin_use_findings_def rrn_step_def own_record_step_def rrn_answer_def rrn_findings_def
  manifest_key_findings_def next_rrn_def other_pins_step_def other_pin_step_def name_ran_key_def ran_key_def modes_of_def
  field_text_def local_verdict_def registry_verdict_def pin_verdict_def ed25519_verifies_def backed_def

lemma demo_len: "length demo_raw = 63" by code_simp

lemma texts_ok: "output_types_ok (texts xs)" by (simp add: texts_def list_all_iff)

lemmas demo_out = final_out_def manifest_fields_def text_dict_def num_def url_record_def rrn_record_def entry_json_def
  lookup_json_def key_lookup.defs http_record_def finding_json_def ascii_def MAX_SAFE_INT_def demo_len texts_ok

lemma demo_bench_checks: "\<exists>s. check_all demo_registry (demo_inputs Bench) (start (demo_inputs Bench)) = Inr ((), s) \<and>
    fst (mode_verdict s Bench) = VERDICT_REGISTRY \<and> output_types_ok (JObj (final_out (demo_inputs Bench) s))"
  by (simp add: step_simps demo_out mode_verdict_def verdict_registry BOTH_def)

lemma demo_live_checks: "\<exists>s. check_all demo_registry (demo_inputs Live) (start (demo_inputs Live)) = Inr ((), s) \<and>
    fst (mode_verdict s Bench) = VERDICT_REGISTRY \<and> output_types_ok (JObj (final_out (demo_inputs Live) s))"
  by (simp add: step_simps demo_out mode_verdict_def verdict_registry BOTH_def gateway_step_def gateway_error_def)

lemma demo_run: "\<exists>d s. run_preflight demo_registry (demo_inputs m) = Inr (d, s) \<and> fst (mode_verdict s Bench) = VERDICT_REGISTRY"
  using demo_bench_checks demo_live_checks by (cases m) (auto simp: run_preflight_def bindE_def Let_def)

section \<open>Properties\<close>

text \<open>C37. A run asks only the registry and the resolver, each URL at most once, and the log it publishes
  holds every answer in the order they came: two checks of one run never see different answers.\<close>

theorem fetches_once:
  assumes "run_preflight W inp = Inr (d, s)"
  shows "asked_ok W inp (pf_log s) \<and> (''http'', JArr (map (http_record \<circ> snd) (pf_log s))) \<in> set d"
proof -
  have "asked_ok W inp (pf_log (start inp))" by (simp add: start_def asked_ok_def)
  with keepsD [OF check_all_frames(1) run_checks [OF assms]] have "asked_ok W inp (pf_log s)" by (simp add: asks_def)
  moreover have "(''http'', JArr (map (http_record \<circ> snd) (pf_log s))) \<in> set d"
    using assms by (auto simp: run_preflight_def bindE_Inr_iff Let_def final_out_def split: if_splits)
  ultimately show ?thesis by blast
qed

theorem fetches_once_witness:
  "\<exists>d s. run_preflight demo_registry (demo_inputs Bench) = Inr (d, s) \<and> asked_ok demo_registry (demo_inputs Bench) (pf_log s) \<and>
     (''http'', JArr (map (http_record \<circ> snd) (pf_log s))) \<in> set d"
proof -
  from demo_run obtain d s where r: "run_preflight demo_registry (demo_inputs Bench) = Inr (d, s)" by blast
  with fetches_once [OF r] show ?thesis by blast
qed

text \<open>C38. What stops the bench stops a live test too, and a live run never calls the keys resolvable
  when its own bench verdict does not.\<close>

theorem live_implies_bench:
  assumes "run_preflight W inp = Inr (d, s)" "in_mode inp = Live"
  shows "set (snd (mode_verdict s Bench)) \<subseteq> set (snd (mode_verdict s Live)) \<and>
    (fst (mode_verdict s Live) = VERDICT_REGISTRY \<longrightarrow> fst (mode_verdict s Bench) = VERDICT_REGISTRY)"
proof -
  note up = final_upward [OF run_checks [OF assms(1)]]
  have "set (snd (mode_verdict s Bench)) \<subseteq> set (snd (mode_verdict s Live))"
    using up by (auto simp: mode_verdict_def verdict_stops upward_def)
  moreover have "fst (mode_verdict s Bench) = VERDICT_REGISTRY" if live: "fst (mode_verdict s Live) = VERDICT_REGISTRY"
  proof -
    have stops: "\<forall>f \<in> set (pf_findings s). Bench \<notin> set (fd_stop_in f)"
      using live up by (auto simp: mode_verdict_def verdict_registry upward_def)
    have "map_of (pf_checks s) Bench = Some [(K_PINNED, True), (K_VERIFIES, True), (K_RRN, True)]"
      by (rule registry_run [OF run_checks [OF assms(1)] _ live]) (simp_all add: assms(2))
    with stops show ?thesis by (simp add: mode_verdict_def verdict_registry)
  qed
  ultimately show ?thesis by blast
qed

theorem live_implies_bench_witness:
  "\<exists>d s. run_preflight demo_registry (demo_inputs Live) = Inr (d, s) \<and> in_mode (demo_inputs Live) = Live \<and>
     fst (mode_verdict s Bench) = VERDICT_REGISTRY \<and> set (snd (mode_verdict s Bench)) \<subseteq> set (snd (mode_verdict s Live))"
proof -
  from demo_run [of Live] obtain d s where r: "run_preflight demo_registry (demo_inputs Live) = Inr (d, s)"
      "fst (mode_verdict s Bench) = VERDICT_REGISTRY" by blast
  have "in_mode (demo_inputs Live) = Live" by (simp add: demo_inputs_def)
  with live_implies_bench [OF r(1) this] r show ?thesis by blast
qed

lemma get_url_answer: "get_url W url s = Inr (r, t) \<Longrightarrow> map_of (pf_log t) url = Some r"
  by (auto simp: get_url_def bindE_Inr_iff map_add_def split: option.splits)

lemma answer_stays: "asks W inp s t \<Longrightarrow> map_of (pf_log s) url = Some r \<Longrightarrow> map_of (pf_log t) url = Some r"
  by (auto simp: asks_def map_add_def split: option.splits)

abbreviation key_url :: "string \<Rightarrow> string \<Rightarrow> string" where
  "key_url base kid \<equiv> url_of base [''v2'', ''keys'', kid]"

lemma check_kid_new:
  assumes "check_kid W inp kid role in_use s = Inr (e, t)" "map_of (pf_kids s) kid = None"
  shows "\<exists>la ka lc rg. map_of (pf_log t) (key_url (in_resolver inp) kid) = Some la \<and> local_of (pw_keys W) la = Inr lc \<and>
    map_of (pf_log t) (key_url (in_registry inp) kid) = Some ka \<and> registry_of (pw_keys W) ka = Inr rg \<and>
    e = new_entry kid role in_use lc rg (pin_of (map_of (in_pins inp) kid))"
proof -
  from assms obtain lc s1 rg s2 where l: "lookup_local W inp kid s = Inr (lc, s1)"
      and r: "lookup_registry W inp kid s1 = Inr (rg, s2)"
      and e: "e = new_entry kid role in_use lc rg (pin_of (map_of (in_pins inp) kid))" "pf_log t = pf_log s2"
    by (auto simp: check_kid_def bindP_Inr Let_def log_findings_def)
  from l obtain la where la: "get_url W (key_url (in_resolver inp) kid) s = Inr (la, s1)" "local_of (pw_keys W) la = Inr lc"
    by (auto simp: lookup_local_def bindP_Inr)
  from r obtain ka where ka: "get_url W (key_url (in_registry inp) kid) s1 = Inr (ka, s2)" "registry_of (pw_keys W) ka = Inr rg"
    by (auto simp: lookup_registry_def bindP_Inr)
  have "asks W inp s1 s2" using keepsD [OF lookup_frames(2) r] .
  then have "map_of (pf_log s2) (key_url (in_resolver inp) kid) = Some la"
    using answer_stays get_url_answer [OF la(1)] by blast
  with get_url_answer [OF ka(1)] la(2) ka(2) e show ?thesis by auto
qed

lemma own_record_yes:
  assumes "own_record_step W inp mf s = Inr ((rec, True), t)"
  shows "\<exists>r d. map_of (pf_log t) (url_of (in_registry inp) [''v2'', ''robots'', pm_rrn mf]) = Some r \<and> ht_status r = 200 \<and>
    http_dict r = Some d \<and> get d ''revoked'' \<noteq> JBool True"
proof -
  from assms obtain r s1 where g: "get_url W (url_of (in_registry inp) [''v2'', ''robots'', pm_rrn mf]) s = Inr (r, s1)"
      and s1: "(let (rec, found, ok) = rrn_answer mf r in bindP (log_findings found) (\<lambda>_. returnP (rec, ok))) s1 = Inr ((rec, True), t)"
    by (auto simp: own_record_step_def bindP_Inr split: if_splits)
  obtain rec' fs ok where "rrn_answer mf r = (rec', fs, ok)" by (cases "rrn_answer mf r")
  with s1 have a: "rrn_answer mf r = (rec, fs, True)" and t: "pf_log t = pf_log s1"
    by (auto simp: bindP_Inr log_findings_def)
  from a have "ht_status r = 200" "\<exists>d. http_dict r = Some d \<and> get d ''revoked'' \<noteq> JBool True"
    by (auto simp: rrn_answer_def Let_def split: if_splits)
  with get_url_answer [OF g] t show ?thesis by auto
qed

text \<open>C33. \<open>registry-resolves\<close> vouches for the robot: the manifest read carries a footer whose signature
  verifies over its body under a key that the registry answered for its kid in this very run, and that
  key is the local resolver's and the pinned one; the registry holds a record of the RRN that is not
  revoked, and nothing found stops the mode.\<close>

theorem registry_verdict_vouches:
  assumes "run_preflight W inp = Inr (d, s)" "m \<in> {Bench, in_mode inp}" "fst (mode_verdict s m) = VERDICT_REGISTRY"
  shows "\<exists>mf la lc ka rg p ra rec. pw_read W (in_manifest inp) = Inr (pm_raw mf) \<and> mf = parse_manifest (pm_raw mf) \<and>
    pm_footer mf \<and> ed_verify (kl_crypto (pw_keys W)) p (pm_sig mf) (pm_body mf) \<and>
    map_of (pf_log s) (key_url (in_registry inp) (pm_kid mf)) = Some ka \<and> registry_of (pw_keys W) ka = Inr rg \<and>
    lk_result rg = ''found'' \<and> lk_pub rg = Some p \<and> lk_spki rg = sha256 (kl_spki (pw_keys W) p) \<and>
    map_of (pf_log s) (key_url (in_resolver inp) (pm_kid mf)) = Some la \<and> local_of (pw_keys W) la = Inr lc \<and>
    lk_spki lc = lk_spki rg \<and> pn_spki (pin_of (map_of (in_pins inp) (pm_kid mf))) = lk_spki rg \<and>
    map_of (pf_log s) (url_of (in_registry inp) [''v2'', ''robots'', pm_rrn mf]) = Some ra \<and> ht_status ra = 200 \<and>
    http_dict ra = Some rec \<and> get rec ''revoked'' \<noteq> JBool True \<and> (\<forall>f \<in> set (pf_findings s). m \<notin> set (fd_stop_in f))"
proof (rule registry_run [OF run_checks [OF assms(1)] assms(2,3)])
  fix mf s0 e s1 s2 rec s3
  assume st: "manifest_step W inp (start inp) = Inr (Some mf, s0)"
      "check_kid W inp (pm_kid mf) ''manifest'' BOTH s0 = Inr (e, s1)" "own_record_step W inp mf s2 = Inr ((rec, True), s3)"
      "asks W inp s1 s2" "asks W inp s3 s" "backed e" and rg: "registry_verdict (pw_keys W) mf e = ''verified''"
  note mf = manifest_read [OF st(1)]
  have "map_of (pf_kids s0) (pm_kid mf) = None" using mf(5) by (simp add: start_def)
  from check_kid_new [OF st(2) this] obtain la ka lc r where k: "map_of (pf_log s1) (key_url (in_resolver inp) (pm_kid mf)) = Some la"
      "local_of (pw_keys W) la = Inr lc" "map_of (pf_log s1) (key_url (in_registry inp) (pm_kid mf)) = Some ka"
      "registry_of (pw_keys W) ka = Inr r" and e: "e = new_entry (pm_kid mf) ''manifest'' BOTH lc r (pin_of (map_of (in_pins inp) (pm_kid mf)))"
    by blast
  obtain ra d where ra: "map_of (pf_log s3) (url_of (in_registry inp) [''v2'', ''robots'', pm_rrn mf]) = Some ra"
      "ht_status ra = 200" "http_dict ra = Some d" "get d ''revoked'' \<noteq> JBool True" using own_record_yes [OF st(3)] by blast
  have "asks W inp s1 s"
    using st(4,5) keepsD [OF own_record_frames(1) st(3)] by (meson asking.R_trans)
  note logged = answer_stays [OF this k(1)] answer_stays [OF this k(3)] answer_stays [OF st(5) ra(1)]
  have found: "lk_result r = ''found''" "lk_spki r = lk_spki lc" "pn_spki (pin_of (map_of (in_pins inp) (pm_kid mf))) = lk_spki r"
    using st(6) by (auto simp: backed_def e new_entry_def Let_def)
  have key: "lk_spki r = sha256 (kl_spki (pw_keys W) q)" if "lk_pub r = Some q" for q
    using k(4) that by (auto simp: registry_of_def Let_def bindE_Inr_iff spki_sha256_def)
  obtain p where p: "lk_pub r = Some p" "ed_verify (kl_crypto (pw_keys W)) p (pm_sig mf) (pm_body mf)"
    using rg found(1) by (auto simp: registry_verdict_def e new_entry_def Let_def ed25519_verifies_def split: option.splits if_splits)
  have "\<forall>f \<in> set (pf_findings s). m \<notin> set (fd_stop_in f)" using assms(3) by (simp add: mode_verdict_def verdict_registry)
  note facts = this mf(1-3) k(2,4) logged found [symmetric] found p key [OF p(1)] ra(2-4)
  show ?thesis by (intro exI conjI) (rule facts)+
qed

theorem registry_verdict_vouches_witness:
  "\<exists>d s p. run_preflight demo_registry (demo_inputs Bench) = Inr (d, s) \<and> fst (mode_verdict s Bench) = VERDICT_REGISTRY \<and>
     ed_verify (kl_crypto demo_keys) p (pm_sig (parse_manifest demo_raw)) (pm_body (parse_manifest demo_raw))"
proof -
  from demo_run [of Bench] obtain d s where r: "run_preflight demo_registry (demo_inputs Bench) = Inr (d, s)"
      "fst (mode_verdict s Bench) = VERDICT_REGISTRY" by blast
  have w: "pw_keys demo_registry = demo_keys" "pw_read demo_registry x = Inr demo_raw" for x by (simp_all add: demo_registry_def)
  from registry_verdict_vouches [OF r(1) _ r(2)] obtain mf p where "pw_read demo_registry (in_manifest (demo_inputs Bench)) = Inr (pm_raw mf)"
      "mf = parse_manifest (pm_raw mf)" "ed_verify (kl_crypto (pw_keys demo_registry)) p (pm_sig mf) (pm_body mf)" by blast
  then have "ed_verify (kl_crypto demo_keys) p (pm_sig (parse_manifest demo_raw)) (pm_body (parse_manifest demo_raw))"
    unfolding w by simp
  with r show ?thesis by blast
qed

end
