(* ===== verification/Preflight_Gateway.thy ===== *)
theory Preflight_Gateway
  imports Preflight_Verdict
begin

text \<open>
  What \<open>scripts/rrf_preflight.py\<close> says against what the gateway does: which kids stop a run, that its
  judgement of the manifest signature is the gateway's own decision at \<open>manifest_provenance\<close>, that the recorder
  is a plain fetch under a registry that keeps its answers, and what is read of a unit's environment files.
\<close>

section \<open>Reading\<close>

text \<open>\<open>Path.read_text()\<close> of the gateway, which decodes strictly and turns every line end into LF.\<close>

fun newlines :: "string \<Rightarrow> string" where
  "newlines [] = []"
| "newlines (c # cs) =
     (if c = CHR 0x0D then CHR 0x0A # (case cs of d # ds \<Rightarrow> if d = CHR 0x0A then newlines ds else newlines cs | [] \<Rightarrow> [])
      else c # newlines cs)"

definition read_text :: "string \<Rightarrow> exc + string" where
  "read_text raw = (if utf8_ok raw then Inr (newlines raw) else Inl UnicodeDecodeError)"

lemma newlines_plain: "CHR 0x0D \<notin> set s \<Longrightarrow> newlines s = s"
  by (induction s) auto

declare decode_replace.simps [simp del]

lemma decode_cons:
  "conts (of_char c) = Some r \<Longrightarrow> take_conts r cs = (t, u, True) \<Longrightarrow> decode_replace (c # cs) = c # t @ decode_replace u"
  by (simp add: decode_replace.simps)

lemma decode_replace_utf8: "utf8_ok s \<Longrightarrow> decode_replace s = s"
proof (induction s rule: length_induct)
  case (1 s)
  show ?case
  proof (cases s)
    case (Cons a r)
    define n where "n = (of_char a :: nat)"
    note ok = "1.prems" [unfolded Cons utf8_ok.simps Let_def, folded n_def]
    have IH: "decode_replace u = u" if "utf8_ok u" "length u \<le> length r" for u
      using "1.IH" that by (simp add: Cons)
    consider "n < 128" | "194 \<le> n" "n \<le> 223" | "224 \<le> n" "n \<le> 239" | "240 \<le> n" "n \<le> 244"
      using ok by (auto split: list.splits if_splits)
    then show ?thesis
    proof cases
      assume "n < 128"
      then show ?thesis using ok IH decode_cons [of a "[]" r "[]" r] by (simp add: Cons conts_def n_def)
    next
      assume n: "194 \<le> n" "n \<le> 223"
      then obtain b u where r: "r = b # u" "cont b" "utf8_ok u" using ok by (auto split: list.splits)
      have "conts n = Some [(128, 191)]" using n by (simp add: conts_def)
      with r IH [of u] show ?thesis unfolding Cons by (simp add: decode_cons n_def cont_def Let_def)
    next
      assume n: "224 \<le> n" "n \<le> 239"
      then obtain b c u where r: "r = b # c # u" "cont b" "cont c" "n = 224 \<longrightarrow> 160 \<le> (of_char b :: nat)"
          "n = 237 \<longrightarrow> (of_char b :: nat) \<le> 159" "utf8_ok u" using ok by (auto split: list.splits)
      have "conts n = Some [(if n = 224 then 160 else 128, if n = 237 then 159 else 191), (128, 191)]"
        using n by (simp add: conts_def)
      with r IH [of u] show ?thesis unfolding Cons by (auto simp: decode_cons n_def cont_def Let_def)
    next
      assume n: "240 \<le> n" "n \<le> 244"
      then obtain b c d u where r: "r = b # c # d # u" "cont b" "cont c" "cont d" "n = 240 \<longrightarrow> 144 \<le> (of_char b :: nat)"
          "n = 244 \<longrightarrow> (of_char b :: nat) \<le> 143" "utf8_ok u" using ok by (auto split: list.splits)
      have "conts n = Some [(if n = 240 then 144 else 128, if n = 244 then 143 else 191), (128, 191), (128, 191)]"
        using n by (simp add: conts_def)
      with r IH [of u] show ?thesis unfolding Cons by (auto simp: decode_cons n_def cont_def Let_def)
    qed
  qed (simp add: decode_replace.simps)
qed

lemma only_branch: "(if P then y else if Q then Inl a else Inl b) = Inr x \<Longrightarrow> y = Inr x"
  by (cases P; cases Q) simp_all

lemma strict_decode: "b64decode_strict s = Inr x \<Longrightarrow> b64decode s = Inr x"
  unfolding b64decode_strict_def Let_def by (rule only_branch)

lemma local_of_served:
  "local_of K r = Inr lc \<Longrightarrow> ht_status r = 200 \<Longrightarrow> http_json r = Some (JObj d) \<Longrightarrow> get d ''public_key_pem'' = JStr pem \<Longrightarrow>
     \<exists>pub. pub_from_pem K pem = Inr pub \<and> lk_pub lc = pub \<and> lk_result lc = found_or_bad pub"
  by (auto simp: local_of_def served_key_def bindE_Inr_iff)

section \<open>Properties\<close>


definition demo_local :: key_lookup where
  "demo_local = \<lparr>lk_url = [], lk_status = 200, lk_body_sha256 = sha256 ''{\"public_key_pem\":\"P\"}'', lk_result = ''found'',
     lk_pub = Some ''P'', lk_spki = sha256 ''P''\<rparr>"

definition demo_kid_entry :: kid_entry where
  "demo_kid_entry = new_entry ''K'' ''manifest'' BOTH demo_local
     (key_lookup.extend demo_local \<lparr>rg_ran = [], rg_key_status = [], rg_pq_kid = [], rg_valid_from = [], rg_valid_until = []\<rparr>)
     (pin_of None)"


text \<open>What a unit's environment file sets is the last assignment of each wanted name, and no other name
  is ever taken from it.\<close>

theorem env_file_last_wins:
  "map_of (parse_env_file s) = map_of (rev (List.map_filter env_line (splitlines s))) \<and>
   fst ` set (parse_env_file s) \<subseteq> Collect wanted_env \<and> distinct (map fst (parse_env_file s))"
proof -
  let ?f = "\<lambda>l out. case env_line l of None \<Rightarrow> out | Some (k, v) \<Rightarrow> AList.update k v out"
  have last: "map_of (fold ?f ls out) = map_of (rev (List.map_filter env_line ls) @ out)" for ls out
  proof (induction ls arbitrary: out)
    case (Cons l ls)
    then show ?case
      by (cases "env_line l") (auto simp: List.map_filter_simps update_conv' split: prod.split)
  qed (simp add: List.map_filter_simps)
  have wanted: "env_line l = Some (k, v) \<Longrightarrow> wanted_env k" for l k v
    by (auto simp: env_line_def Let_def split: if_splits prod.splits)
  have names: "fst ` set (fold ?f ls out) \<subseteq> Collect wanted_env" if "fst ` set out \<subseteq> Collect wanted_env" for ls out
    using that
  proof (induction ls arbitrary: out)
    case (Cons l ls)
    have "fst ` set (?f l out) \<subseteq> Collect wanted_env"
      using Cons.prems wanted [of l] by (simp add: dom_update split: option.split prod.split)
    then show ?case using Cons.IH by simp
  qed simp
  have "distinct (map fst (fold ?f ls out))" if "distinct (map fst out)" for ls out
    using that by (induction ls arbitrary: out) (auto simp: distinct_update split: option.split)
  then show ?thesis using last [of "splitlines s" "[]"] names [of "[]" "splitlines s"] by (simp add: parse_env_file_def)
qed

text \<open>The recorder keeps answers for the length of a run. Under a registry whose answers do not change that
  is invisible: \<open>kid_spec\<close> fetches both bases anew for every kid and reads no state.\<close>

definition kid_spec :: "key_lib \<Rightarrow> (string \<Rightarrow> opened) \<Rightarrow> inputs \<Rightarrow> string \<Rightarrow> exc + key_lookup \<times> registry_lookup \<times> pin_record" where
  "kid_spec K g inp kid =
     (let lu = key_url (in_resolver inp) kid; ru = key_url (in_registry inp) kid in
      bindE (http_get (g lu) lu) (\<lambda>la. bindE (local_of K la) (\<lambda>lc.
      bindE (http_get (g ru) ru) (\<lambda>ka. bindE (registry_of K ka) (\<lambda>rg.
      Inr (lc, rg, pin_of (map_of (in_pins inp) kid)))))))"

definition seen_of :: "kid_entry \<Rightarrow> key_lookup \<times> registry_lookup \<times> pin_record" where
  "seen_of e = (ke_local e, ke_registry e, ke_pin e)"

definition recorded :: "key_lib \<Rightarrow> (string \<Rightarrow> opened) \<Rightarrow> inputs \<Rightarrow> preflight \<Rightarrow> bool" where
  "recorded K g inp s \<longleftrightarrow> (\<forall>u r. map_of (pf_log s) u = Some r \<longrightarrow> http_get (g u) u = Inr r) \<and>
     (\<forall>k e. map_of (pf_kids s) k = Some e \<longrightarrow> kid_spec K g inp k = Inr (seen_of e))"

lemma get_url_recorded:
  assumes "\<And>n u. pw_open W n u = g u" "recorded K g inp s"
  shows "(\<exists>x. http_get (g u) u = Inl x \<and> get_url W u s = Inl x) \<or>
     (\<exists>r lg. http_get (g u) u = Inr r \<and> get_url W u s = Inr (r, s\<lparr>pf_log := lg\<rparr>) \<and> recorded K g inp (s\<lparr>pf_log := lg\<rparr>))"
proof (cases "map_of (pf_log s) u")
  case None
  show ?thesis
  proof (cases "http_get (g u) u")
    case (Inr r)
    with None assms have "recorded K g inp (s\<lparr>pf_log := pf_log s @ [(u, r)]\<rparr>)"
      by (auto simp: recorded_def map_add_def split: option.splits if_splits)
    with None Inr assms(1) show ?thesis by (auto simp: get_url_def bindE_def)
  qed (use None assms(1) in \<open>simp add: get_url_def bindE_def\<close>)
next
  case (Some r)
  moreover have "s\<lparr>pf_log := pf_log s\<rparr> = s" by simp
  ultimately show ?thesis using assms(2) by (intro disjI2 exI [of _ r] exI [of _ "pf_log s"]) (auto simp: get_url_def recorded_def)
qed

text \<open>C36. Whatever a run has asked before, checking a kid against an unchanging registry gives what the
  stateless specification gives, exceptions included, and keeps the recorded answers true.\<close>

theorem check_kid_refines:
  assumes "\<And>n u. pw_open W n u = g u" "recorded (pw_keys W) g inp s"
  shows "map_sum id (seen_of \<circ> fst) (check_kid W inp kid role in_use s) = kid_spec (pw_keys W) g inp kid \<and>
    (\<forall>e t. check_kid W inp kid role in_use s = Inr (e, t) \<longrightarrow> recorded (pw_keys W) g inp t)"
proof (cases "map_of (pf_kids s) kid")
  case (Some e)
  with assms(2) have "kid_spec (pw_keys W) g inp kid = Inr (seen_of e)" by (simp add: recorded_def)
  then show ?thesis
    using Some assms(2)
    by (auto simp: check_kid_def bindP_def readP_def updateP_def returnP_def recorded_def seen_of_def update_conv' Let_def)
next
  case None
  let ?K = "pw_keys W" and ?lu = "key_url (in_resolver inp) kid" and ?ru = "key_url (in_registry inp) kid"
  let ?pin = "pin_of (map_of (in_pins inp) kid)"
  note run = check_kid_def lookup_local_def lookup_registry_def bindP_def readP_def updateP_def returnP_def liftP_def kid_spec_def Let_def bindE_def None
  from get_url_recorded [OF assms, of ?lu] show ?thesis
  proof (elim disjE exE conjE)
    fix x assume "http_get (g ?lu) ?lu = Inl x" "get_url W ?lu s = Inl x"
    then show ?thesis by (simp add: run)
  next
    fix la lg assume l: "http_get (g ?lu) ?lu = Inr la" "get_url W ?lu s = Inr (la, s\<lparr>pf_log := lg\<rparr>)" "recorded ?K g inp (s\<lparr>pf_log := lg\<rparr>)"
    show ?thesis
    proof (cases "local_of ?K la")
      case (Inl x)
      with l show ?thesis by (simp add: run)
    next
      case lc: (Inr lc)
      from get_url_recorded [OF assms(1) l(3), of ?ru] show ?thesis
      proof (elim disjE exE conjE)
        fix x assume "http_get (g ?ru) ?ru = Inl x" "get_url W ?ru (s\<lparr>pf_log := lg\<rparr>) = Inl x"
        with l lc show ?thesis by (simp add: run)
      next
        fix ka lg' assume r: "http_get (g ?ru) ?ru = Inr ka" "get_url W ?ru (s\<lparr>pf_log := lg\<rparr>) = Inr (ka, s\<lparr>pf_log := lg, pf_log := lg'\<rparr>)"
          "recorded ?K g inp (s\<lparr>pf_log := lg, pf_log := lg'\<rparr>)"
        show ?thesis
        proof (cases "registry_of ?K ka")
          case (Inl x)
          with l lc r show ?thesis by (simp add: run)
        next
          case (Inr rg)
          then have spec: "kid_spec ?K g inp kid = Inr (lc, rg, ?pin)" using l lc r by (simp add: kid_spec_def bindE_def)
          define e where "e = new_entry kid role in_use lc rg ?pin"
          have e: "seen_of e = (lc, rg, ?pin)" by (simp add: e_def seen_of_def new_entry_def Let_def)
          have "check_kid W inp kid role in_use s = Inr (e, s\<lparr>pf_log := lg', pf_kids := AList.update kid e (pf_kids s),
              pf_findings := pf_findings s @ kid_findings (pf_rrn s) role in_use e\<rparr>)"
            using l lc r Inr by (simp add: check_kid_def lookup_local_def lookup_registry_def bindP_def readP_def updateP_def
                returnP_def liftP_def log_findings_def None Let_def flip: e_def)
          with r(3) spec e show ?thesis by (auto simp: recorded_def update_conv')
        qed
      qed
    qed
  qed
qed

theorem check_kid_refines_witness:
  "map_sum id (seen_of \<circ> fst) (check_kid demo_registry (demo_inputs Bench) ''K'' ''manifest'' BOTH (start (demo_inputs Bench))) =
     kid_spec demo_keys (pw_open demo_registry 0) (demo_inputs Bench) ''K'' \<and>
   recorded demo_keys (pw_open demo_registry 0) (demo_inputs Bench) (start (demo_inputs Bench))"
proof -
  have w: "pw_keys demo_registry = demo_keys" "pw_open demo_registry n u = pw_open demo_registry 0 u" for n u
    by (simp_all add: demo_registry_def)
  have s: "recorded demo_keys (pw_open demo_registry 0) (demo_inputs Bench) (start (demo_inputs Bench))"
    by (simp add: recorded_def start_def)
  with check_kid_refines [where W = demo_registry and s = "start (demo_inputs Bench)", OF w(2)] show ?thesis
    unfolding w(1) by blast
qed

lemma get_url_log: "get_url W u s = Inr (r, t) \<Longrightarrow> \<exists>lg. t = s\<lparr>pf_log := lg\<rparr>"
  by (cases "map_of (pf_log s) u") (auto simp: get_url_def bindE_Inr_iff intro: exI [of _ "pf_log s"])

lemma found_has_key:
  "local_of K r = Inr lc \<Longrightarrow> lk_result lc = ''found'' \<Longrightarrow> lk_spki lc \<noteq> []"
  "registry_of K r = Inr rg \<Longrightarrow> lk_result rg = ''found'' \<Longrightarrow> lk_spki rg \<noteq> []"
  by (auto simp: local_of_def registry_of_def bindE_Inr_iff found_or_bad_def spki_sha256_def Let_def split: if_splits)

lemma check_kid_adds:
  assumes "check_kid W inp kid role in_use s = Inr (e, t)" "map_of (pf_kids s) kid = None"
  shows "pf_findings t = pf_findings s @ kid_findings (pf_rrn s) role in_use e"
proof -
  from assms obtain lc s1 rg s2 where l: "lookup_local W inp kid s = Inr (lc, s1)" "lookup_registry W inp kid s1 = Inr (rg, s2)"
      "pf_findings t = pf_findings s2 @ kid_findings (pf_rrn s2) role in_use e"
    by (auto simp: check_kid_def bindP_Inr Let_def log_findings_def)
  then have "pf_findings s2 = pf_findings s" "pf_rrn s2 = pf_rrn s"
    by (auto simp: lookup_local_def lookup_registry_def bindP_Inr dest!: get_url_log)
  with l(3) show ?thesis by simp
qed

text \<open>C35. The findings of a kid seen for the first time stop a mode exactly when it is in use there and the
  key served locally or by the registry is another than the pinned one, the two are different keys, or
  the registry answers that it is revoked. A kid the registry does not know, or a registry that does
  not answer, never stops a run by itself.\<close>

theorem kid_stops_exact:
  assumes "check_kid W inp kid role in_use s = Inr (e, t)" "map_of (pf_kids s) kid = None"
  shows "\<exists>new. pf_findings t = pf_findings s @ new \<and>
    ((\<exists>f \<in> set new. m \<in> set (fd_stop_in f)) \<longleftrightarrow> m \<in> set in_use \<and>
       (lk_result (ke_registry e) = ''revoked'' \<or>
        lk_result (ke_local e) = ''found'' \<and> pn_present (ke_pin e) \<and> lk_spki (ke_local e) \<noteq> pn_spki (ke_pin e) \<or>
        lk_result (ke_registry e) = ''found'' \<and>
          (lk_result (ke_local e) = ''found'' \<and> lk_spki (ke_registry e) \<noteq> lk_spki (ke_local e) \<or>
           pn_present (ke_pin e) \<and> lk_spki (ke_registry e) \<noteq> pn_spki (ke_pin e))))"
proof (intro exI conjI)
  show "pf_findings t = pf_findings s @ kid_findings (pf_rrn s) role in_use e" using check_kid_adds [OF assms] .
  from check_kid_new [OF assms] obtain la ka lc rg where k: "local_of (pw_keys W) la = Inr lc" "registry_of (pw_keys W) ka = Inr rg"
      and e: "e = new_entry kid role in_use lc rg (pin_of (map_of (in_pins inp) kid))" by blast
  define pin where "pin = pin_of (map_of (in_pins inp) kid)"
  have entry: "ke_local e = lc" "ke_registry e = rg" "ke_pin e = pin"
    "ke_local_matches_pin e \<longleftrightarrow> pn_present pin \<and> lk_spki lc \<noteq> [] \<and> lk_spki lc = pn_spki pin"
    "ke_registry_matches_local e \<longleftrightarrow> lk_spki rg \<noteq> [] \<and> lk_spki rg = lk_spki lc"
    "ke_registry_matches_pin e \<longleftrightarrow> pn_present pin \<and> lk_spki rg \<noteq> [] \<and> lk_spki rg = pn_spki pin"
    by (simp_all add: e new_entry_def pin_def Let_def)
  note key = found_has_key(1) [OF k(1)] found_has_key(2) [OF k(2)]
  have pins: "(\<exists>f \<in> set (pin_findings role in_use e). m \<in> set (fd_stop_in f)) \<longleftrightarrow>
      m \<in> set in_use \<and> lk_result lc = ''found'' \<and> pn_present pin \<and> lk_spki lc \<noteq> pn_spki pin"
    unfolding pin_findings_def Let_def entry(1,3,4) using key(1) by auto
  have regs: "(\<exists>f \<in> set (registry_findings in_use e). m \<in> set (fd_stop_in f)) \<longleftrightarrow> m \<in> set in_use \<and>
      (lk_result rg = ''revoked'' \<or> lk_result rg = ''found'' \<and>
        (lk_result lc = ''found'' \<and> lk_spki rg \<noteq> lk_spki lc \<or> pn_present pin \<and> lk_spki rg \<noteq> pn_spki pin))"
    unfolding registry_findings_def Let_def entry using key by (cases "lk_result rg = ''found''") (auto simp: bex_Un set_finding_if)
  have "\<not> (\<exists>f \<in> set (pin_use_findings (pf_rrn s) role e). m \<in> set (fd_stop_in f))"
    by (auto simp: pin_use_findings_def Let_def set_finding_if split: if_splits)
  with pins regs show "(\<exists>f \<in> set (kid_findings (pf_rrn s) role in_use e). m \<in> set (fd_stop_in f)) \<longleftrightarrow> m \<in> set in_use \<and>
       (lk_result (ke_registry e) = ''revoked'' \<or>
        lk_result (ke_local e) = ''found'' \<and> pn_present (ke_pin e) \<and> lk_spki (ke_local e) \<noteq> pn_spki (ke_pin e) \<or>
        lk_result (ke_registry e) = ''found'' \<and>
          (lk_result (ke_local e) = ''found'' \<and> lk_spki (ke_registry e) \<noteq> lk_spki (ke_local e) \<or>
           pn_present (ke_pin e) \<and> lk_spki (ke_registry e) \<noteq> pn_spki (ke_pin e)))"
    unfolding kid_findings_def entry(1-3) by (simp only: set_append bex_Un) blast
qed

theorem kid_stops_exact_witness:
  "\<exists>e t new. check_kid demo_registry (demo_inputs Bench) ''K'' ''manifest'' BOTH (start (demo_inputs Bench)) = Inr (e, t) \<and>
     map_of (pf_kids (start (demo_inputs Bench))) ''K'' = None \<and> pf_findings t = pf_findings (start (demo_inputs Bench)) @ new"
proof -
  have n: "map_of (pf_kids (start (demo_inputs Bench))) ''K'' = None" by (simp add: start_def)
  have "\<exists>e t. check_kid demo_registry (demo_inputs Bench) ''K'' ''manifest'' BOTH (start (demo_inputs Bench)) = Inr (e, t)"
    by (simp add: step_simps)
  then obtain e t where c: "check_kid demo_registry (demo_inputs Bench) ''K'' ''manifest'' BOTH (start (demo_inputs Bench)) = Inr (e, t)"
    by blast
  with n kid_stops_exact [OF c n, of Bench] show ?thesis by blast
qed

text \<open>A manifest with CR LF line ends: the gateway's text is not the text the preflight cuts the body from.\<close>

lemma crlf_manifest_differs:
  "let raw = ''a'' @ [CHR 0x0D, CHR 0x0A] @ ''<!-- ROBOT-MD-SIG kid=K sig=AAAA -->'' in
     pm_body (parse_manifest raw) = ''a'' @ [CHR 0x0D] \<and> read_text raw = Inr (''a'' @ [CHR 0x0A] @ ''<!-- ROBOT-MD-SIG kid=K sig=AAAA -->'')"
  by code_simp

end
