(* ===== verification/Conformance_Gateway.thy ===== *)
theory Conformance_Gateway
  imports Conformance Demo_Gateway
begin

text \<open>
  What the conformance script sends, over a whole run, and what it makes of the modelled gateway: a signed
  refusal of \<open>receiver.py\<close> is an answer in which the script finds nothing wrong.
\<close>

section \<open>What a run sends\<close>

lemma inputs_bearer: "inputs_of W a = Inr (token, key) \<Longrightarrow> load_read_bearer (cw_yaml W) (cw_bearers W) (ca_caller a) = Inr token"
  by (auto simp: inputs_of_def bindE_Inr_iff split: if_splits option.splits)

lemma case_table: "\<forall>c \<in> set (cases_of a). cs_scope c \<in> set ALLOWED_SCOPES" "length (cases_of a) \<le> 6"
  by (auto simp: cases_of_def CASES_def Case_def ALLOWED_SCOPES_def)

text \<open>The token of a row of the bearer file that names the caller and the tier \<open>read\<close>.\<close>

definition read_token :: "conf_world \<Rightarrow> string \<Rightarrow> string \<Rightarrow> bool" where
  "read_token W caller token \<longleftrightarrow> (\<exists>text data rows row. cw_bearers W = Inr text \<and> cw_yaml W text = Inr data \<and>
     items_of (case data of JObj d \<Rightarrow> get_def d ''bearers'' (JArr []) | _ \<Rightarrow> py_or data (JArr [])) = Inr rows \<and>
     JObj row \<in> set rows \<and> get row ''caller'' = JStr caller \<and> get row ''tier'' = JStr ''read'' \<and>
     get row ''token'' = JStr token)"

text \<open>C39. Whatever gateway answers and however the run ends, all that is sent are at most six requests, each for
  one of the two tools that only read, under a scope of the table, and with no bearer but the token of a row
  of the bearer file that names the configured caller and the tier \<open>read\<close>.\<close>

theorem conformance_reads_only:
  assumes "conformance W a = (res, sent)" "st \<in> set sent"
  shows "length sent \<le> 6 \<and> harmless (st_body st) \<and>
    (\<forall>token. st_token st = Some token \<longrightarrow> read_token W (ca_caller a) token)"
proof -
  from assms obtain token key r where i: "inputs_of W a = Inr (token, key)"
      and s: "send_cases W a token key 0 [] (cases_of a) = (r, sent)"
    by (auto simp: conformance_def split: sum.splits prod.splits)
  have "length sent \<le> 6" using sent_at_most [OF s] case_table(2) [of a] by simp
  moreover have "harmless (st_body st) \<and> st_token st \<in> {None, Some token}"
    using sent_harmless [OF s _ case_table(1) assms(2)] by simp
  moreover have "read_token W (ca_caller a) token"
    using read_bearer_row [OF inputs_bearer [OF i]] unfolding read_token_def by blast
  ultimately show ?thesis by auto
qed

text \<open>A run against a gateway that is gone after two answers.\<close>

definition demo_conf :: conf_world where
  "demo_conf = \<lparr>cw_crypto = tiny_crypto,
     cw_yaml = (\<lambda>_. Inr (JObj [(''bearers'', JArr [JObj [(''caller'', JStr ''x''), (''tier'', JStr ''actuate'')],
        JObj [(''token'', JStr ''0123456789abcdef''), (''caller'', JStr ''c''), (''tier'', JStr ''read'')]])])),
     cw_out_exists = False, cw_bearers = Inr [], cw_key = Inr (Some ''P''), cw_gateway_pub = Inr [], cw_export_there = True,
     cw_manifest = Inr [], cw_run_id = ''20260101T000000Z-abcdef'', cw_unknown_key = ''Q'', cw_public_pem = (\<lambda>k. k),
     cw_nonce = (\<lambda>n. ''n''), cw_now_ms = (\<lambda>n. 0), cw_post = (\<lambda>n body token. if n < 2 then Reply 200 ''{}'' else Fails (OSError [])), cw_before = [], cw_after = [],
     cw_bundle = []\<rparr>"

definition demo_args :: conf_args where
  "demo_args = \<lparr>ca_rrn = ''RRN-1'', ca_manifest_path = ''ROBOT.md'', ca_caller = ''c'', ca_kid = ''k'', ca_enforced = False\<rparr>"

lemma demo_sent: "map st_token (snd (conformance demo_conf demo_args)) = None # replicate 2 (Some ''0123456789abcdef'')"
  by code_simp

section \<open>What a refusal is to the script\<close>

lemma outcome_in_detail: "signed_outcome_of [(''detail'', JObj dd)] = obj_at dd ''outcome''"
    "deny_of [(''detail'', JObj dd)] = get dd ''deny''"
  by (simp_all add: signed_outcome_of_def deny_of_def obj_at_def)

lemma refused_receipt:
  assumes "refused cf w rq s t (JObj dd)" "get dd ''attestation'' = JStr ''attested''" "get dd ''deny'' = JStr g"
  shows "\<exists>receipt. obj_at dd ''outcome'' = Some receipt \<and> get receipt ''status'' = JStr ''denied'' \<and>
    get receipt ''receipt_version'' = JInt 2 \<and> get receipt ''caller'' = rq_caller rq \<and> get receipt ''tier'' = JStr (rq_tier rq) \<and>
    (\<exists>why. obj_at receipt ''error'' = Some [(''kind'', JStr g), (''message'', JStr why)])"
proof -
  obtain d body where r: "dd = attach_signature body (signed_or_not cf w rq d)" "get body ''deny'' = JStr (deny_kind (rc_reason d))"
      "rc_decision d = ''deny''"
    using assms(1) unfolding refused_def by blast
  obtain x marker where sm: "signed_or_not cf w rq d = (x, marker)" by (meson surj_pair)
  with r(1) assms(2) have "marker = ''attested''"
    by (auto simp: attach_signature_def Let_def update_conv' split: option.splits)
  with sm attested_receipt [of cf w rq d x] obtain receipt where x: "x = Some receipt"
      "build_signed_outcome cf w rq d = Inr (Some receipt, ''attested'')" by auto
  have dd: "obj_at dd ''outcome'' = Some receipt" "get dd ''deny'' = get body ''deny''"
    using r(1) sm x(1) by (simp_all add: attach_signature_def obj_at_def Let_def update_conv')
  from dd denied_receipt [OF x(2) r(3)] assms(3) r(2) show ?thesis by auto
qed


section \<open>A gateway and a run\<close>

text \<open>The demonstration gateway with a signing identity, under a pressed stop.\<close>

definition signing_config :: gateway_config where
  "signing_config = demo_config\<lparr>cf_identity := Some \<lparr>id_priv = ''P'', id_kid = ''G'', id_ran = None\<rparr>\<rparr>"

definition signed_stop :: "reply \<times> unit gateway" where
  "signed_stop = invoke signing_config demo_resolver demo_world demo_envelope None stopped_gateway"

lemma stopped_state: "mon_state stopped_monitor = ESTOP_ACTIVE"
  by (simp add: stopped_monitor_def)

lemma stopped_tick: "tick (w_mono_tick demo_world) stopped_monitor r = (stopped_monitor, r)" "\<not> can_actuate stopped_monitor"
  by (simp_all add: tick_def stopped_monitor_def can_actuate_def)

lemma signed_stop_detail:
  obtains dd out where "fst signed_stop = Http 403 (JObj dd)" "gw_dispatched (snd signed_stop) = gw_dispatched stopped_gateway"
    "get dd ''attestation'' = JStr ''attested''" "get dd ''deny'' = JStr ''safety_state''"
    "obj_at dd ''outcome'' = Some out" "get out ''corr_id'' = JStr ''m1''"
proof -
  let ?rq = "request_of signing_config demo_envelope None"
  let ?d = "refusal (''safety_state'' @ '': '' @ ''gateway state='' @ state_value ESTOP_ACTIVE) JNull (JStr ''m1'') (JStr ''rcan://RRN-1/x'') (JStr [])"
  obtain receipt where r: "signed_or_not signing_config demo_world ?rq ?d = (Some receipt, ''attested'')" "get receipt ''corr_id'' = JStr ''m1''"
    by (auto simp: signed_or_not_def build_signed_outcome_def signing_config_def demo_config_def Let_def outcome_error_def outcome_status_def
      telemetry_sha256_of_def sign_envelope_def tiny_crypto_def refusal_def build_outcome_def)
  have g: "gw_monitor stopped_gateway = Some stopped_monitor" "gw_chain stopped_gateway = None"
      "stopped_gateway\<lparr>gw_monitor := Some stopped_monitor, gw_report := gw_report stopped_gateway\<rparr> = stopped_gateway"
    by (simp_all add: stopped_gateway_def demo_gateway_def)
  have c: "raw_context ?rq JNull = \<lparr>dc_kid = JNull, dc_msg_id = JStr ''m1'', dc_ruri = JStr ''rcan://RRN-1/x'', dc_rrn = JStr []\<rparr>"
      "emit_attestation signing_config demo_world ?rq ?d x stopped_gateway = stopped_gateway" for x
    by (simp_all add: raw_context_def request_of_def demo_envelope_def get_def_def emit_attestation_def emit_line_def
      signing_config_def demo_config_def split: option.split)
  have "safety_stage signing_config demo_world ?rq stopped_gateway = (Inl (Http 403 (JObj (attach_signature
      [(''deny'', JStr ''safety_state''), (''reason'', JStr (''gateway state='' @ state_value ESTOP_ACTIVE))] (Some receipt, ''attested'')))), stopped_gateway)"
    using r(1) c(2) by (simp add: safety_stage_def g stopped_tick stopped_state deny_gate_def c(1) deny_def record_with_outcome_def Let_def)
  then have e: "fst signed_stop = Http 403 (JObj (attach_signature
      [(''deny'', JStr ''safety_state''), (''reason'', JStr (''gateway state='' @ state_value ESTOP_ACTIVE))] (Some receipt, ''attested'')))"
      "snd signed_stop = stopped_gateway"
    by (simp_all add: signed_stop_def invoke_def gates_def bindS_def)
  show thesis
    using e(2) r(2)
    by (intro that [OF e(1)]) (simp_all add: attach_signature_def obj_at_def Let_def update_conv')
qed


theorem conformance_reads_only_witness:
  "harmless (st_body (snd (conformance demo_conf demo_args) ! 1)) \<and> read_token demo_conf ''c'' ''0123456789abcdef''"
proof -
  let ?sent = "snd (conformance demo_conf demo_args)"
  have l: "length (map st_token ?sent) = 3" "map st_token ?sent ! 1 = Some ''0123456789abcdef''"
    unfolding demo_sent by simp_all
  then have m: "?sent ! 1 \<in> set ?sent" "st_token (?sent ! 1) = Some ''0123456789abcdef''" by simp_all
  show ?thesis
    using conformance_reads_only [of demo_conf demo_args "fst (conformance demo_conf demo_args)" ?sent "?sent ! 1"] m
    by (simp add: demo_args_def)
qed

end
