(* ===== verification/Spec2Isabelle.thy ===== *)
theory Spec2Isabelle
  imports Demo_Gateway Revocation Safety Verify_Receipt Shipper Invoke_Context Dispatcher Serve_Main Preflight_Gateway
    Conformance_Gateway
begin

text \<open>
  \<^bold>\<open>robot-md-gateway: a model of the gateway and what makes it correct.\<close>

  The gateway stands between callers and a robot's actuators. A request to \<open>POST /v1/invoke\<close> goes through
  an ordered list of gates (\<open>receiver.py\<close>, \<open>cert/\<close>); what passes all of them is routed to one actuator; what
  does not is refused with a signed receipt. Around the dispatch the gateway keeps evidence: a
  hash-linked audit chain in memory, signed outcomes, and a numbered, hash-linked trace export on disk,
  which \<open>scripts/verify_receipt.py\<close> checks without trusting the gateway.

  \<^bold>\<open>Theories and sources\<close> (paths under \<open>src/robot_md_gateway/\<close> unless they say otherwise).

  \<^item> \<open>Py_Float\<close>, \<open>Py_Prelude\<close>, \<open>Py_Json\<close>, \<open>Py_Base64\<close>, \<open>Py_Sha256\<close>, \<open>Py_Time\<close>: the Python the sources use.
    Doubles are exact rationals with round-half-even (\<open>fl\<close>), infinities and NaN; exceptions are the
    datatype \<open>exc\<close> on the left of a sum; JSON values are the datatype \<open>json\<close>, dicts association lists in
    insertion order; \<open>json.dumps\<close>/\<open>json.loads\<close>, base64 and SHA-256 are executable, with the round trips
    \<open>loads_dumps\<close> and \<open>b64_round_trip\<close>.
  \<^item> \<open>Crypto_Lib\<close>: \<open>rcan\<close>'s \<open>canonical_json\<close> and the Ed25519 library, which the repository does not contain:
    the record \<open>crypto\<close> is an argument everywhere, and \<open>signs_for\<close>, \<open>strips\<close>, \<open>reads_back\<close> are their
    documented laws, named as hypotheses where used; \<open>demo_crypto\<close> meets them all.
  \<^item> \<open>Cert_Report\<close> (\<open>cert/report.py\<close>), \<open>Hash_Log\<close> (the interface of an append-only hash-linked log, a locale
    interpreted by both the audit chain and the trace export), \<open>Audit_Log\<close> (\<open>cert/audit.py\<close>), \<open>Safety\<close>
    (\<open>cert/safety.py\<close>), \<open>Policy\<close> (\<open>cert/policy.py\<close>), \<open>Gates\<close> (\<open>cert/gates.py\<close>), \<open>Envelope\<close> (\<open>cert/envelope.py\<close>),
    \<open>Revocation\<close> (\<open>cert/revocation.py\<close>), \<open>Rrn_Binding\<close> (\<open>cert/rrn_binding.py\<close>), \<open>Manifest_Provenance\<close>
    (\<open>manifest_provenance.py\<close>), \<open>Actuator\<close> (\<open>actuator.py\<close>), \<open>Auth\<close> (\<open>auth.py\<close>), \<open>Attestation\<close> (\<open>attestation.py\<close>).
  \<^item> \<open>Receiver_Records\<close>, \<open>Receiver_Gates\<close>, \<open>Receiver\<close> (\<open>receiver.py\<close>): the signed records around a decision;
    each gate of \<open>_invoke\<close> as a stage, composed in the code's order by \<open>gates\<close>; configuration, routing,
    \<open>dispatch_to\<close> and the routes \<open>invoke\<close> and \<open>audit_last\<close>. \<open>make_app\<close>'s closure variables are the record
    \<open>gateway_config\<close>, what a request may change is the record \<open>gateway\<close>, what it observes of the outside
    (clocks, files, the registry, disk faults) is the record \<open>world\<close>. \<open>gw_dispatched\<close> is a ghost log of
    the calls of \<open>Actuator.execute\<close>.
  \<^item> \<open>Gateway_Runs\<close>, \<open>Attestation_Apart\<close>, \<open>Demo_Gateway\<close>: what holds over any sequence of requests, that the
    attestation side never influences the gateway, and a configured gateway to run the theorems on.
  \<^item> \<open>Export_Walk\<close>, \<open>Verify_Receipt\<close> (\<open>scripts/verify_receipt.py\<close>): the offline walk of an export and the
    stand-alone check of one receipt.
  \<^item> \<open>Shipper\<close> (\<open>shipper.py\<close>): the off-box copy of the export. \<open>Invoke_Context\<close> (\<open>context.py\<close>), \<open>Dispatcher\<close>
    (\<open>gating.py\<close>, \<open>app.py\<close>): the provenance block of an invoke, and the agent dispatcher's tool gate.
  \<^item> \<open>Serve_Main\<close> (\<open>__main__.py\<close>): the \<open>serve\<close> command; \<open>serve_boot\<close> takes the arguments, the environment and the
    host (\<open>boot_world\<close>: files, entry points, \<open>jsonschema\<close>, the network) to a \<open>gateway_config\<close> and a new \<open>gateway\<close>.
  \<^item> \<open>Preflight_Keys\<close>, \<open>Preflight_Manifest\<close>, \<open>Preflight\<close> (\<open>scripts/rrf_preflight.py\<close>): keys, the recorder and
    \<open>check_kid\<close>; what is read of manifests and environment files; every step of \<open>Preflight.run\<close> in the
    exception and state monad \<open>pre\<close> over the record \<open>preflight\<close>, up to the output and the exit code. The locale
    \<open>run_frame\<close> carries a relation of the states before and after through every step. \<open>Preflight_Verdict\<close> has what
    a verdict is worth, \<open>Preflight_Gateway\<close> what the preflight says against what the gateway does.
  \<^item> \<open>Conformance\<close> (\<open>scripts/rcan_conformance.py\<close>): the fixed cases, the inputs, the requests sent, the
    judgement of an answer and of the export, over what the gateway answers (\<open>conf_world\<close>).
    \<open>Conformance_Gateway\<close> bounds what a run sends and shows that a signed refusal of the modelled gateway
    is an answer without problems.

  \<^bold>\<open>What is shown.\<close> This theory: complete mediation, the refusal contract, record before dispatch, the
  precedence of the safety state, replay across any requests, credentials of a motion, and the audit
  chain over any run up to its signed export. The component theories: each gate's exact acceptance
  condition, errors included; that the log operations keep their hash links and that a loss is visible;
  that a walk without failures is the declarative \<open>whole\<close>; that the gateway's receipts and exports pass the
  independent verifier; that what the shipper has passed over was delivered; that every call of a served
  gateway obeys the environment it was started with, and which gates \<open>serve\<close> leaves off; that \<open>registry-resolves\<close> of the preflight vouches for the manifest's key, and that
  its judgement of a manifest is the gateway's.

  \<^bold>\<open>Bounds.\<close> The JSON reader's nesting budget is \<open>2 * length s + 2\<close>, which no text exceeds (each level takes
  a character), so \<open>json_loads\<close> is \<open>None\<close> only on text the grammar refuses. Sequence numbers of the export
  are below \<open>SEQ_LIMIT = 10 ^ 4300\<close>, beyond which Python refuses to print an int; the theorems on appends
  name that room. The shortest float representation tries at most 17 digits, which every double needs at
  most. No other definition has fuel.

  \<^bold>\<open>Not modelled.\<close> Concurrency: a request is one step, because the handler body is one call and the
  trace file is locked around an append; interleavings of two requests inside the handler are not
  covered. Text is UTF-8 bytes, with the ASCII meaning of case and white space; lone surrogates, numbers
  whose text passes 4300 digits outside the places named, and recursion limits are not modelled. Log
  messages and printing are left out. Of the command line (\<open>__main__.py\<close>, \<open>_legacy_cli.py\<close>) only
  \<open>serve\<close> is modelled, without its deprecated launcher mode. The wizard (\<open>init_wizard.py\<close>), the authority
  report script and the examples are input and output around the modelled parts. Of the preflight, what it
  gathers of the host (\<open>collect_gateway\<close>, \<open>host_addresses\<close>, \<open>tool_info\<close>) is an argument; of the
  conformance script, the contents of its two result files (they are an argument of the bearer check).
\<close>

section \<open>Mediation\<close>

text \<open>C1. Complete mediation: a request reaches an actuator only after every configured gate accepted it, and
  it reaches exactly the actuator the routing chose, with the envelope and the tier of the caller.\<close>

theorem complete_mediation:
  assumes "invoke cf resolve w env auth s = (rep, s')" "gw_dispatched s' \<noteq> gw_dispatched s"
  shows "\<exists>ie kid rrn act config call.
    cleared cf resolve w (request_of cf env auth) s ie kid rrn \<and>
    route (cf_fleet cf) ie = Inr (act, config) \<and> gw_dispatched s' = gw_dispatched s @ [call] \<and>
    dp_actuator call = act_name act \<and> dp_tool call = ie_tool_name ie \<and> dp_envelope call = env \<and>
    dp_tier call = fst (principal cf auth)"
  using assms(1)
proof (cases rule: invoke_cases)
  case stopped
  with assms(2) show ?thesis by (simp add: stops_def)
next
  case unrouted
  with assms(2) show ?thesis by (simp add: untouched_def)
next
  case (dispatched ie kid rrn act config t)
  obtain call where "gw_dispatched s' = gw_dispatched t @ [call]" "dp_actuator call = act_name act"
    "dp_tool call = ie_tool_name ie" "dp_envelope call = env" "dp_tier call = fst (principal cf auth)"
    by (rule dispatch_to_calls [OF dispatched(4)]) (simp add: request_of_def)
  with gates_pass(1) [OF dispatched(1)] dispatched(2,3) show ?thesis
    unfolding untouched_def by metis
qed

theorem complete_mediation_witness:
  "\<exists>ie kid rrn act config call.
    cleared demo_config demo_resolver demo_world (request_of demo_config demo_envelope (Some ''Bearer t''))
      (demo_gateway None) ie kid rrn \<and> route (cf_fleet demo_config) ie = Inr (act, config) \<and>
    gw_dispatched (snd (demo_run None)) = gw_dispatched (demo_gateway None) @ [call] \<and>
    dp_actuator call = act_name act \<and> dp_tool call = ie_tool_name ie \<and> dp_envelope call = demo_envelope \<and>
    dp_tier call = fst (principal demo_config (Some ''Bearer t''))"
  by (rule complete_mediation [OF demo_run_eq demo_run_dispatches]) simp





text \<open>C4. The safety state goes before every other gate: while the monitor does not allow actuation, no request
  reaches an actuator, consumes a replay slot or asks a resolver, and the reply is the 403 that names
  the state (or an exception while recording it).\<close>

theorem estop_precedence:
  assumes "invoke cf resolve w env auth s = (rep, s')" "gw_monitor s = Some m" "\<not> can_actuate m"
  shows "gw_dispatched s' = gw_dispatched s \<and> same_inputs s s' \<and> gw_monitor s' = Some m \<and>
    ((\<exists>e. rep = Crash e) \<or> (\<exists>sm. rep = Http 403 (JObj (attach_signature
        [(''deny'', JStr ''safety_state''), (''reason'', JStr (''gateway state='' @ state_value (mon_state m)))] sm))))"
proof -
  have t: "tick (w_mono_tick w) m (gw_report s) = (m, gw_report s)"
    using assms(3) by (simp add: tick_def can_actuate_def)
  let ?s1 = "s\<lparr>gw_monitor := Some m, gw_report := gw_report s\<rparr>"
  let ?rq = "request_of cf env auth"
  let ?d = "refusal (''safety_state: gateway state='' @ state_value (mon_state m)) JNull
    (dc_msg_id (raw_context ?rq JNull)) (dc_ruri (raw_context ?rq JNull)) (dc_rrn (raw_context ?rq JNull))"
  obtain a s2 where r: "record_with_outcome cf w ?rq ?d ?s1 = (a, s2)" by (meson surj_pair)
  note f = evidence_only_fields [OF record_with_outcome_frame [OF r]]
  have st: "safety_stage cf w ?rq s =
      deny cf w ?rq ?d [(''deny'', JStr ''safety_state''), (''reason'', JStr (''gateway state='' @ state_value (mon_state m)))] ?s1"
    using assms(2,3) t by (simp add: safety_stage_def Let_def deny_gate_def raw_context_def)
  show ?thesis
    using assms(1) st r f by (cases a) (auto simp: invoke_def gates_def bindS_def deny_def same_inputs_def Let_def)
qed

theorem estop_precedence_witness:
  "gw_dispatched (snd demo_stopped) = gw_dispatched stopped_gateway \<and> same_inputs stopped_gateway (snd demo_stopped) \<and>
    gw_monitor (snd demo_stopped) = Some (stopped_monitor) \<and>
    ((\<exists>e. fst demo_stopped = Crash e) \<or> (\<exists>sm. fst demo_stopped = Http 403 (JObj (attach_signature
        [(''deny'', JStr ''safety_state''), (''reason'', JStr (''gateway state='' @ state_value (mon_state stopped_monitor)))] sm))))"
  by (rule estop_precedence [OF demo_stopped_eq]) (simp_all add: stopped_gateway_def stopped_monitor_def can_actuate_def)



text \<open>C6. Motion needs a credential: a dispatched tool that any actuator declares as motion came with a bearer token
  of the index whose tier is neither read nor anon, under a scope that names an actuation.\<close>

theorem motion_needs_credential:
  assumes "invoke cf resolve w env auth s = (rep, s')" "gw_dispatched s' = gw_dispatched s @ [call]"
    and "dp_tool call \<in> set (motion_tools cf)"
  shows "\<exists>token e. auth = Some (''Bearer '' @ token) \<and> map_of (cf_bearers cf) token = Some e \<and>
    fst e \<notin> {''read'', ''anon''} \<and> is_actuation_scope (get env ''scope'')"
  using assms(1)
proof (cases rule: invoke_cases)
  case stopped
  with assms(2) show ?thesis by (simp add: stops_def)
next
  case unrouted
  with assms(2) show ?thesis by (simp add: untouched_def)
next
  case (dispatched ie kid rrn act config t)
  obtain c where "gw_dispatched s' = gw_dispatched t @ [c]" "dp_tool c = ie_tool_name ie"
    by (rule dispatch_to_calls [OF dispatched(4)])
  with assms(2) dispatched(3) have "dp_tool call = ie_tool_name ie" by (simp add: untouched_def)
  moreover have c: "cleared cf resolve w (request_of cf env auth) s ie kid rrn"
    using gates_pass(1) [OF dispatched(1)] .
  ultimately have scope: "is_actuation_scope (JStr (ie_scope ie))"
    and tier: "fst (principal cf auth) \<notin> {''read'', ''anon''}"
    using assms(3) by (auto simp: cleared_def policy_cleared_def is_motion_def request_of_def NON_ACTUATING_TIERS_def)
  have "parse_envelope env = Some ie" using c by (simp add: cleared_def request_of_def)
  then have "get env ''scope'' = JStr (ie_scope ie)"
    by (auto simp: parse_envelope_def split: if_splits json.splits)
  with scope tier show ?thesis
    by (auto simp: principal_def startswith_iff split: option.splits if_splits)
qed

theorem motion_needs_credential_witness:
  "\<exists>token e. Some ''Bearer t'' = Some (''Bearer '' @ token) \<and> map_of (cf_bearers demo_config) token = Some e \<and>
    fst e \<notin> {''read'', ''anon''} \<and> is_actuation_scope (get demo_envelope ''scope'')"
proof -
  obtain call where call: "gw_dispatched (snd (demo_run None)) = gw_dispatched (demo_gateway None) @ [call]"
      "dp_tool call = ''arm.home''"
    using demo_dispatch by (auto simp: demo_gateway_def demo_run_def)
  show ?thesis
    by (rule motion_needs_credential [OF demo_run_eq call(1)])
      (simp add: call motion_tools_def demo_config_def fleet_actuators_def)
qed

text \<open>C8. The audit chain of a serving gateway is append-only and stays linked, whatever requests arrive.\<close>

theorem audit_chain_stays_linked:
  assumes "gw_chain s = Some ch" "chain_ok (cf_crypto cf) ch"
  shows "\<exists>new. gw_chain (serve cf resolve arrivals s) = Some (ch @ new) \<and> chain_ok (cf_crypto cf) (ch @ new)"
  by (rule serve_chain [OF assms])

theorem audit_chain_stays_linked_witness:
  "\<exists>new. gw_chain (serve demo_config demo_resolver [(demo_world, demo_envelope, None)] (demo_gateway (Some []))) =
     Some ([] @ new) \<and> chain_ok (cf_crypto demo_config) ([] @ new)"
  by (rule audit_chain_stays_linked) simp_all

text \<open>C9. An export of what a gateway served verifies: after any requests on a new chain, a bundle exported with an
  Ed25519 key is accepted by every verifier whose key ring has that key under the bundle's kid.\<close>

theorem served_export_verifies:
  assumes "gw_chain s = Some []" "gw_chain (serve cf resolve arrivals s) = Some ch"
    and "load key = Inr (Ed25519PrivateKey priv)" "signs_for (cf_crypto cf) priv pub"
    and "map_of ring kid = Some pem" "load_pem_public_key (cf_crypto cf) pem = PemKey (Ed25519PublicKey pub)"
    and "export_signed (cf_crypto cf) load stamp key kid ch r = (Inr bundle, r')"
  shows "verify_audit_bundle (cf_crypto cf) ring bundle = Inr True"
proof -
  have "chain_ok (cf_crypto cf) ch"
    using serve_chain [OF assms(1) chain_ok_Nil, of cf resolve arrivals] assms(2) by auto
  then show ?thesis
    using export_verifies [OF assms(3-7)] by (simp add: chain_ok_def)
qed

theorem served_export_verifies_witness:
  "\<exists>bd. verify_audit_bundle (cf_crypto (demo_config\<lparr>cf_crypto := demo_crypto\<lparr>canonical_json := \<lambda>_ _. Inr []\<rparr>\<rparr>))
     [(''K'', ''P'')] bd = Inr True"
proof -
  let ?cf = "demo_config\<lparr>cf_crypto := demo_crypto\<lparr>canonical_json := \<lambda>_ _. Inr []\<rparr>\<rparr>"
  let ?load = "\<lambda>_. Inr (Ed25519PrivateKey ''P'')"
  obtain bd r' where b: "export_signed (cf_crypto ?cf) ?load ''now'' ''pem'' ''K'' [] (initial_report (\<lambda>_. [])) = (Inr bd, r')"
    by (simp add: export_signed_def)
  have "verify_audit_bundle (cf_crypto ?cf) [(''K'', ''P'')] bd = Inr True"
    by (rule served_export_verifies [where s = "demo_gateway (Some [])" and arrivals = "[]" and resolve = demo_resolver,
          OF _ _ _ _ _ _ b])
      (simp_all add: serve_def signs_for_def demo_crypto_def)
  then show ?thesis by blast
qed

end
